theory Spec2Isabelle
  imports Main "HOL-Library.Sublist" "HOL-Library.Char_ord" "HOL-Library.List_Lexorder"
    "HOL-Library.Product_Lexorder" "HOL-Library.AList"
begin

section \<open>Values of the JavaScript runtime\<close>

text \<open>
  A parsed JSON value, which is also what a field of a stored document holds. An object
  is the list of its own properties, each key once. Numbers are kept as integers, of
  the size a JavaScript number holds exactly. A string is the list of its code units.
\<close>

datatype json =
    JNull
  | JBool bool
  | JNum int
  | JStr string
  | JArr "json list"
  | JObj "(string \<times> json) list"

text \<open>
  Exceptions thrown in the program, with the message a handler reads from them. The
  rejection of the timer in the weekly route is caught on the spot and its message is
  never read, so it has no constructor here.
\<close>

datatype exn =
    IncompleteResponse
  | MalformedResponse
  | ServiceError string
  | StoreError string
  | TypeError string

fun message :: "exn \<Rightarrow> string" where
  "message IncompleteResponse = ''Gemini response was incomplete - try again''"
| "message MalformedResponse = ''Invalid AI response format - could not parse JSON''"
| "message (ServiceError m) = m"
| "message (StoreError m) = m"
| "message (TypeError m) = m"

text \<open>
  \<open>data.f\<close> on a value other than \<open>null\<close>, for the field names the program reads
  (none of them is a property of a prototype): the own property of an object,
  \<open>undefined\<close> (\<open>None\<close>) on every other value. Reading a property of \<open>null\<close>
  throws; the callers test for it first.
\<close>

fun js_prop :: "json \<Rightarrow> string \<Rightarrow> json option" where
  "js_prop (JObj kvs) f = map_of kvs f"
| "js_prop _ f = None"

definition null_read :: "string \<Rightarrow> exn" where
  "null_read f =
     TypeError (''Cannot read properties of null (reading '' @ [CHR 0x27] @ f @ [CHR 0x27] @ '')'')"

text \<open>Truthiness of a value, as \<open>||\<close> and \<open>filter\<close> test it.\<close>

fun truthy :: "json \<Rightarrow> bool" where
  "truthy JNull = False"
| "truthy (JBool b) = b"
| "truthy (JNum n) = (n \<noteq> 0)"
| "truthy (JStr s) = (s \<noteq> [])"
| "truthy (JArr xs) = True"
| "truthy (JObj kvs) = True"

definition digit_char :: "nat \<Rightarrow> char" where
  "digit_char d = ''0123456789'' ! d"

fun show_digits :: "nat \<Rightarrow> nat \<Rightarrow> string" where
  "show_digits 0 n = []"
| "show_digits (Suc fuel) n =
     (if n < 10 then [digit_char n]
      else show_digits fuel (n div 10) @ [digit_char (n mod 10)])"

definition show_nat :: "nat \<Rightarrow> string" where
  "show_nat n = show_digits (Suc n) n"

definition show_int :: "int \<Rightarrow> string" where
  "show_int i = (if i < 0 then CHR ''-'' # show_nat (nat (- i)) else show_nat (nat i))"

fun join :: "string \<Rightarrow> string list \<Rightarrow> string" where
  "join sep [] = []"
| "join sep [x] = x"
| "join sep (x # y # ys) = x @ sep @ join sep (y # ys)"

text \<open>
  The string a value turns into when it is used as a property key, \<open>None\<close> when the
  conversion throws a TypeError. An array joins its elements with commas, \<open>null\<close>
  counting as the empty string. An object is asked for its \<open>toString\<close>: the one it
  inherits answers \<open>[object Object]\<close>; an own property of that name is data, not a
  function, so the conversion goes on to \<open>valueOf\<close>, which, own or inherited, gives
  no primitive value either, and the conversion throws.
\<close>

fun to_string :: "json \<Rightarrow> string option" where
  "to_string JNull = Some ''null''"
| "to_string (JBool b) = Some (if b then ''true'' else ''false'')"
| "to_string (JNum n) = Some (show_int n)"
| "to_string (JStr s) = Some s"
| "to_string (JArr xs) =
     map_option (join '','')
       (those (map (\<lambda>x. if x = JNull then Some [] else to_string x) xs))"
| "to_string (JObj kvs) =
     (if map_of kvs ''toString'' = None then Some ''[object Object]'' else None)"

definition cannot_convert :: exn where
  "cannot_convert = TypeError ''Cannot convert object to primitive value''"

section \<open>String operations\<close>

definition js_whitespace :: "char \<Rightarrow> bool" where
  "js_whitespace c =
     (c \<in> set [CHR 0x09, CHR 0x0A, CHR 0x0B, CHR 0x0C, CHR 0x0D, CHR '' '', CHR 0xA0])"

definition trim :: "string \<Rightarrow> string" where
  "trim s = rev (dropWhile js_whitespace (rev (dropWhile js_whitespace s)))"

text \<open>\<open>s.replace(/pat/g, '')\<close> for a literal pattern: the matches are taken left to right.\<close>

fun remove_all :: "string \<Rightarrow> string \<Rightarrow> string" where
  "remove_all pat [] = []"
| "remove_all pat (c # cs) =
     (if pat \<noteq> [] \<and> prefix pat (c # cs)
      then remove_all pat (drop (length pat) (c # cs))
      else c # remove_all pat cs)"

definition index_of :: "char \<Rightarrow> string \<Rightarrow> int" where
  "index_of c s =
     (if c \<in> set s then int (length (takeWhile (\<lambda>x. x \<noteq> c) s)) else - 1)"

definition last_index_of :: "char \<Rightarrow> string \<Rightarrow> int" where
  "last_index_of c s =
     (if c \<in> set s
      then int (length s) - 1 - int (length (takeWhile (\<lambda>x. x \<noteq> c) (rev s)))
      else - 1)"

text \<open>\<open>s.substring(a, b)\<close>: both ends are clamped to the length and swapped if needed.\<close>

definition substring :: "string \<Rightarrow> nat \<Rightarrow> nat \<Rightarrow> string" where
  "substring s a b =
     (let a' = min a (length s); b' = min b (length s);
          lo = min a' b'; hi = max a' b'
      in take (hi - lo) (drop lo s))"

fun str_includes :: "string \<Rightarrow> string \<Rightarrow> bool" where
  "str_includes [] pat = (pat = [])"
| "str_includes (c # cs) pat = (prefix pat (c # cs) \<or> str_includes cs pat)"

text \<open>\<open>s.replace(/```json/g, '').replace(/```/g, '').trim()\<close>\<close>

definition strip_fences :: "string \<Rightarrow> string" where
  "strip_fences s = trim (remove_all ''```'' (remove_all ''```json'' s))"

text \<open>The text that \<open>callGemini\<close> hands to \<open>JSON.parse\<close>.\<close>

definition extract_json_text :: "string \<Rightarrow> string" where
  "extract_json_text text =
     (let jsonStr = trim text;
          jsonStr = strip_fences jsonStr;
          firstBrace = index_of CHR ''{'' jsonStr;
          lastBrace = last_index_of CHR ''}'' jsonStr
      in if firstBrace \<noteq> - 1 \<and> lastBrace \<noteq> - 1 \<and> lastBrace > firstBrace
         then substring jsonStr (nat firstBrace) (nat (lastBrace + 1))
         else jsonStr)"

definition indicates_truncation :: "string \<Rightarrow> bool" where
  "indicates_truncation msg =
     (str_includes msg ''Unterminated'' \<or> str_includes msg ''Unexpected end'')"

section \<open>Documents of the store\<close>

record cache_entry =
  timestamp :: int
  reflectionCount :: nat
  analysis :: json

record api_log =
  log_timestamp :: int
  operation :: string
  details :: string

text \<open>
  The \<open>apiLogs\<close> field as \<open>incrementAPICount\<close> meets it: absent, an array, or a value
  that is truthy and has no \<open>slice\<close> method.
\<close>

datatype logs_field = LogsAbsent | LogsArray "api_log list" | LogsMalformed

record api_usage =
  byDate :: "string \<rightharpoonup> nat"
  byType :: "string \<rightharpoonup> nat"
  lastUpdated :: int

record user_doc =
  name :: "string option"
  email :: "string option"
  lastActive :: "int option"
  weeklyAnalysisCache :: "cache_entry option"
  apiRequestCount :: "nat option"
  apiLogs :: logs_field
  apiUsage :: "api_usage option"

definition empty_user :: user_doc where
  "empty_user = \<lparr>name = None, email = None, lastActive = None, weeklyAnalysisCache = None,
     apiRequestCount = None, apiLogs = LogsAbsent, apiUsage = None\<rparr>"

record reflection =
  date :: string
  transcript :: json
  createdAt :: int
  inputType :: string
  analysisStatus :: "string option"
  analysisError :: "string option"
  primaryEmotion :: "json option"
  secondaryEmotion :: "json option"
  theme :: "json option"
  emotionalIntensity :: "json option"
  dailyInsight :: "json option"

record summary =
  s_date :: string
  s_primaryEmotion :: "json option"
  s_secondaryEmotion :: "json option"
  s_theme :: "json option"
  s_emotionalIntensity :: "json option"

text \<open>A prompt is told by the data interpolated into its fixed text.\<close>

datatype prompt = TextPrompt string | VoicePrompt string | WeeklyPrompt "summary list"

section \<open>The world outside the program\<close>

datatype gemini_outcome = Responds string | Rejects string

datatype event =
    StoreRead string
  | StoreWrite string
  | GeminiRequest prompt
  | ConsoleError string

text \<open>
  What the program does not decide: the runtime's \<open>JSON.parse\<close> (\<open>Inl\<close> is the message
  of its SyntaxError), the reply of the generative service to the n-th request, whether
  the n-th store operation is rejected and with which message, the time the n-th
  analysis request takes in milliseconds, and the clock of the request.
\<close>

record env =
  JSON_parse :: "string \<Rightarrow> string + json"
  gemini_reply :: "nat \<Rightarrow> gemini_outcome"
  store_fault :: "nat \<Rightarrow> string option"
  analysis_latency :: "nat \<Rightarrow> nat"
  now_ms :: int
  today :: string
  time_hms :: string

record world =
  users :: "string \<rightharpoonup> user_doc"
  reflections :: "string \<Rightarrow> (string \<times> reflection) list"
  store_ops :: nat
  gemini_calls :: nat
  trace :: "event list"

definition console_error :: "string \<Rightarrow> world \<Rightarrow> world" where
  "console_error m w = w\<lparr>trace := trace w @ [ConsoleError m]\<rparr>"

text \<open>
  Every store operation is counted and traced, and the environment may reject it. Of
  the console only \<open>console.error\<close> is traced.
\<close>

definition store_step :: "env \<Rightarrow> event \<Rightarrow> world \<Rightarrow> string option \<times> world" where
  "store_step e ev w =
     (store_fault e (store_ops w),
      w\<lparr>store_ops := Suc (store_ops w), trace := trace w @ [ev]\<rparr>)"

definition user_get :: "env \<Rightarrow> string \<Rightarrow> world \<Rightarrow> (exn + user_doc option) \<times> world" where
  "user_get e uid w =
     (case store_step e (StoreRead uid) w of
        (Some m, w1) \<Rightarrow> (Inl (StoreError m), w1)
      | (None, w1) \<Rightarrow> (Inr (users w1 uid), w1))"

text \<open>\<open>userRef.set(fields, {merge: true})\<close>: the fields are written over the document.\<close>

definition user_merge ::
  "env \<Rightarrow> string \<Rightarrow> (user_doc \<Rightarrow> user_doc) \<Rightarrow> world \<Rightarrow> (exn + unit) \<times> world" where
  "user_merge e uid f w =
     (case store_step e (StoreWrite uid) w of
        (Some m, w1) \<Rightarrow> (Inl (StoreError m), w1)
      | (None, w1) \<Rightarrow>
          (Inr (),
           w1\<lparr>users := (users w1)(uid \<mapsto>
                 f (case users w1 uid of None \<Rightarrow> empty_user | Some d \<Rightarrow> d))\<rparr>))"

definition reflection_set ::
  "env \<Rightarrow> string \<Rightarrow> string \<Rightarrow> reflection \<Rightarrow> world \<Rightarrow> (exn + unit) \<times> world" where
  "reflection_set e uid docId r w =
     (case store_step e (StoreWrite (uid @ ''/'' @ docId)) w of
        (Some m, w1) \<Rightarrow> (Inl (StoreError m), w1)
      | (None, w1) \<Rightarrow>
          (Inr (),
           w1\<lparr>reflections := (reflections w1)(uid := AList.update docId r (reflections w1 uid))\<rparr>))"

text \<open>\<open>docRef.update(fields)\<close> is rejected when the document does not exist.\<close>

definition reflection_update ::
  "env \<Rightarrow> string \<Rightarrow> string \<Rightarrow> (reflection \<Rightarrow> reflection) \<Rightarrow> world \<Rightarrow> (exn + unit) \<times> world" where
  "reflection_update e uid docId f w =
     (case store_step e (StoreWrite (uid @ ''/'' @ docId)) w of
        (Some m, w1) \<Rightarrow> (Inl (StoreError m), w1)
      | (None, w1) \<Rightarrow>
          (case map_of (reflections w1 uid) docId of
             None \<Rightarrow> (Inl (StoreError ''No document to update''), w1)
           | Some r \<Rightarrow>
               (Inr (),
                w1\<lparr>reflections :=
                     (reflections w1)(uid := AList.update docId (f r) (reflections w1 uid))\<rparr>)))"

definition reflection_get ::
  "env \<Rightarrow> string \<Rightarrow> string \<Rightarrow> world \<Rightarrow> (exn + reflection option) \<times> world" where
  "reflection_get e uid docId w =
     (case store_step e (StoreRead (uid @ ''/'' @ docId)) w of
        (Some m, w1) \<Rightarrow> (Inl (StoreError m), w1)
      | (None, w1) \<Rightarrow> (Inr (map_of (reflections w1 uid) docId), w1))"

text \<open>
  \<open>orderBy("createdAt", "desc").limit(n)\<close>: the documents by creation time, the most
  recent first; the store orders documents of one creation time by their id, in the
  same direction.
\<close>

definition newest_first :: "(string \<times> reflection) list \<Rightarrow> (string \<times> reflection) list" where
  "newest_first docs = rev (sort_key (\<lambda>(docId, r). (createdAt r, docId)) docs)"

definition reflections_query ::
  "env \<Rightarrow> string \<Rightarrow> nat \<Rightarrow> world \<Rightarrow> (exn + (string \<times> reflection) list) \<times> world" where
  "reflections_query e uid n w =
     (case store_step e (StoreRead (uid @ ''/reflections'')) w of
        (Some m, w1) \<Rightarrow> (Inl (StoreError m), w1)
      | (None, w1) \<Rightarrow> (Inr (take n (newest_first (reflections w1 uid))), w1))"

section \<open>Usage recorder: \<open>incrementAPICount\<close>\<close>

definition operation_type :: "string \<Rightarrow> string" where
  "operation_type opn =
     (if str_includes opn ''text'' then ''text''
      else if str_includes opn ''voice'' then ''voice''
      else if str_includes opn ''weekly'' then ''weekly''
      else ''other'')"

definition tally :: "(string \<rightharpoonup> nat) \<Rightarrow> string \<Rightarrow> (string \<rightharpoonup> nat)" where
  "tally m k = m(k \<mapsto> (case m k of None \<Rightarrow> 0 | Some c \<Rightarrow> c) + 1)"

text \<open>\<open>[...currentLogs.slice(-99), newLog]\<close>\<close>

definition append_log :: "api_log list \<Rightarrow> api_log \<Rightarrow> api_log list" where
  "append_log currentLogs newLog = drop (length currentLogs - 99) currentLogs @ [newLog]"

definition record_usage :: "env \<Rightarrow> string \<Rightarrow> string \<Rightarrow> api_log list \<Rightarrow> user_doc \<Rightarrow> user_doc \<Rightarrow> user_doc" where
  "record_usage e opn dets currentLogs userData d =
     d\<lparr>apiRequestCount :=
          Some ((case apiRequestCount userData of None \<Rightarrow> 0 | Some c \<Rightarrow> c) + 1),
        apiLogs := LogsArray (append_log currentLogs
          \<lparr>log_timestamp = now_ms e, operation = opn, details = dets\<rparr>),
        apiUsage := Some
          \<lparr>byDate = tally (case apiUsage userData of None \<Rightarrow> Map.empty | Some u \<Rightarrow> byDate u)
                       (today e),
           byType = tally (case apiUsage userData of None \<Rightarrow> Map.empty | Some u \<Rightarrow> byType u)
                       (operation_type opn),
           lastUpdated = now_ms e\<rparr>\<rparr>"

text \<open>
  The whole body runs under one \<open>try\<close>: a rejected read, a rejected write and the
  TypeError of \<open>currentLogs.slice\<close> all end in \<open>console.error\<close>, and the function
  returns normally.
\<close>

definition incrementAPICount :: "env \<Rightarrow> string \<Rightarrow> string \<Rightarrow> string \<Rightarrow> world \<Rightarrow> world" where
  "incrementAPICount e userId opn dets w =
     (if userId = [] then w
      else
        (case user_get e userId w of
           (Inl err, w1) \<Rightarrow>
             console_error (''Failed to increment API count: '' @ message err) w1
         | (Inr userDoc, w1) \<Rightarrow>
             (let userData = (case userDoc of None \<Rightarrow> empty_user | Some d \<Rightarrow> d)
              in case apiLogs userData of
                   LogsMalformed \<Rightarrow>
                     console_error (''Failed to increment API count: ''
                        @ ''currentLogs.slice is not a function'') w1
                 | logs \<Rightarrow>
                     (case user_merge e userId
                        (record_usage e opn dets
                           (case logs of LogsArray l \<Rightarrow> l | _ \<Rightarrow> []) userData) w1 of
                        (Inl err, w2) \<Rightarrow>
                          console_error (''Failed to increment API count: '' @ message err) w2
                      | (Inr u, w2) \<Rightarrow> w2))))"

section \<open>Analysis client: \<open>callGemini\<close>\<close>

definition callGemini ::
  "env \<Rightarrow> prompt \<Rightarrow> string option \<Rightarrow> string \<Rightarrow> string \<Rightarrow> world \<Rightarrow> (exn + json) \<times> world" where
  "callGemini e p userId opn dets w =
     (let w1 = (case userId of
                  None \<Rightarrow> w
                | Some u \<Rightarrow> if u = [] then w else incrementAPICount e u opn dets w);
          reply = gemini_reply e (gemini_calls w1);
          w2 = w1\<lparr>gemini_calls := Suc (gemini_calls w1),
                  trace := trace w1 @ [GeminiRequest p]\<rparr>
      in case reply of
           Rejects m \<Rightarrow> (Inl (ServiceError m), w2)
         | Responds text \<Rightarrow>
             (case JSON_parse e (extract_json_text text) of
                Inr parsed \<Rightarrow> (Inr parsed, w2)
              | Inl msg \<Rightarrow>
                  (if indicates_truncation msg then Inl IncompleteResponse
                   else Inl MalformedResponse,
                   console_error (''Parse error: '' @ msg)
                     (console_error (''Cleaned string: '' @ extract_json_text text)
                        (console_error (''Raw text: '' @ text)
                           (console_error ''JSON PARSE ERROR:'' w2))))))"

section \<open>Background analysis of a transcript: \<open>analyzeTranscriptBackground\<close>\<close>

text \<open>
  The store client refuses a document that carries an \<open>undefined\<close> field value, before
  anything is sent to the store.
\<close>

definition undefined_value :: exn where
  "undefined_value = StoreError ''Cannot use undefined as a Firestore value''"

definition lacks_field :: "json \<Rightarrow> string list \<Rightarrow> bool" where
  "lacks_field data names = list_ex (\<lambda>f. js_prop data f = None) names"

definition analyzeTranscriptBackground ::
  "env \<Rightarrow> string \<Rightarrow> string \<Rightarrow> string \<Rightarrow> world \<Rightarrow> (string + json) \<times> world" where
  "analyzeTranscriptBackground e userId docId text w =
     (let attempt =
        (case callGemini e (VoicePrompt text) (Some userId)
                ''voice-analysis'' ''Voice transcript analysis'' w of
           (Inl err, w1) \<Rightarrow> (Inl err, w1)
         | (Inr data, w1) \<Rightarrow>
             if data = JNull then (Inl (null_read ''dailyInsight''), w1)
             else if lacks_field data
                       [''dailyInsight'', ''primaryEmotion'', ''secondaryEmotion'',
                        ''emotionalIntensity'', ''theme'']
             then (Inl undefined_value, w1)
             else
               (case reflection_update e userId docId
                  (\<lambda>r. r\<lparr>dailyInsight := js_prop data ''dailyInsight'',
                          primaryEmotion := js_prop data ''primaryEmotion'',
                          secondaryEmotion := js_prop data ''secondaryEmotion'',
                          emotionalIntensity := js_prop data ''emotionalIntensity'',
                          theme := js_prop data ''theme'',
                          analysisStatus := Some ''completed''\<rparr>) w1 of
                  (Inl err, w2) \<Rightarrow> (Inl err, w2)
                | (Inr u, w2) \<Rightarrow> (Inr data, w2)))
      in case attempt of
           (Inr data, w2) \<Rightarrow> (Inr data, w2)
         | (Inl err, w2) \<Rightarrow>
             (let w3 = console_error (''[BACKGROUND ANALYSIS] Failed: '' @ message err) w2
              in case reflection_update e userId docId
                   (\<lambda>r. r\<lparr>analysisStatus := Some ''failed'',
                           analysisError := Some (message err)\<rparr>) w3 of
                   (Inl updateError, w4) \<Rightarrow>
                     (Inl (message err),
                      console_error (''[BACKGROUND ANALYSIS] Failed to update error status: ''
                        @ message updateError) w4)
                 | (Inr u, w4) \<Rightarrow> (Inl (message err), w4)))"

section \<open>Requests and responses\<close>

record save_body =
  b_userId :: "string option"
  b_userName :: "string option"
  b_userEmail :: "string option"
  b_date :: "string option"
  b_transcript :: "string option"

record daily_body =
  d_userId :: "string option"
  d_userName :: "string option"
  d_userEmail :: "string option"
  d_date :: "string option"
  d_textInput :: "string option"

text \<open>
  The JSON bodies the routes send. \<open>Failure\<close> is \<open>{success: false, error}\<close>; every
  other body has \<open>success: true\<close>. The last field of \<open>WeeklyResult\<close> is the \<open>cached\<close>
  flag, \<open>None\<close> when the body has no such field.
\<close>

datatype body =
    Failure string
  | Reflection string string reflection
  | Analysis string string reflection
  | NotEnough "string option" "nat option"
  | WeeklyResult nat json "bool option"
  | Found string reflection
  | NotFound string

type_synonym response = "nat \<times> body"

text \<open>The background work a request leaves behind: user, document id, transcript.\<close>

type_synonym task = "string \<times> string \<times> string"

text \<open>\<open>x || d\<close> on an optional string.\<close>

definition or_default :: "string option \<Rightarrow> string \<Rightarrow> string" where
  "or_default x d = (case x of None \<Rightarrow> d | Some s \<Rightarrow> if s = [] then d else s)"

definition doc_id :: "env \<Rightarrow> string \<Rightarrow> string" where
  "doc_id e dateStr =
     dateStr @ ''_'' @ map (\<lambda>c. if c = CHR '':'' then CHR ''-'' else c) (time_hms e)"

definition touch_user :: "env \<Rightarrow> string option \<Rightarrow> string option \<Rightarrow> user_doc \<Rightarrow> user_doc" where
  "touch_user e userName userEmail d =
     d\<lparr>name := Some (or_default userName ''Anonymous''),
       email := Some (or_default userEmail []),
       lastActive := Some (now_ms e)\<rparr>"

definition clear_cache :: "user_doc \<Rightarrow> user_doc" where
  "clear_cache d = d\<lparr>weeklyAnalysisCache := None\<rparr>"

section \<open>\<open>POST /save-transcript\<close>\<close>

definition save_transcript ::
  "env \<Rightarrow> save_body \<Rightarrow> world \<Rightarrow> (response \<times> task option) \<times> world" where
  "save_transcript e b w =
     (case (b_userId b, b_transcript b) of
        (Some userId, Some text) \<Rightarrow>
          if userId = [] \<or> text = []
          then (((400, Failure ''userId and transcript are required''), None), w)
          else
            (let dateStr = or_default (b_date b) (today e);
                 docId = doc_id e dateStr;
                 reflectionData =
                   \<lparr>date = dateStr, transcript = JStr (trim text), createdAt = now_ms e,
                    inputType = ''voice'', analysisStatus = Some ''pending'',
                    analysisError = None, primaryEmotion = None, secondaryEmotion = None,
                    theme = None, emotionalIntensity = None, dailyInsight = None\<rparr>
             in case user_merge e userId (touch_user e (b_userName b) (b_userEmail b)) w of
                  (Inl err, w1) \<Rightarrow>
                    (((500, Failure ''Failed to save transcript''), None),
                     console_error ''SAVE TRANSCRIPT ROUTE ERROR:'' w1)
                | (Inr u, w1) \<Rightarrow>
                    (case reflection_set e userId docId reflectionData w1 of
                       (Inl err, w2) \<Rightarrow>
                         (((500, Failure ''Failed to save transcript''), None),
                          console_error ''SAVE TRANSCRIPT ROUTE ERROR:'' w2)
                     | (Inr u, w2) \<Rightarrow>
                         (((200, Reflection docId userId reflectionData),
                           Some (userId, docId, trim text)), w2)))
      | _ \<Rightarrow> (((400, Failure ''userId and transcript are required''), None), w))"

text \<open>
  The task that \<open>save-transcript\<close> starts and does not await: the analysis, then the
  \<open>then\<close> callback, whose cache write nobody awaits.
\<close>

definition background_task :: "env \<Rightarrow> task \<Rightarrow> world \<Rightarrow> world" where
  "background_task e t w =
     (case t of (userId, docId, text) \<Rightarrow>
        (case analyzeTranscriptBackground e userId docId text w of
           (Inr data, w1) \<Rightarrow> snd (user_merge e userId clear_cache w1)
         | (Inl err, w1) \<Rightarrow> console_error (''Analysis failed for '' @ docId) w1))"

section \<open>\<open>GET /reflection-by-id/:userId/:docId\<close>\<close>

definition reflection_by_id :: "env \<Rightarrow> string \<Rightarrow> string \<Rightarrow> world \<Rightarrow> response \<times> world" where
  "reflection_by_id e userId docId w =
     (case reflection_get e userId docId w of
        (Inl err, w1) \<Rightarrow>
          ((500, Failure ''Failed to fetch reflection''),
           console_error ''GET REFLECTION BY ID ERROR:'' w1)
      | (Inr None, w1) \<Rightarrow> ((200, NotFound ''Reflection not found''), w1)
      | (Inr (Some r), w1) \<Rightarrow> ((200, Found docId r), w1))"

section \<open>\<open>POST /analyze-daily\<close>\<close>

definition analyzeTextReflection ::
  "env \<Rightarrow> string \<Rightarrow> string option \<Rightarrow> world \<Rightarrow> (string + json) \<times> world" where
  "analyzeTextReflection e textInput userId w =
     (case callGemini e (TextPrompt textInput) userId
             ''text-analysis'' ''Daily text reflection'' w of
        (Inr data, w1) \<Rightarrow> (Inr data, w1)
      | (Inl err, w1) \<Rightarrow>
          (Inl (message err), console_error (''TEXT ANALYSIS ERROR: '' @ message err) w1))"

text \<open>The \<open>reflectionData\<close> object built from the analysis.\<close>

definition daily_reflection :: "env \<Rightarrow> string \<Rightarrow> json \<Rightarrow> reflection" where
  "daily_reflection e dateStr data =
     \<lparr>date = dateStr,
      transcript = (case js_prop data ''transcript'' of None \<Rightarrow> JNull | Some v \<Rightarrow> v),
      createdAt = now_ms e, inputType = ''text'',
      analysisStatus = None, analysisError = None,
      primaryEmotion = js_prop data ''primaryEmotion'',
      secondaryEmotion = js_prop data ''secondaryEmotion'',
      theme = js_prop data ''theme'',
      emotionalIntensity = js_prop data ''emotionalIntensity'',
      dailyInsight = js_prop data ''dailyInsight''\<rparr>"

definition daily_failed :: "world \<Rightarrow> response \<times> world" where
  "daily_failed w =
     ((500, Failure ''Failed to analyze reflection''),
      console_error ''DAILY ANALYSIS ROUTE ERROR:'' w)"

text \<open>
  The route after a successful analysis: the user's document, the reflection, the cache.
  Reading a field of \<open>null\<close> throws before anything is written; the store client
  refuses the reflection when a field is \<open>undefined\<close>, after the user's document was
  written.
\<close>

definition persist_daily ::
  "env \<Rightarrow> daily_body \<Rightarrow> string \<Rightarrow> string \<Rightarrow> json \<Rightarrow> world \<Rightarrow> response \<times> world" where
  "persist_daily e b userId dateStr data w =
     (if data = JNull then daily_failed w
      else
        (case user_merge e userId (touch_user e (d_userName b) (d_userEmail b)) w of
           (Inl err, w1) \<Rightarrow> daily_failed w1
         | (Inr u, w1) \<Rightarrow>
             if lacks_field data
                  [''transcript'', ''primaryEmotion'', ''secondaryEmotion'',
                   ''theme'', ''emotionalIntensity'', ''dailyInsight'']
             then daily_failed w1
             else
               (case reflection_set e userId (doc_id e dateStr)
                       (daily_reflection e dateStr data) w1 of
                  (Inl err, w2) \<Rightarrow> daily_failed w2
                | (Inr u, w2) \<Rightarrow>
                    (case user_merge e userId clear_cache w2 of
                       (Inl err, w3) \<Rightarrow> daily_failed w3
                     | (Inr u, w3) \<Rightarrow>
                         ((200, Analysis (doc_id e dateStr) userId
                                  (daily_reflection e dateStr data)), w3)))))"

definition analyze_daily :: "env \<Rightarrow> daily_body \<Rightarrow> world \<Rightarrow> response \<times> world" where
  "analyze_daily e b w =
     (case (d_userId b, d_textInput b) of
        (Some userId, Some textInput) \<Rightarrow>
          if userId = [] \<or> textInput = []
          then ((400, Failure ''userId and textInput are required''), w)
          else
            (case analyzeTextReflection e textInput (Some userId) w of
               (Inl err, w1) \<Rightarrow> ((500, Failure err), w1)
             | (Inr data, w1) \<Rightarrow>
                 persist_daily e b userId (or_default (d_date b) (today e)) data w1)
      | _ \<Rightarrow> ((400, Failure ''userId and textInput are required''), w))"

section \<open>Weekly analysis: \<open>analyzeWeeklyPatterns\<close>\<close>

definition summarise :: "string \<times> reflection \<Rightarrow> summary" where
  "summarise d =
     \<lparr>s_date = date (snd d), s_primaryEmotion = primaryEmotion (snd d),
      s_secondaryEmotion = secondaryEmotion (snd d), s_theme = theme (snd d),
      s_emotionalIntensity = emotionalIntensity (snd d)\<rparr>"

definition analyzeWeeklyPatterns ::
  "env \<Rightarrow> (string \<times> reflection) list \<Rightarrow> string option \<Rightarrow> world \<Rightarrow> (string + json) \<times> world" where
  "analyzeWeeklyPatterns e sample userId w =
     (if length sample < 3 then (Inl ''Not enough reflections for weekly analysis'', w)
      else
        (case callGemini e (WeeklyPrompt (map summarise sample)) userId
                ''weekly-analysis'' ''Weekly pattern analysis'' w of
           (Inr data, w1) \<Rightarrow> (Inr data, w1)
         | (Inl err, w1) \<Rightarrow>
             (Inl (message err),
              console_error (''WEEKLY ANALYSIS ERROR: '' @ message err) w1)))"

section \<open>Synthetic fallback\<close>

text \<open>
  The counts live in a plain object. Its own properties are kept in creation order. A
  value is a number, or a string that is not numeric: reading a name that the object
  inherits from \<open>Object.prototype\<close> gives a function, and adding 1 to a function
  gives a string.
\<close>

datatype count = Count nat | NotANumber

type_synonym counter = "(string \<times> count) list"

definition object_prototype_keys :: "string list" where
  "object_prototype_keys =
     [''constructor'', ''__defineGetter__'', ''__defineSetter__'', ''hasOwnProperty'',
      ''__lookupGetter__'', ''__lookupSetter__'', ''isPrototypeOf'',
      ''propertyIsEnumerable'', ''toString'', ''valueOf'', ''__proto__'',
      ''toLocaleString'']"

text \<open>
  \<open>counts[k] = (counts[k] || 0) + 1\<close>. Assigning to \<open>__proto__\<close> calls the inherited
  setter, which ignores a string, so that name never becomes an own property.
\<close>

definition count_key :: "counter \<Rightarrow> string \<Rightarrow> counter" where
  "count_key obj k =
     (case map_of obj k of
        Some (Count n) \<Rightarrow> AList.update k (Count (n + 1)) obj
      | Some NotANumber \<Rightarrow> AList.update k NotANumber obj
      | None \<Rightarrow>
          if k = ''__proto__'' then obj
          else if k \<in> set object_prototype_keys then AList.update k NotANumber obj
          else AList.update k (Count 1) obj)"

definition is_digit :: "char \<Rightarrow> bool" where
  "is_digit c = (CHR ''0'' \<le> c \<and> c \<le> CHR ''9'')"

definition digits_value :: "string \<Rightarrow> int" where
  "digits_value s = foldl (\<lambda>a c. 10 * a + (of_char c - 48)) 0 s"

text \<open>An array index: the canonical decimal form of an integer from 0 to 2^32 - 2.\<close>

definition is_array_index :: "string \<Rightarrow> bool" where
  "is_array_index s =
     (s \<noteq> [] \<and> list_all is_digit s \<and> (hd s \<noteq> CHR ''0'' \<or> s = ''0'')
      \<and> digits_value s \<le> 4294967294)"

text \<open>
  \<open>Object.entries\<close>: the array indices first, in ascending numeric order, then the
  other names in creation order.
\<close>

definition own_entries :: "counter \<Rightarrow> (string \<times> count) list" where
  "own_entries obj =
     sort_key (\<lambda>kv. digits_value (fst kv)) (filter (\<lambda>kv. is_array_index (fst kv)) obj)
     @ filter (\<lambda>kv. \<not> is_array_index (fst kv)) obj"

text \<open>
  The comparator \<open>(a, b) => b[1] - a[1]\<close>; a difference that is not a number counts
  as 0.
\<close>

fun by_count_desc :: "string \<times> count \<Rightarrow> string \<times> count \<Rightarrow> int" where
  "by_count_desc (ka, Count a) (kb, Count b) = int b - int a"
| "by_count_desc _ _ = 0"

text \<open>
  \<open>Array.prototype.sort\<close> is stable. It is modelled by insertion, each element going
  before the first one it does not have to follow. When the comparator is not
  consistent (which takes a value that is not a number) the language leaves the order
  to the implementation.
\<close>

fun js_insert :: "('a \<Rightarrow> 'a \<Rightarrow> int) \<Rightarrow> 'a \<Rightarrow> 'a list \<Rightarrow> 'a list" where
  "js_insert cmp x [] = [x]"
| "js_insert cmp x (y # ys) =
     (if cmp x y \<le> 0 then x # y # ys else y # js_insert cmp x ys)"

definition js_sort :: "('a \<Rightarrow> 'a \<Rightarrow> int) \<Rightarrow> 'a list \<Rightarrow> 'a list" where
  "js_sort cmp xs = foldr (js_insert cmp) xs []"

definition top_two :: "string list \<Rightarrow> string list" where
  "top_two names =
     map fst (take 2 (js_sort by_count_desc (own_entries (foldl count_key [] names))))"

text \<open>\<open>x || d\<close> on a field of a document, and \<open>reflections.map(r => r.f || d).filter(x => x)\<close>\<close>

definition or_value :: "json option \<Rightarrow> string \<Rightarrow> json" where
  "or_value x d = (case x of None \<Rightarrow> JStr d | Some v \<Rightarrow> if truthy v then v else JStr d)"

definition collect ::
  "(reflection \<Rightarrow> json option) \<Rightarrow> string \<Rightarrow> (string \<times> reflection) list \<Rightarrow> json list" where
  "collect f d sample = filter truthy (map (\<lambda>r. or_value (f (snd r)) d) sample)"

text \<open>
  The keys that the values become when the loop uses them as property names. The first
  value that has no key ends the loop, and the generator, with a TypeError.
\<close>

definition property_keys :: "json list \<Rightarrow> string list option" where
  "property_keys vs = those (map to_string vs)"

text \<open>The \<open>data\<close> of the synthetic result.\<close>

definition fallback_data :: "nat \<Rightarrow> string list \<Rightarrow> string list \<Rightarrow> json" where
  "fallback_data n sortedEmotions sortedThemes =
     JObj
       [(''dominantEmotions'',
           JArr (map JStr (if sortedEmotions \<noteq> [] then sortedEmotions else [''neutral'']))),
        (''dominantThemes'',
           JArr (map JStr (if sortedThemes \<noteq> [] then sortedThemes else [''self'']))),
        (''emotionalPattern'',
           JStr ''Your reflections show a consistent pattern of self-awareness.''),
        (''weeklyInsight'',
           JStr (''This week you've reflected '' @ show_nat n
                 @ '' times, exploring themes of ''
                 @ (if join '' and '' sortedThemes \<noteq> [] then join '' and '' sortedThemes
                    else ''personal growth'') @ ''.'')),
        (''reflectiveQuestion'',
           JStr ''What would you like to explore more deeply in your next reflection?'')]"

text \<open>
  The body of the \<open>catch\<close> branch: both lists of values, the emotions counted, the
  themes counted, the two sorted lists, the result.
\<close>

definition synthetic_fallback :: "(string \<times> reflection) list \<Rightarrow> exn + json" where
  "synthetic_fallback sample =
     (case property_keys (collect primaryEmotion ''neutral'' sample) of
        None \<Rightarrow> Inl cannot_convert
      | Some emotions \<Rightarrow>
          (case property_keys (collect theme ''self'' sample) of
             None \<Rightarrow> Inl cannot_convert
           | Some themes \<Rightarrow>
               Inr (fallback_data (length sample) (top_two emotions) (top_two themes))))"

section \<open>\<open>POST /analyze-weekly\<close>\<close>

definition CACHE_DURATION :: int where
  "CACHE_DURATION = 24 * 60 * 60 * 1000"

definition GEMINI_TIMEOUT :: nat where
  "GEMINI_TIMEOUT = 15000"

text \<open>The cache entry that the request may answer from: present and younger than a day.\<close>

definition fresh_cache :: "env \<Rightarrow> user_doc option \<Rightarrow> cache_entry option" where
  "fresh_cache e userData =
     (case userData of
        None \<Rightarrow> None
      | Some d \<Rightarrow>
          (case weeklyAnalysisCache d of
             None \<Rightarrow> None
           | Some c \<Rightarrow> if now_ms e - timestamp c < CACHE_DURATION then Some c else None))"

text \<open>
  The race of the analysis against the timer. \<open>analyzeWeeklyPatterns\<close> catches every
  failure of the client and resolves with it, so the promise it returns is never
  rejected: the \<open>catch\<close> branch, which builds the synthetic result, runs only when the
  timer wins. The timer is taken to win when the analysis has not settled before
  \<open>GEMINI_TIMEOUT\<close> milliseconds have passed. The analysis that loses is not
  cancelled; what it did to the store stays. The outcome is the \<open>analysis\<close> object of
  the route, or the exception that the \<open>catch\<close> branch itself throws.
\<close>

definition race_analysis ::
  "env \<Rightarrow> (string \<times> reflection) list \<Rightarrow> string \<Rightarrow> world \<Rightarrow> (exn + (string + json)) \<times> world" where
  "race_analysis e sample userId w =
     (case analyzeWeeklyPatterns e sample (Some userId) w of
        (res, w1) \<Rightarrow>
          if analysis_latency e (gemini_calls w) < GEMINI_TIMEOUT then (Inr res, w1)
          else (case synthetic_fallback sample of
                  Inl err \<Rightarrow> (Inl err, w1)
                | Inr data \<Rightarrow> (Inr (Inr data), w1)))"

definition write_cache :: "env \<Rightarrow> nat \<Rightarrow> json \<Rightarrow> user_doc \<Rightarrow> user_doc" where
  "write_cache e n data d =
     d\<lparr>weeklyAnalysisCache :=
          Some \<lparr>timestamp = now_ms e, reflectionCount = n, analysis = data\<rparr>\<rparr>"

text \<open>
  The aggregate step: the race, then the cache write and the answer. An exception
  thrown on the way is caught by the route's outer handler.
\<close>

definition aggregate ::
  "env \<Rightarrow> string \<Rightarrow> (string \<times> reflection) list \<Rightarrow> world \<Rightarrow> response \<times> world" where
  "aggregate e userId sample w =
     (case race_analysis e sample userId w of
        (Inl thrown, w1) \<Rightarrow>
          ((500, Failure ''Weekly analysis failed''),
           console_error ''WEEKLY ANALYSIS ROUTE ERROR:'' w1)
      | (Inr (Inl err), w1) \<Rightarrow> ((500, Failure err), w1)
      | (Inr (Inr data), w1) \<Rightarrow>
          (case user_merge e userId (write_cache e (length sample) data) w1 of
             (Inl err, w2) \<Rightarrow>
               ((500, Failure ''Weekly analysis failed''),
                console_error ''WEEKLY ANALYSIS ROUTE ERROR:'' w2)
           | (Inr u, w2) \<Rightarrow> ((200, WeeklyResult (length sample) data None), w2)))"

text \<open>What the request does when it has no fresh cache entry to answer from.\<close>

definition recompute :: "env \<Rightarrow> string \<Rightarrow> world \<Rightarrow> response \<times> world" where
  "recompute e userId w =
     (case reflections_query e userId 7 w of
        (Inl err, w1) \<Rightarrow>
          ((500, Failure ''Weekly analysis failed''),
           console_error ''WEEKLY ANALYSIS ROUTE ERROR:'' w1)
      | (Inr sample, w1) \<Rightarrow>
          if sample = []
          then ((200, NotEnough (Some ''Not enough reflections'') None), w1)
          else if length sample < 3
          then ((200, NotEnough None (Some (length sample))), w1)
          else aggregate e userId sample w1)"

definition analyze_weekly :: "env \<Rightarrow> string option \<Rightarrow> world \<Rightarrow> response \<times> world" where
  "analyze_weekly e uid w =
     (case uid of
        None \<Rightarrow> ((400, Failure ''User ID is required''), w)
      | Some userId \<Rightarrow>
          if userId = [] then ((400, Failure ''User ID is required''), w)
          else
            (case user_get e userId w of
               (Inl err, w1) \<Rightarrow>
                 ((500, Failure ''Weekly analysis failed''),
                  console_error ''WEEKLY ANALYSIS ROUTE ERROR:'' w1)
             | (Inr userData, w1) \<Rightarrow>
                 (case fresh_cache e userData of
                    Some c \<Rightarrow> ((200, WeeklyResult (reflectionCount c) (analysis c) None), w1)
                  | None \<Rightarrow> recompute e userId w1)))"

text \<open>
  The same route in \<open>routes/analysis_cached.js\<close>: no timer and no synthetic result, no
  user given to the client, and a \<open>cached\<close> flag in both answers.
\<close>

definition aggregate_cached ::
  "env \<Rightarrow> string \<Rightarrow> (string \<times> reflection) list \<Rightarrow> world \<Rightarrow> response \<times> world" where
  "aggregate_cached e userId sample w =
     (case analyzeWeeklyPatterns e sample None w of
        (Inl err, w1) \<Rightarrow> ((500, Failure err), w1)
      | (Inr data, w1) \<Rightarrow>
          (case user_merge e userId (write_cache e (length sample) data) w1 of
             (Inl err, w2) \<Rightarrow>
               ((500, Failure ''Weekly analysis failed''),
                console_error ''WEEKLY ANALYSIS ROUTE ERROR:'' w2)
           | (Inr u, w2) \<Rightarrow> ((200, WeeklyResult (length sample) data (Some False)), w2)))"

definition recompute_cached :: "env \<Rightarrow> string \<Rightarrow> world \<Rightarrow> response \<times> world" where
  "recompute_cached e userId w =
     (case reflections_query e userId 7 w of
        (Inl err, w1) \<Rightarrow>
          ((500, Failure ''Weekly analysis failed''),
           console_error ''WEEKLY ANALYSIS ROUTE ERROR:'' w1)
      | (Inr sample, w1) \<Rightarrow>
          if sample = []
          then ((200, NotEnough (Some ''Not enough reflections'') None), w1)
          else if length sample < 3
          then ((200, NotEnough None (Some (length sample))), w1)
          else aggregate_cached e userId sample w1)"

definition analyze_weekly_cached :: "env \<Rightarrow> string option \<Rightarrow> world \<Rightarrow> response \<times> world" where
  "analyze_weekly_cached e uid w =
     (case uid of
        None \<Rightarrow> ((400, Failure ''User ID is required''), w)
      | Some userId \<Rightarrow>
          if userId = [] then ((400, Failure ''User ID is required''), w)
          else
            (case user_get e userId w of
               (Inl err, w1) \<Rightarrow>
                 ((500, Failure ''Weekly analysis failed''),
                  console_error ''WEEKLY ANALYSIS ROUTE ERROR:'' w1)
             | (Inr userData, w1) \<Rightarrow>
                 (case fresh_cache e userData of
                    Some c \<Rightarrow>
                      ((200, WeeklyResult (reflectionCount c) (analysis c) (Some True)), w1)
                  | None \<Rightarrow> recompute_cached e userId w1)))"

section \<open>The fallback as the specification describes it\<close>

text \<open>
  From the emotion and the theme of each reflection of a sample: the distinct names in
  the order in which they are first met, sorted by falling count with a stable sort, the
  first two kept; then the fixed shape of the result, with the size of the sample.
\<close>

definition first_seen :: "string list \<Rightarrow> string list" where
  "first_seen names = rev (remdups (rev names))"

definition spec_top_two :: "string list \<Rightarrow> string list" where
  "spec_top_two names =
     take 2 (sort_key (\<lambda>k. - int (count_list names k)) (first_seen names))"

definition spec_fallback :: "nat \<Rightarrow> string list \<Rightarrow> string list \<Rightarrow> json" where
  "spec_fallback n emotions themes =
     (let topEmotions = spec_top_two emotions;
          topThemes = spec_top_two themes
      in JObj
          [(''dominantEmotions'',
              JArr (map JStr (if topEmotions = [] then [''neutral''] else topEmotions))),
           (''dominantThemes'',
              JArr (map JStr (if topThemes = [] then [''self''] else topThemes))),
           (''emotionalPattern'',
              JStr ''Your reflections show a consistent pattern of self-awareness.''),
           (''weeklyInsight'',
              JStr (''This week you've reflected '' @ show_nat n
                    @ '' times, exploring themes of ''
                    @ (if topThemes = [] then ''personal growth''
                       else join '' and '' topThemes) @ ''.'')),
           (''reflectiveQuestion'',
              JStr ''What would you like to explore more deeply in your next reflection?'')])"

section \<open>Notions used in the proofs\<close>

text \<open>
  What is left of a text when a marker is cut out of it: the occurrences of the marker
  are found from the left, none overlapping the one before it, and everything else stays
  where it is. And a text without the white space at its two ends.
\<close>

inductive cut_out :: "string \<Rightarrow> string \<Rightarrow> string \<Rightarrow> bool" for pat :: string where
  cut_none: "\<not> sublist pat s \<Longrightarrow> cut_out pat s s"
| cut_next: "\<not> sublist pat (a @ butlast pat) \<Longrightarrow> cut_out pat s r
     \<Longrightarrow> cut_out pat (a @ pat @ s) (a @ r)"

definition trimmed :: "string \<Rightarrow> string \<Rightarrow> bool" where
  "trimmed s t \<longleftrightarrow>
     (\<exists>lead trail. s = lead @ t @ trail \<and> list_all js_whitespace lead
        \<and> list_all js_whitespace trail)
     \<and> (t \<noteq> [] \<longrightarrow> \<not> js_whitespace (hd t) \<and> \<not> js_whitespace (last t))"

text \<open>
  What a document written by \<open>analyze-daily\<close> looks like, and a document whose
  analysis fields and transcript hold what an analysis has under their names.
\<close>

definition daily_document :: "reflection \<Rightarrow> bool" where
  "daily_document r =
     (analysisStatus r = None \<and> inputType r = ''text'' \<and> primaryEmotion r \<noteq> None
      \<and> secondaryEmotion r \<noteq> None \<and> theme r \<noteq> None \<and> emotionalIntensity r \<noteq> None
      \<and> dailyInsight r \<noteq> None)"

definition analysis_of :: "json \<Rightarrow> reflection \<Rightarrow> bool" where
  "analysis_of data r \<longleftrightarrow>
     primaryEmotion r = js_prop data ''primaryEmotion''
     \<and> secondaryEmotion r = js_prop data ''secondaryEmotion''
     \<and> theme r = js_prop data ''theme''
     \<and> emotionalIntensity r = js_prop data ''emotionalIntensity''
     \<and> dailyInsight r = js_prop data ''dailyInsight''
     \<and> Some (transcript r) = js_prop data ''transcript''"

text \<open>
  A field that is absent or holds a string; a name that a plain object counts as any
  map would; the sort key of an entry whose count is a number; the entry of a name after
  the names of a list were counted.
\<close>

definition textual :: "json option \<Rightarrow> bool" where
  "textual x = (case x of None \<Rightarrow> True | Some (JStr s) \<Rightarrow> True | Some v \<Rightarrow> False)"

definition plain_name :: "string \<Rightarrow> bool" where
  "plain_name k = (\<not> is_array_index k \<and> k \<notin> set object_prototype_keys)"

definition rank :: "string \<times> count \<Rightarrow> int" where
  "rank kv = (case snd kv of Count n \<Rightarrow> - int n | NotANumber \<Rightarrow> 0)"

definition tally_of :: "string list \<Rightarrow> string \<Rightarrow> string \<times> count" where
  "tally_of names k = (k, Count (count_list names k))"

section \<open>Sample data\<close>

text \<open>
  The texts of the samples: an analysis as the service is asked to word it, and the
  same with \<open>null\<close> in every analysis field.
\<close>

definition analysis_text :: string where
  \<open>analysis_text = ''{"transcript":"had a hard day","dailyInsight":"A demanding day.",''
     @ ''"primaryEmotion":"sad","secondaryEmotion":"tired","emotionalIntensity":"medium",''
     @ ''"theme":"work"}''\<close>

definition sample_analysis :: json where
  "sample_analysis = JObj [(''transcript'', JStr ''had a hard day''),
     (''dailyInsight'', JStr ''A demanding day.''), (''primaryEmotion'', JStr ''sad''),
     (''secondaryEmotion'', JStr ''tired''), (''emotionalIntensity'', JStr ''medium''),
     (''theme'', JStr ''work'')]"

definition blank_text :: string where
  \<open>blank_text = ''{"transcript":"had a hard day","dailyInsight":null,''
     @ ''"primaryEmotion":null,"secondaryEmotion":null,"emotionalIntensity":null,''
     @ ''"theme":null}''\<close>

definition blank_analysis :: json where
  "blank_analysis = JObj [(''transcript'', JStr ''had a hard day''),
     (''dailyInsight'', JNull), (''primaryEmotion'', JNull), (''secondaryEmotion'', JNull),
     (''emotionalIntensity'', JNull), (''theme'', JNull)]"

definition sample_aggregate :: json where
  "sample_aggregate = JObj [(''dominantEmotions'', JArr [JStr ''sad'']),
     (''dominantThemes'', JArr [JStr ''work'']), (''emotionalPattern'', JStr ''steady''),
     (''weeklyInsight'', JStr ''A working week.''), (''reflectiveQuestion'', JStr ''What next?'')]"

text \<open>
  A runtime, as far as the sample texts go. It reads the three complete texts. For the
  truncated text \<open>{"a":1\<close>, where the input ends after a property value, it words
  the error as
  V8 does since its version 10.5, the version that also brought the message
  \<open>Unterminated string in JSON\<close> for which the client looks; every other text it
  reports as an unexpected token. Then a store that accepts every operation, an
  analysis service that is down, and an empty world.
\<close>

definition sample_parse :: "string \<Rightarrow> string + json" where
  \<open>sample_parse s =
     (if s = ''{"a":1}'' then Inr (JObj [(''a'', JNum 1)])
      else if s = analysis_text then Inr sample_analysis
      else if s = blank_text then Inr blank_analysis
      else if s = ''{"a":1''
      then Inl ''Expected ',' or '}' after property value in JSON at position 6''
      else Inl ''Unexpected token in JSON'')\<close>

definition env0 :: env where
  "env0 = \<lparr>JSON_parse = sample_parse, gemini_reply = (\<lambda>n. Rejects ''unavailable''),
     store_fault = (\<lambda>n. None), analysis_latency = (\<lambda>n. 0), now_ms = 1768735845000,
     today = ''2026-01-18'', time_hms = ''11:30:45''\<rparr>"

definition world0 :: world where
  "world0 = \<lparr>users = Map.empty, reflections = (\<lambda>u. []), store_ops = 0, gemini_calls = 0,
     trace = []\<rparr>"

text \<open>The fenced answer of the specification's example.\<close>

definition fenced_example :: string where
  \<open>fenced_example = ''```json'' @ [CHR 0x0A] @ ''{"a":1}'' @ [CHR 0x0A] @ ''```''\<close>

text \<open>
  Environments in which the service answers: with an analysis, with an analysis that
  holds nothing, and with plain prose.
\<close>

definition env1 :: env where
  "env1 = env0\<lparr>gemini_reply := \<lambda>n. Responds analysis_text\<rparr>"

definition blank_reply :: env where
  "blank_reply = env0\<lparr>gemini_reply := \<lambda>n. Responds blank_text\<rparr>"

definition malformed_reply :: env where
  "malformed_reply = env0\<lparr>gemini_reply := \<lambda>n. Responds ''not json''\<rparr>"

text \<open>Users, requests and reflections.\<close>

definition malformed_user :: user_doc where
  "malformed_user = empty_user\<lparr>apiLogs := LogsMalformed\<rparr>"

definition cached_user :: user_doc where
  "cached_user = empty_user\<lparr>weeklyAnalysisCache :=
     Some \<lparr>timestamp = 1768735845000 - 1000, reflectionCount = 3, analysis = sample_aggregate\<rparr>\<rparr>"

definition hard_day :: save_body where
  "hard_day = \<lparr>b_userId = Some ''u1'', b_userName = None, b_userEmail = None, b_date = None,
     b_transcript = Some ''had a hard day''\<rparr>"

definition daily_request :: daily_body where
  "daily_request = \<lparr>d_userId = Some ''u1'', d_userName = None, d_userEmail = None,
     d_date = None, d_textInput = Some ''had a hard day''\<rparr>"

definition pending_reflection :: reflection where
  "pending_reflection =
     \<lparr>date = ''2026-01-18'', transcript = JStr ''had a hard day'', createdAt = 1768735845000,
      inputType = ''voice'', analysisStatus = Some ''pending'', analysisError = None,
      primaryEmotion = None, secondaryEmotion = None, theme = None,
      emotionalIntensity = None, dailyInsight = None\<rparr>"

definition reflection_at :: "int \<Rightarrow> string \<Rightarrow> string \<Rightarrow> reflection" where
  "reflection_at t emotion topic =
     \<lparr>date = ''2026-01-18'', transcript = JStr ''a day'', createdAt = t,
      inputType = ''text'', analysisStatus = None, analysisError = None,
      primaryEmotion = Some (JStr emotion), secondaryEmotion = Some (JStr ''calm''),
      theme = Some (JStr topic), emotionalIntensity = Some (JStr ''low''),
      dailyInsight = Some (JStr ''An insight.'')\<rparr>"

text \<open>
  Samples: three reflections, two reflections, three whose emotions and themes all
  occur once, and three whose emotions include the names \<open>2\<close> and \<open>1\<close>.
\<close>

definition three_reflections :: "(string \<times> reflection) list" where
  "three_reflections =
     [(''a'', reflection_at 10 ''sad'' ''work''), (''b'', reflection_at 30 ''glad'' ''work''),
      (''c'', reflection_at 20 ''sad'' ''self'')]"

definition two_reflections :: "(string \<times> reflection) list" where
  "two_reflections =
     [(''a'', reflection_at 10 ''sad'' ''work''), (''b'', reflection_at 30 ''glad'' ''work'')]"

definition tie_sample :: "(string \<times> reflection) list" where
  "tie_sample =
     [(''a'', reflection_at 30 ''glad'' ''work''), (''b'', reflection_at 20 ''sad'' ''self''),
      (''c'', reflection_at 10 ''calm'' ''growth'')]"

definition index_sample :: "(string \<times> reflection) list" where
  "index_sample =
     [(''a'', reflection_at 30 ''2'' ''work''), (''b'', reflection_at 20 ''1'' ''work''),
      (''c'', (reflection_at 10 ''calm'' ''work'')\<lparr>primaryEmotion := None\<rparr>)]"

text \<open>
  The documents that \<open>analyze-daily\<close> writes for \<open>daily_request\<close> when the
  service answers with the blank analysis and with the sample analysis.
\<close>

definition blank_document :: reflection where
  "blank_document =
     \<lparr>date = ''2026-01-18'', transcript = JStr ''had a hard day'', createdAt = 1768735845000,
      inputType = ''text'', analysisStatus = None, analysisError = None,
      primaryEmotion = Some JNull, secondaryEmotion = Some JNull, theme = Some JNull,
      emotionalIntensity = Some JNull, dailyInsight = Some JNull\<rparr>"

definition hard_day_document :: reflection where
  "hard_day_document =
     \<lparr>date = ''2026-01-18'', transcript = JStr ''had a hard day'', createdAt = 1768735845000,
      inputType = ''text'', analysisStatus = None, analysisError = None,
      primaryEmotion = Some (JStr ''sad''), secondaryEmotion = Some (JStr ''tired''),
      theme = Some (JStr ''work''), emotionalIntensity = Some (JStr ''medium''),
      dailyInsight = Some (JStr ''A demanding day.'')\<rparr>"

text \<open>
  A reflection with any value for its emotion and its theme, and samples of three: one
  whose first emotion is an object with a \<open>toString\<close> property, one whose emotions
  are all \<open>__proto__\<close>, one with the emotion \<open>constructor\<close> twice, one whose
  themes are empty arrays, and one whose first emotion is the empty string. Then the
  synthetic result for \<open>three_reflections\<close>.
\<close>

definition reflection_of :: "int \<Rightarrow> json \<Rightarrow> json \<Rightarrow> reflection" where
  "reflection_of t emotion topic =
     \<lparr>date = ''2026-01-18'', transcript = JStr ''a day'', createdAt = t,
      inputType = ''text'', analysisStatus = None, analysisError = None,
      primaryEmotion = Some emotion, secondaryEmotion = Some (JStr ''calm''),
      theme = Some topic, emotionalIntensity = Some (JStr ''low''),
      dailyInsight = Some (JStr ''An insight.'')\<rparr>"

definition object_sample :: "(string \<times> reflection) list" where
  "object_sample =
     [(''a'', reflection_of 30 (JObj [(''toString'', JStr ''x'')]) (JStr ''work'')),
      (''b'', reflection_of 20 (JStr ''sad'') (JStr ''work'')),
      (''c'', reflection_of 10 (JStr ''sad'') (JStr ''work''))]"

definition proto_sample :: "(string \<times> reflection) list" where
  "proto_sample =
     [(''a'', reflection_of 30 (JStr ''__proto__'') (JStr ''work'')),
      (''b'', reflection_of 20 (JStr ''__proto__'') (JStr ''work'')),
      (''c'', reflection_of 10 (JStr ''__proto__'') (JStr ''work''))]"

definition inherited_sample :: "(string \<times> reflection) list" where
  "inherited_sample =
     [(''a'', reflection_of 30 (JStr ''sad'') (JStr ''work'')),
      (''b'', reflection_of 20 (JStr ''constructor'') (JStr ''work'')),
      (''c'', reflection_of 10 (JStr ''constructor'') (JStr ''work''))]"

definition empty_sample :: "(string \<times> reflection) list" where
  "empty_sample =
     [(''a'', reflection_of 30 (JStr ''sad'') (JArr [])),
      (''b'', reflection_of 20 (JStr ''sad'') (JArr [])),
      (''c'', reflection_of 10 (JStr ''sad'') (JArr []))]"

definition falsy_sample :: "(string \<times> reflection) list" where
  "falsy_sample =
     [(''a'', reflection_of 30 (JStr []) (JStr ''work'')),
      (''b'', reflection_of 20 (JStr ''sad'') (JStr ''work'')),
      (''c'', reflection_of 10 (JStr ''sad'') (JStr ''work''))]"

definition three_fallback :: json where
  "three_fallback =
     JObj [(''dominantEmotions'', JArr [JStr ''sad'', JStr ''glad'']),
       (''dominantThemes'', JArr [JStr ''work'', JStr ''self'']),
       (''emotionalPattern'',
          JStr ''Your reflections show a consistent pattern of self-awareness.''),
       (''weeklyInsight'',
          JStr ''This week you've reflected 3 times, exploring themes of work and self.''),
       (''reflectiveQuestion'',
          JStr ''What would you like to explore more deeply in your next reflection?'')]"

text \<open>
  Worlds: one user with a cache entry one second old, one user with three reflections,
  one user with the reflections of \<open>object_sample\<close>.
\<close>

definition cached_world :: world where
  "cached_world = world0\<lparr>users := [''u1'' \<mapsto> cached_user],
     reflections := (\<lambda>u. [])(''u1'' := [(''2026-01-18_11-30-45'', pending_reflection)])\<rparr>"

definition week_world :: world where
  "week_world = world0\<lparr>reflections := (\<lambda>u. [])(''u1'' := three_reflections)\<rparr>"

definition object_world :: world where
  "object_world = world0\<lparr>reflections := (\<lambda>u. [])(''u1'' := object_sample)\<rparr>"

section \<open>Text extraction\<close>

lemma str_includes_sublist: "str_includes s p \<longleftrightarrow> sublist p s"
  by (induction s) (auto simp: sublist_Cons_right)

lemma prefix3: "prefix [b, b, b] s \<longleftrightarrow> (\<exists>t. s = b # b # b # t)"
  by (auto simp: prefix_def)

lemma remove_all_run: "remove_all [b, b, b] (b # b # b # t) = remove_all [b, b, b] t"
  by simp

lemma remove_all_keep:
  "\<not> prefix [b, b, b] (c # cs) \<Longrightarrow> remove_all [b, b, b] (c # cs) = c # remove_all [b, b, b] cs"
  by (simp del: Cons_prefix_Cons)

lemma remove_all_head:
  assumes "remove_all [b, b, b] s = b # r"
  shows "\<exists>t. s = b # t"
proof (cases s)
  case Nil
  with assms show ?thesis by simp
next
  case (Cons c cs)
  show ?thesis
  proof (cases "prefix [b, b, b] (c # cs)")
    case True
    then obtain t where "c # cs = b # b # b # t" unfolding prefix3 by blast
    then show ?thesis using Cons by simp
  next
    case False
    from assms have "remove_all [b, b, b] (c # cs) = b # r" unfolding Cons .
    then have "c # remove_all [b, b, b] cs = b # r" unfolding remove_all_keep[OF False] .
    then show ?thesis using Cons by auto
  qed
qed

lemma remove_all_head2:
  assumes "remove_all [b, b, b] s = b # b # r"
  shows "\<exists>t. s = b # b # t"
proof (cases s)
  case Nil
  with assms show ?thesis by simp
next
  case (Cons c cs)
  show ?thesis
  proof (cases "prefix [b, b, b] (c # cs)")
    case True
    then obtain t where "c # cs = b # b # b # t" unfolding prefix3 by blast
    then show ?thesis using Cons by simp
  next
    case False
    from assms have "remove_all [b, b, b] (c # cs) = b # b # r" unfolding Cons .
    then have "c # remove_all [b, b, b] cs = b # b # r" unfolding remove_all_keep[OF False] .
    then have "c = b" and "remove_all [b, b, b] cs = b # r" by auto
    with remove_all_head[of b cs r] show ?thesis using Cons by auto
  qed
qed

lemma remove_all_no_run: "\<not> str_includes (remove_all [b, b, b] s) [b, b, b]"
proof (induction s rule: length_induct)
  case (1 s)
  show ?case
  proof (cases s)
    case Nil
    then show ?thesis by simp
  next
    case (Cons c cs)
    show ?thesis
    proof (cases "prefix [b, b, b] (c # cs)")
      case True
      then obtain t where "c # cs = b # b # b # t" unfolding prefix3 by blast
      then have t: "s = b # b # b # t" using Cons by simp
      then have "length t < length s" by simp
      with 1 have "\<not> str_includes (remove_all [b, b, b] t) [b, b, b]" by blast
      then show ?thesis unfolding t remove_all_run .
    next
      case False
      have "\<not> prefix [b, b, b] (c # remove_all [b, b, b] cs)"
      proof
        assume "prefix [b, b, b] (c # remove_all [b, b, b] cs)"
        then obtain r where "c # remove_all [b, b, b] cs = b # b # b # r"
          unfolding prefix3 by blast
        then have "c = b" and "remove_all [b, b, b] cs = b # b # r" by auto
        with remove_all_head2[of b cs r] have "\<exists>t. c # cs = b # b # b # t" by auto
        then have "prefix [b, b, b] (c # cs)" unfolding prefix3 .
        with False show False by blast
      qed
      moreover have "\<not> str_includes (remove_all [b, b, b] cs) [b, b, b]"
        using 1 Cons by simp
      ultimately have "\<not> str_includes (c # remove_all [b, b, b] cs) [b, b, b]"
        unfolding str_includes.simps by blast
      then show ?thesis unfolding Cons remove_all_keep[OF False] .
    qed
  qed
qed

lemma trim_decomp: "\<exists>a b. s = a @ trim s @ b"
proof -
  let ?d = "dropWhile js_whitespace s"
  have "rev (dropWhile js_whitespace (rev ?d)) @ rev (takeWhile js_whitespace (rev ?d))
        = rev (takeWhile js_whitespace (rev ?d) @ dropWhile js_whitespace (rev ?d))"
    by (simp only: rev_append)
  also have "\<dots> = rev (rev ?d)" by (simp only: takeWhile_dropWhile_id)
  finally have 2: "trim s @ rev (takeWhile js_whitespace (rev ?d)) = ?d"
    by (simp add: trim_def)
  have "s = takeWhile js_whitespace s @ ?d" by simp
  with 2 have "s = takeWhile js_whitespace s @ trim s @ rev (takeWhile js_whitespace (rev ?d))"
    by simp
  then show ?thesis by blast
qed

lemma sublist_trim: "sublist (trim s) s"
  using trim_decomp[of s] by (auto simp: sublist_def)

lemma no_fence_left:
  "\<not> str_includes (strip_fences s) ''```''"
proof -
  let ?r = "remove_all ''```'' (remove_all ''```json'' s)"
  have "\<not> sublist ''```'' ?r"
    using remove_all_no_run[of "CHR 0x60"] by (simp add: str_includes_sublist)
  moreover have "sublist (trim ?r) ?r" by (rule sublist_trim)
  ultimately show ?thesis
    unfolding str_includes_sublist strip_fences_def using sublist_order.order_trans by blast
qed

lemma takeWhile_upto: "c \<notin> set pre \<Longrightarrow> takeWhile (\<lambda>x. x \<noteq> c) (pre @ c # rest) = pre"
  by (induction pre) auto

lemma index_of_first:
  "c \<notin> set pre \<Longrightarrow> index_of c (pre @ c # rest) = int (length pre)"
  by (simp add: index_of_def takeWhile_upto)

lemma last_index_of_last:
  "c \<notin> set post \<Longrightarrow> last_index_of c (pre @ c # post) = int (length pre)"
proof -
  assume a: "c \<notin> set post"
  then have "c \<notin> set (rev post)" by simp
  then have "takeWhile (\<lambda>x. x \<noteq> c) (rev post @ c # rev pre) = rev post"
    by (rule takeWhile_upto)
  then show ?thesis by (simp add: last_index_of_def)
qed

lemma index_of_nth: "index_of c s \<noteq> - 1 \<Longrightarrow> 
   \<exists>pre rest. s = pre @ c # rest \<and> c \<notin> set pre \<and> index_of c s = int (length pre)"
proof -
  assume "index_of c s \<noteq> - 1"
  then have "c \<in> set s" by (auto simp: index_of_def split: if_splits)
  then obtain pre rest where "s = pre @ c # rest" "c \<notin> set pre"
    by (meson split_list_first)
  then show ?thesis using index_of_first by blast
qed

lemma last_index_of_nth: "last_index_of c s \<noteq> - 1 \<Longrightarrow> 
   \<exists>pre post. s = pre @ c # post \<and> c \<notin> set post \<and> last_index_of c s = int (length pre)"
proof -
  assume "last_index_of c s \<noteq> - 1"
  then have "c \<in> set s" by (auto simp: last_index_of_def split: if_splits)
  then obtain pre post where "s = pre @ c # post" "c \<notin> set post"
    by (meson split_list_last)
  then show ?thesis using last_index_of_last by blast
qed

lemma substring_middle:
  "substring (pre @ mid @ post) (length pre) (length pre + length mid) = mid"
  by (simp add: substring_def Let_def min_def max_def)


lemma extract_slice:
  assumes s: "strip_fences (trim text) = pre @ CHR ''{'' # mid @ CHR ''}'' # post"
    and pre: "CHR ''{'' \<notin> set pre" and post: "CHR ''}'' \<notin> set post"
  shows "extract_json_text text = CHR ''{'' # mid @ [CHR ''}'']"
proof -
  let ?s = "strip_fences (trim text)"
  have f: "index_of CHR ''{'' ?s = int (length pre)"
    unfolding s using pre by (rule index_of_first)
  have "?s = (pre @ CHR ''{'' # mid) @ CHR ''}'' # post" using s by simp
  then have l: "last_index_of CHR ''}'' ?s = int (length (pre @ CHR ''{'' # mid))"
    using post last_index_of_last by metis
  have "?s = pre @ (CHR ''{'' # mid @ [CHR ''}'']) @ post" using s by simp
  then have "substring ?s (length pre) (length pre + length (CHR ''{'' # mid @ [CHR ''}'']))
             = CHR ''{'' # mid @ [CHR ''}'']"
    using substring_middle by metis
  then have sub: "substring ?s (length pre) (length pre + length mid + 2) = CHR ''{'' # mid @ [CHR ''}'']"
    by simp
  have "nat (int (length pre) + 1 + int (length mid) + 1) = length pre + length mid + 2"
    by simp
  with f l sub show ?thesis
    by (simp add: extract_json_text_def Let_def add.commute add.left_commute)
qed

lemma extract_whole:
  assumes "\<not> (\<exists>pre mid post. strip_fences (trim text) = pre @ CHR ''{'' # mid @ CHR ''}'' # post)"
  shows "extract_json_text text = strip_fences (trim text)"
proof (rule ccontr)
  let ?s = "strip_fences (trim text)"
  assume "extract_json_text text \<noteq> ?s"
  then have c: "index_of CHR ''{'' ?s \<noteq> - 1" "last_index_of CHR ''}'' ?s \<noteq> - 1"
      "last_index_of CHR ''}'' ?s > index_of CHR ''{'' ?s"
    by (auto simp: extract_json_text_def Let_def split: if_splits)
  from index_of_nth[OF c(1)] obtain pre rest where
    1: "?s = pre @ CHR ''{'' # rest" "index_of CHR ''{'' ?s = int (length pre)" by blast
  from last_index_of_nth[OF c(2)] obtain pre' post where
    2: "?s = pre' @ CHR ''}'' # post" "last_index_of CHR ''}'' ?s = int (length pre')" by blast
  from c(3) 1(2) 2(2) have lt: "length pre < length pre'" by simp
  from 1(1) 2(1) have eq: "pre @ CHR ''{'' # rest = pre' @ CHR ''}'' # post" by simp
  then have "take (length pre') (pre @ CHR ''{'' # rest) = pre'" by simp
  with lt have "pre' = pre @ take (length pre' - length pre) (CHR ''{'' # rest)" by simp
  moreover from lt obtain k where "length pre' - length pre = Suc k"
    by (metis Suc_diff_Suc)
  ultimately have "pre' = pre @ CHR ''{'' # take k rest" by simp
  with 2(1) have "?s = pre @ CHR ''{'' # take k rest @ CHR ''}'' # post" by simp
  with assms show False by blast
qed

lemma remove_all_none: "\<not> sublist pat s \<Longrightarrow> remove_all pat s = s"
proof (induction s)
  case Nil
  then show ?case by simp
next
  case (Cons c cs)
  then have "\<not> prefix pat (c # cs)" and "\<not> sublist pat cs"
    by (auto simp: sublist_Cons_right)
  with Cons.IH show ?case by (simp del: prefix_code)
qed

lemma prefix_butlast:
  assumes "prefix pat ((c # a) @ pat @ s)" 
  shows "prefix pat ((c # a) @ butlast pat)"
proof -
  have l: "length pat \<le> length ((c # a) @ butlast pat)" by simp
  have "prefix ((c # a) @ butlast pat) ((c # a) @ pat @ s)"
    by (metis append_butlast_last_id append_Nil2 butlast.simps(1) prefix_append prefixI same_prefix_prefix append.assoc)
  with assms l show ?thesis
    by (metis prefix_length_prefix)
qed

lemma remove_all_next:
  "pat \<noteq> [] \<Longrightarrow> \<not> sublist pat (a @ butlast pat)
   \<Longrightarrow> remove_all pat (a @ pat @ s) = a @ remove_all pat s"
proof (induction a)
  case Nil
  then obtain p ps where p: "pat = p # ps" by (cases pat) auto
  show ?case unfolding p by simp
next
  case (Cons c a)
  have n: "\<not> prefix pat ((c # a) @ pat @ s)"
  proof
    assume "prefix pat ((c # a) @ pat @ s)"
    then have "prefix pat ((c # a) @ butlast pat)" by (rule prefix_butlast)
    then have "sublist pat ((c # a) @ butlast pat)" by (rule prefix_imp_sublist)
    with Cons.prems show False by simp
  qed
  from Cons.prems have "\<not> sublist pat (a @ butlast pat)"
    by (auto simp: sublist_Cons_right)
  with Cons have ih: "remove_all pat (a @ pat @ s) = a @ remove_all pat s" by simp
  from n have "remove_all pat (c # (a @ pat @ s)) = c # remove_all pat (a @ pat @ s)"
    by (simp del: prefix_code)
  with ih show ?case by simp
qed

lemma cut_out_unique: "cut_out pat s r \<Longrightarrow> pat \<noteq> [] \<Longrightarrow> r = remove_all pat s"
proof (induction rule: cut_out.induct)
  case (cut_none s)
  then show ?case by (simp add: remove_all_none)
next
  case (cut_next a s r)
  then show ?case by (simp add: remove_all_next)
qed


lemma butlast_prefix_append: "prefix (a @ butlast pat) (a @ pat @ s)"
proof (cases "pat = []")
  case True
  then show ?thesis by simp
next
  case False
  then have "pat = butlast pat @ [last pat]" by simp
  then have "a @ pat @ s = (a @ butlast pat) @ (last pat # s)"
    by (metis append.assoc append_Cons append_Nil)
  then show ?thesis by (metis prefixI)
qed

lemma cut_out_Cons:
  assumes "cut_out pat cs r" and "\<not> prefix pat (c # cs)"
  shows "cut_out pat (c # cs) (c # r)"
  using assms
proof (cases rule: cut_out.cases)
  case cut_none
  with assms(2) have "\<not> sublist pat (c # cs)" by (simp add: sublist_Cons_right)
  then show ?thesis using cut_none by (simp add: cut_out.cut_none)
next
  case (cut_next a s r')
  have "\<not> prefix pat ((c # a) @ butlast pat)"
  proof
    assume "prefix pat ((c # a) @ butlast pat)"
    moreover have "prefix ((c # a) @ butlast pat) ((c # a) @ pat @ s)"
      by (rule butlast_prefix_append)
    ultimately have "prefix pat ((c # a) @ pat @ s)" by (rule prefix_order.order_trans)
    with assms(2) cut_next show False by simp
  qed
  with cut_next(3) have "\<not> sublist pat ((c # a) @ butlast pat)"
    by (simp add: sublist_Cons_right)
  from cut_out.cut_next[OF this cut_next(4)] show ?thesis using cut_next by simp
qed

lemma cut_out_remove_all: "pat \<noteq> [] \<Longrightarrow> cut_out pat s (remove_all pat s)"
proof (induction pat s rule: remove_all.induct)
  case (1 pat)
  then have "\<not> sublist pat []" by simp
  then show ?case by (simp add: cut_none)
next
  case (2 pat c cs)
  show ?case
  proof (cases "prefix pat (c # cs)")
    case True
    then obtain t where t: "c # cs = pat @ t" by (auto simp: prefix_def)
    then have d: "drop (length pat) (c # cs) = t" by simp
    with 2 True have ih: "cut_out pat t (remove_all pat t)" by simp
    have "length (butlast pat) < length pat" using 2(3) by simp
    then have "\<not> sublist pat ([] @ butlast pat)"
      by (metis append_Nil sublist_length_le not_le)
    from cut_next[OF this ih] have "cut_out pat (pat @ t) (remove_all pat t)" by simp
    moreover have "remove_all pat (c # cs) = remove_all pat t"
      using True 2(3) d by (simp del: prefix_code)
    ultimately show ?thesis using t by simp
  next
    case False
    with 2 have ih: "cut_out pat cs (remove_all pat cs)" by simp
    from cut_out_Cons[OF ih False] have "cut_out pat (c # cs) (c # remove_all pat cs)" .
    moreover have "remove_all pat (c # cs) = c # remove_all pat cs"
      using False by (simp del: prefix_code)
    ultimately show ?thesis by simp
  qed
qed

lemma cut_out_iff: "pat \<noteq> [] \<Longrightarrow> cut_out pat s r \<longleftrightarrow> r = remove_all pat s"
  using cut_out_unique cut_out_remove_all by blast

lemma dropWhile_lead:
  "list_all P lead \<Longrightarrow> t \<noteq> [] \<Longrightarrow> \<not> P (hd t) \<Longrightarrow> dropWhile P (lead @ t @ trail) = t @ trail"
  by (induction lead) (auto simp: dropWhile_append3 neq_Nil_conv)

lemma trimmed_unique:
  assumes "trimmed s t"
  shows "t = trim s"
proof -
  from assms obtain lead trail where s: "s = lead @ t @ trail"
    and l: "list_all js_whitespace lead" and r: "list_all js_whitespace trail"
    and e: "t \<noteq> [] \<longrightarrow> \<not> js_whitespace (hd t) \<and> \<not> js_whitespace (last t)"
    by (auto simp: trimmed_def)
  show ?thesis
  proof (cases "t = []")
    case True
    with s l r have "list_all js_whitespace s" by simp
    then have "dropWhile js_whitespace s = []"
      by (metis dropWhile_eq_Nil_conv list_all_iff)
    then have "trim s = []" unfolding trim_def by (simp only: rev.simps dropWhile.simps)
    with True show ?thesis by simp
  next
    case False
    with e have h: "\<not> js_whitespace (hd t)" and la: "\<not> js_whitespace (last t)" by simp_all
    have 1: "dropWhile js_whitespace s = t @ trail"
      unfolding s using l False h by (rule dropWhile_lead)
    have "rev (t @ trail) = rev trail @ rev t @ []" by simp
    moreover have "list_all js_whitespace (rev trail)" using r by (simp add: list_all_iff)
    moreover have "rev t \<noteq> []" using False by simp
    moreover have "\<not> js_whitespace (hd (rev t))" using la False by (simp add: hd_rev)
    ultimately have "dropWhile js_whitespace (rev (t @ trail)) = rev t @ []"
      using dropWhile_lead[of js_whitespace "rev trail" "rev t" "[]"] by simp
    with 1 show ?thesis by (simp add: trim_def)
  qed
qed

lemma trimmed_trim: "trimmed s (trim s)"
proof -
  let ?d = "dropWhile js_whitespace s"
  let ?tr = "rev (takeWhile js_whitespace (rev ?d))"
  have "rev (dropWhile js_whitespace (rev ?d)) @ ?tr
        = rev (takeWhile js_whitespace (rev ?d) @ dropWhile js_whitespace (rev ?d))"
    by (simp only: rev_append)
  also have "\<dots> = rev (rev ?d)" by (simp only: takeWhile_dropWhile_id)
  finally have 2: "trim s @ ?tr = ?d" by (simp add: trim_def)
  have "s = takeWhile js_whitespace s @ ?d" by simp
  with 2 have d: "s = takeWhile js_whitespace s @ trim s @ ?tr" by simp
  have l: "list_all js_whitespace (takeWhile js_whitespace s)"
    by (simp add: list_all_iff) (meson set_takeWhileD)
  have r: "list_all js_whitespace ?tr"
    by (simp add: list_all_iff) (meson set_takeWhileD)
  have e: "\<not> js_whitespace (hd (trim s)) \<and> \<not> js_whitespace (last (trim s))" if n: "trim s \<noteq> []"
  proof -
    from n have n1: "dropWhile js_whitespace (rev ?d) \<noteq> []" by (simp add: trim_def)
    then have a: "\<not> js_whitespace (hd (dropWhile js_whitespace (rev ?d)))"
      by (rule hd_dropWhile)
    have "last (trim s) = hd (dropWhile js_whitespace (rev ?d))"
      using n1 by (simp add: trim_def last_rev)
    with a have la: "\<not> js_whitespace (last (trim s))" by simp
    from n1 have d1: "?d \<noteq> []"
      by (metis dropWhile.simps(1) rev_is_Nil_conv)
    then have b: "\<not> js_whitespace (hd ?d)" by (rule hd_dropWhile)
    from 2 n have "hd ?d = hd (trim s)" by (metis hd_append2)
    with b have "\<not> js_whitespace (hd (trim s))" by simp
    with la show ?thesis by simp
  qed
  from d l r e show ?thesis unfolding trimmed_def by blast
qed

lemma trimmed_iff: "trimmed s t \<longleftrightarrow> t = trim s"
  using trimmed_unique trimmed_trim by blast

lemma strip_fences_iff:
  "(\<exists>r1 r2. cut_out ''```json'' s r1 \<and> cut_out ''```'' r1 r2 \<and> trimmed r2 t)
     \<longleftrightarrow> t = strip_fences s"
proof -
  have a: "''```json'' \<noteq> []" and b: "''```'' \<noteq> []" by simp_all
  show ?thesis
    unfolding cut_out_iff[OF a] cut_out_iff[OF b] trimmed_iff strip_fences_def by blast
qed

lemma strip_fences_plain: "\<not> sublist ''```'' s \<Longrightarrow> strip_fences s = trim s"
proof -
  assume n: "\<not> sublist ''```'' s"
  have "sublist ''```'' ''```json''" by (simp add: sublist_def) (metis append_Nil)
  with n have "\<not> sublist ''```json'' s" using sublist_order.order_trans by blast
  with n show ?thesis by (simp add: strip_fences_def remove_all_none)
qed

section \<open>The analysis client\<close>

lemma recorder_keeps_calls:
  "gemini_calls (incrementAPICount e u opn dets w) = gemini_calls w"
  by (simp add: incrementAPICount_def user_get_def user_merge_def store_step_def
      console_error_def Let_def split: option.splits logs_field.splits)

lemma recorder_keeps_reflections:
  "reflections (incrementAPICount e u opn dets w) = reflections w"
  by (simp add: incrementAPICount_def user_get_def user_merge_def store_step_def
      console_error_def Let_def split: option.splits logs_field.splits)

lemma recorder_trace:
  "u \<noteq> [] \<Longrightarrow> \<exists>rest. trace (incrementAPICount e u opn dets w) = trace w @ StoreRead u # rest"
  by (simp add: incrementAPICount_def user_get_def user_merge_def store_step_def
      console_error_def Let_def split: option.splits logs_field.splits)

lemma callGemini_result:
  "fst (callGemini e p uid opn dets w) =
     (case gemini_reply e (gemini_calls w) of
        Rejects m \<Rightarrow> Inl (ServiceError m)
      | Responds text \<Rightarrow>
          (case JSON_parse e (extract_json_text text) of
             Inr parsed \<Rightarrow> Inr parsed
           | Inl msg \<Rightarrow> if indicates_truncation msg then Inl IncompleteResponse
                        else Inl MalformedResponse))"
proof -
  have "gemini_calls (case uid of None \<Rightarrow> w
          | Some u \<Rightarrow> if u = [] then w else incrementAPICount e u opn dets w) = gemini_calls w"
    by (simp add: recorder_keeps_calls split: option.splits)
  then show ?thesis
    by (simp add: callGemini_def Let_def split: gemini_outcome.splits sum.splits)
qed

lemma callGemini_calls:
  "gemini_calls (snd (callGemini e p uid opn dets w)) = Suc (gemini_calls w)"
proof -
  have "gemini_calls (case uid of None \<Rightarrow> w
          | Some u \<Rightarrow> if u = [] then w else incrementAPICount e u opn dets w) = gemini_calls w"
    by (simp add: recorder_keeps_calls split: option.splits)
  then show ?thesis
    by (simp add: callGemini_def Let_def console_error_def split: gemini_outcome.splits sum.splits)
qed

lemma callGemini_trace:
  "\<exists>after. trace (snd (callGemini e p uid opn dets w)) =
     trace (case uid of None \<Rightarrow> w
          | Some u \<Rightarrow> if u = [] then w else incrementAPICount e u opn dets w) @ GeminiRequest p # after"
  by (simp add: callGemini_def Let_def console_error_def split: gemini_outcome.splits sum.splits)

lemma fenced_example_extract: \<open>extract_json_text fenced_example = ''{"a":1}''\<close>
  by (simp add: fenced_example_def extract_json_text_def strip_fences_def trim_def js_whitespace_def
      index_of_def last_index_of_def substring_def)

lemma truncated_extract: \<open>extract_json_text ''{"a":1'' = ''{"a":1''\<close>
  by (simp add: extract_json_text_def strip_fences_def trim_def js_whitespace_def
      index_of_def last_index_of_def substring_def)

lemma sample_parse_truncated:
  \<open>sample_parse ''{"a":1'' = Inl ''Expected ',' or '}' after property value in JSON at position 6''\<close>
  by (simp add: sample_parse_def analysis_text_def blank_text_def)

lemma sample_parse_prose: "sample_parse ''not json'' = Inl ''Unexpected token in JSON''"
  by (simp add: sample_parse_def analysis_text_def blank_text_def)

text \<open>
  Claim C5. The response is trimmed first. The stripped text is what is left when every
  \<open>```json\<close> is cut out of the trimmed response, then every \<open>```\<close> out of the
  rest, and the result is trimmed again: the markers go, every other character stays in
  its place, and no other text answers this description. A response that holds no
  marker is only trimmed, and no stripped text holds a marker. When the stripped text
  holds an opening brace with a closing brace after it, the parser gets exactly the
  part from the first opening brace to the last closing brace; when it holds no such
  pair, the parser gets the stripped text whole. The client returns what the parser
  makes of that text. The fenced example is cut down to \<open>{"a":1}\<close>, and the
  client returns the object with the one property \<open>a = 1\<close> that the parser reads
  from it.
\<close>

theorem C5_extraction:
  \<open>(trimmed text t0 \<longleftrightarrow> t0 = trim text)
   \<and> ((\<exists>r1 r2. cut_out ''```json'' (trim text) r1 \<and> cut_out ''```'' r1 r2 \<and> trimmed r2 t)
        \<longleftrightarrow> t = strip_fences (trim text))
   \<and> (\<not> sublist ''```'' text \<longrightarrow> strip_fences (trim text) = trim text)
   \<and> \<not> str_includes (strip_fences (trim text)) ''```''
   \<and> (strip_fences (trim text) = pre @ CHR ''{'' # mid @ CHR ''}'' # post
        \<longrightarrow> CHR ''{'' \<notin> set pre \<longrightarrow> CHR ''}'' \<notin> set post
        \<longrightarrow> extract_json_text text = CHR ''{'' # mid @ [CHR ''}''])
   \<and> ((\<nexists>a b c. strip_fences (trim text) = a @ CHR ''{'' # b @ CHR ''}'' # c)
        \<longrightarrow> extract_json_text text = strip_fences (trim text))
   \<and> (gemini_reply e (gemini_calls w) = Responds text
        \<longrightarrow> JSON_parse e (extract_json_text text) = Inr v
        \<longrightarrow> fst (callGemini e p uid opn dets w) = Inr v)
   \<and> extract_json_text fenced_example = ''{"a":1}''
   \<and> (gemini_reply e (gemini_calls w) = Responds fenced_example
        \<longrightarrow> JSON_parse e ''{"a":1}'' = Inr (JObj [(''a'', JNum 1)])
        \<longrightarrow> fst (callGemini e p uid opn dets w) = Inr (JObj [(''a'', JNum 1)]))\<close>
proof -
  have t: "trimmed text t0 \<longleftrightarrow> t0 = trim text" by (rule trimmed_iff)
  have s: "(\<exists>r1 r2. cut_out ''```json'' (trim text) r1 \<and> cut_out ''```'' r1 r2 \<and> trimmed r2 t)
        \<longleftrightarrow> t = strip_fences (trim text)" by (rule strip_fences_iff)
  have n: "\<not> sublist ''```'' text \<longrightarrow> strip_fences (trim text) = trim text"
  proof
    assume a: "\<not> sublist ''```'' text"
    have "sublist (trim text) text" by (rule sublist_trim)
    with a have "\<not> sublist ''```'' (trim text)" using sublist_order.order_trans by blast
    then have "strip_fences (trim text) = trim (trim text)" by (rule strip_fences_plain)
    moreover have "trimmed (trim text) (trim text)"
    proof -
      from trimmed_trim[of "text"]
      have "trim text \<noteq> [] \<longrightarrow> \<not> js_whitespace (hd (trim text)) \<and> \<not> js_whitespace (last (trim text))"
        by (simp add: trimmed_def)
      moreover have "trim text = [] @ trim text @ []" by simp
      moreover have "list_all js_whitespace []" by simp
      ultimately show ?thesis unfolding trimmed_def by blast
    qed
    then have "trim text = trim (trim text)" by (rule trimmed_unique)
    ultimately show "strip_fences (trim text) = trim text" by simp
  qed
  have 1: "\<not> str_includes (strip_fences (trim text)) ''```''" by (rule no_fence_left)
  have 2: "strip_fences (trim text) = pre @ CHR ''{'' # mid @ CHR ''}'' # post
        \<longrightarrow> CHR ''{'' \<notin> set pre \<longrightarrow> CHR ''}'' \<notin> set post
        \<longrightarrow> extract_json_text text = CHR ''{'' # mid @ [CHR ''}'']"
    using extract_slice by blast
  have 3: "(\<nexists>a b c. strip_fences (trim text) = a @ CHR ''{'' # b @ CHR ''}'' # c)
        \<longrightarrow> extract_json_text text = strip_fences (trim text)"
    using extract_whole by blast
  have 4: "gemini_reply e (gemini_calls w) = Responds text
        \<longrightarrow> JSON_parse e (extract_json_text text) = Inr v
        \<longrightarrow> fst (callGemini e p uid opn dets w) = Inr v"
    by (simp add: callGemini_result)
  have 5: \<open>gemini_reply e (gemini_calls w) = Responds fenced_example
        \<longrightarrow> JSON_parse e ''{"a":1}'' = Inr (JObj [(''a'', JNum 1)])
        \<longrightarrow> fst (callGemini e p uid opn dets w) = Inr (JObj [(''a'', JNum 1)])\<close>
    by (simp add: callGemini_result fenced_example_extract)
  show ?thesis
    using t s n 1 2 3 4 5 fenced_example_extract by (intro conjI)
qed

theorem C5_extraction_witness:
  \<open>strip_fences (trim fenced_example) = ''{"a":1}''
   \<and> cut_out ''```json'' fenced_example ([CHR 0x0A] @ ''{"a":1}'' @ [CHR 0x0A] @ ''```'')
   \<and> cut_out ''```'' ([CHR 0x0A] @ ''{"a":1}'' @ [CHR 0x0A] @ ''```'')
        ([CHR 0x0A] @ ''{"a":1}'' @ [CHR 0x0A])
   \<and> trimmed ([CHR 0x0A] @ ''{"a":1}'' @ [CHR 0x0A]) ''{"a":1}''
   \<and> extract_json_text fenced_example = ''{"a":1}''
   \<and> fst (callGemini (env0\<lparr>gemini_reply := \<lambda>n. Responds fenced_example\<rparr>)
            (TextPrompt ''hello'') None ''text-analysis'' [] world0)
       = Inr (JObj [(''a'', JNum 1)])
   \<and> strip_fences (trim ''no braces'') = ''no braces''
   \<and> extract_json_text ''no braces'' = ''no braces''\<close>
proof -
  let ?e = "env0\<lparr>gemini_reply := \<lambda>n. Responds fenced_example\<rparr>"
  define r1 where \<open>r1 = [CHR 0x0A] @ ''{"a":1}'' @ [CHR 0x0A] @ ''```''\<close>
  define r2 where \<open>r2 = [CHR 0x0A] @ ''{"a":1}'' @ [CHR 0x0A]\<close>
  have tf: "trim fenced_example = fenced_example"
    by (simp add: fenced_example_def trim_def js_whitespace_def)
  have "remove_all ''```json'' fenced_example = r1"
    by (simp add: fenced_example_def r1_def)
  with cut_out_remove_all[of "''```json''" fenced_example]
  have c1: "cut_out ''```json'' fenced_example r1" by simp
  have "remove_all ''```'' r1 = r2" by (simp add: r1_def r2_def)
  with cut_out_remove_all[of "''```''" r1]
  have c2: "cut_out ''```'' r1 r2" by simp
  have \<open>trim r2 = ''{"a":1}''\<close> by (simp add: r2_def trim_def js_whitespace_def)
  with trimmed_trim[of r2] have t3: \<open>trimmed r2 ''{"a":1}''\<close> by simp
  note ex = C5_extraction[of fenced_example _ \<open>''{"a":1}''\<close> "[]" \<open>''"a":1''\<close> "[]"
      ?e world0 "JObj [(''a'', JNum 1)]" "TextPrompt ''hello''" None "''text-analysis''" "[]"]
  from c1 c2 t3 have \<open>\<exists>r1 r2. cut_out ''```json'' (trim fenced_example) r1 \<and> cut_out ''```'' r1 r2
      \<and> trimmed r2 ''{"a":1}''\<close> unfolding tf by blast
  with ex[THEN conjunct2, THEN conjunct1]
  have s: \<open>strip_fences (trim fenced_example) = ''{"a":1}''\<close> by simp
  have g: "gemini_reply ?e (gemini_calls world0) = Responds fenced_example" by simp
  have j: \<open>JSON_parse ?e ''{"a":1}'' = Inr (JObj [(''a'', JNum 1)])\<close>
    by (simp add: env0_def sample_parse_def)
  note last = ex[THEN conjunct2, THEN conjunct2, THEN conjunct2, THEN conjunct2, THEN conjunct2,
      THEN conjunct2, THEN conjunct2]
  from last[THEN conjunct2, THEN mp, OF g, THEN mp, OF j]
  have r: "fst (callGemini ?e (TextPrompt ''hello'') None ''text-analysis'' [] world0)
       = Inr (JObj [(''a'', JNum 1)])" .
  from last[THEN conjunct1] have x: \<open>extract_json_text fenced_example = ''{"a":1}''\<close> .
  have nf: "\<not> sublist ''```'' ''no braces''"
    by (simp add: str_includes_sublist[symmetric])
  have tn: "trim ''no braces'' = ''no braces''" by (simp add: trim_def js_whitespace_def)
  note nb = C5_extraction[of "''no braces''"]
  from nb[THEN conjunct2, THEN conjunct2, THEN conjunct1, THEN mp, OF nf]
  have sn: "strip_fences (trim ''no braces'') = ''no braces''"
    unfolding tn .
  have n: "\<nexists>a b c. strip_fences (trim ''no braces'') = a @ CHR ''{'' # b @ CHR ''}'' # c"
  proof
    assume "\<exists>a b c. strip_fences (trim ''no braces'') = a @ CHR ''{'' # b @ CHR ''}'' # c"
    then obtain a b c where "strip_fences (trim ''no braces'') = a @ CHR ''{'' # b @ CHR ''}'' # c"
      by blast
    then have "CHR ''{'' \<in> set (strip_fences (trim ''no braces''))" by simp
    then show False unfolding sn by simp
  qed
  from nb[THEN conjunct2, THEN conjunct2, THEN conjunct2, THEN conjunct2, THEN conjunct2,
      THEN conjunct1, THEN mp, OF n]
  have xn: "extract_json_text ''no braces'' = ''no braces''" unfolding sn .
  from s c1 c2 t3 x r sn xn show ?thesis unfolding r1_def r2_def by (intro conjI)
qed

text \<open>
  Claim C6. When the parser rejects the extracted text, the client fails with
  \<open>IncompleteResponse\<close> if the parser's message contains \<open>Unterminated\<close> or
  \<open>Unexpected end\<close>, and with \<open>MalformedResponse\<close> for every other message. One call
  of the client sends exactly one request: nothing is retried. The truncated text
  \<open>{"a":1\<close> reaches the parser unchanged, and the wording of the parser's message
  decides what becomes of it. A parser that reports an unexpected end of input there,
  as V8 did before its version 10.5, gets \<open>IncompleteResponse\<close>. A parser that
  reports what it expected after the property value, as V8 does since, gets
  \<open>MalformedResponse\<close>: so it is on the sample runtime, where the client takes the
  specification's own example of a truncated response for a malformed one.
\<close>

theorem C6_parse_failure_classification:
  \<open>(gemini_reply e (gemini_calls w) = Responds text
       \<longrightarrow> JSON_parse e (extract_json_text text) = Inl msg
       \<longrightarrow> fst (callGemini e p uid opn dets w) =
            (if str_includes msg ''Unterminated'' \<or> str_includes msg ''Unexpected end''
             then Inl IncompleteResponse else Inl MalformedResponse))
   \<and> gemini_calls (snd (callGemini e p uid opn dets w)) = Suc (gemini_calls w)
   \<and> extract_json_text ''{"a":1'' = ''{"a":1''
   \<and> (gemini_reply e (gemini_calls w) = Responds ''{"a":1''
       \<longrightarrow> JSON_parse e ''{"a":1'' = Inl ''Unexpected end of JSON input''
       \<longrightarrow> fst (callGemini e p uid opn dets w) = Inl IncompleteResponse)
   \<and> (gemini_reply e (gemini_calls w) = Responds ''{"a":1''
       \<longrightarrow> JSON_parse e ''{"a":1''
             = Inl ''Expected ',' or '}' after property value in JSON at position 6''
       \<longrightarrow> fst (callGemini e p uid opn dets w) = Inl MalformedResponse)
   \<and> fst (callGemini (env0\<lparr>gemini_reply := \<lambda>n. Responds ''{"a":1''\<rparr>)
            (TextPrompt ''hello'') None ''text-analysis'' [] world0) = Inl MalformedResponse\<close>
proof -
  let ?m = "''Expected ',' or '}' after property value in JSON at position 6''"
  have 1: "gemini_reply e (gemini_calls w) = Responds text
       \<longrightarrow> JSON_parse e (extract_json_text text) = Inl msg
       \<longrightarrow> fst (callGemini e p uid opn dets w) =
            (if str_includes msg ''Unterminated'' \<or> str_includes msg ''Unexpected end''
             then Inl IncompleteResponse else Inl MalformedResponse)"
    by (simp add: callGemini_result indicates_truncation_def)
  have 2: "gemini_calls (snd (callGemini e p uid opn dets w)) = Suc (gemini_calls w)"
    by (rule callGemini_calls)
  have i: "indicates_truncation ''Unexpected end of JSON input''"
    by (simp add: indicates_truncation_def)
  have 3: \<open>gemini_reply e (gemini_calls w) = Responds ''{"a":1''
       \<longrightarrow> JSON_parse e ''{"a":1'' = Inl ''Unexpected end of JSON input''
       \<longrightarrow> fst (callGemini e p uid opn dets w) = Inl IncompleteResponse\<close>
    using i by (simp add: callGemini_result truncated_extract)
  have n: "\<not> indicates_truncation ?m"
    by (simp add: indicates_truncation_def)
  have 4: \<open>gemini_reply e (gemini_calls w) = Responds ''{"a":1''
       \<longrightarrow> JSON_parse e ''{"a":1'' = Inl ?m
       \<longrightarrow> fst (callGemini e p uid opn dets w) = Inl MalformedResponse\<close>
    using n by (simp add: callGemini_result truncated_extract)
  have \<open>JSON_parse (env0\<lparr>gemini_reply := \<lambda>n. Responds ''{"a":1''\<rparr>) ''{"a":1'' = Inl ?m\<close>
    by (simp add: env0_def sample_parse_truncated)
  then have 5: \<open>fst (callGemini (env0\<lparr>gemini_reply := \<lambda>n. Responds ''{"a":1''\<rparr>)
            (TextPrompt ''hello'') None ''text-analysis'' [] world0) = Inl MalformedResponse\<close>
    using n by (simp add: callGemini_result truncated_extract)
  show ?thesis using 1 2 truncated_extract 3 4 5 by (intro conjI)
qed

theorem C6_parse_failure_classification_witness:
  \<open>fst (callGemini (env0\<lparr>gemini_reply := \<lambda>n. Responds ''{"a":1''\<rparr>)
          (TextPrompt ''hello'') None ''text-analysis'' [] world0) = Inl MalformedResponse
   \<and> fst (callGemini (env0\<lparr>gemini_reply := \<lambda>n. Responds ''{"a":1'',
                          JSON_parse := \<lambda>s. Inl ''Unexpected end of JSON input''\<rparr>)
          (TextPrompt ''hello'') None ''text-analysis'' [] world0) = Inl IncompleteResponse
   \<and> fst (callGemini (env0\<lparr>gemini_reply := \<lambda>n. Responds ''not json''\<rparr>)
          (TextPrompt ''hello'') None ''text-analysis'' [] world0) = Inl MalformedResponse\<close>
proof -
  let ?m = "''Expected ',' or '}' after property value in JSON at position 6''"
  let ?e1 = \<open>env0\<lparr>gemini_reply := \<lambda>n. Responds ''{"a":1''\<rparr>\<close>
  let ?e2 = "env0\<lparr>gemini_reply := \<lambda>n. Responds ''not json''\<rparr>"
  let ?e3 = \<open>env0\<lparr>gemini_reply := \<lambda>n. Responds ''{"a":1'',
                   JSON_parse := \<lambda>s. Inl ''Unexpected end of JSON input''\<rparr>\<close>
  have a: \<open>gemini_reply ?e1 (gemini_calls world0) = Responds ''{"a":1''\<close> by simp
  have b: \<open>JSON_parse ?e1 ''{"a":1'' = Inl ?m\<close>
    by (simp add: env0_def sample_parse_truncated)
  have c: "gemini_reply ?e2 (gemini_calls world0) = Responds ''not json''" by simp
  have x: "extract_json_text ''not json'' = ''not json''"
    by (simp add: extract_json_text_def strip_fences_def trim_def js_whitespace_def
      index_of_def last_index_of_def)
  have d: "JSON_parse ?e2 (extract_json_text ''not json'') = Inl ''Unexpected token in JSON''"
    by (simp add: x env0_def sample_parse_prose)
  have f: \<open>gemini_reply ?e3 (gemini_calls world0) = Responds ''{"a":1''\<close> by simp
  have g: \<open>JSON_parse ?e3 ''{"a":1'' = Inl ''Unexpected end of JSON input''\<close> by simp
  note t1 = C6_parse_failure_classification[of ?e1 world0 _ _ "TextPrompt ''hello''" None
      "''text-analysis''" "[]"]
  note t2 = C6_parse_failure_classification[of ?e2 world0 "''not json''"
      "''Unexpected token in JSON''" "TextPrompt ''hello''" None "''text-analysis''" "[]"]
  note t3 = C6_parse_failure_classification[of ?e3 world0 _ _ "TextPrompt ''hello''" None
      "''text-analysis''" "[]"]
  from t1[THEN conjunct2, THEN conjunct2, THEN conjunct2, THEN conjunct2, THEN conjunct1,
      THEN mp, OF a, THEN mp, OF b]
  have r1: "fst (callGemini ?e1 (TextPrompt ''hello'') None ''text-analysis'' [] world0)
      = Inl MalformedResponse" .
  from t3[THEN conjunct2, THEN conjunct2, THEN conjunct2, THEN conjunct1,
      THEN mp, OF f, THEN mp, OF g]
  have r3: "fst (callGemini ?e3 (TextPrompt ''hello'') None ''text-analysis'' [] world0)
      = Inl IncompleteResponse" .
  from t2[THEN conjunct1, THEN mp, OF c, THEN mp, OF d]
  have r2: "fst (callGemini ?e2 (TextPrompt ''hello'') None ''text-analysis'' [] world0)
      = Inl MalformedResponse" by simp
  from r1 r3 r2 show ?thesis by (intro conjI)
qed

lemma recorder_read_rejected:
  "u \<noteq> [] \<Longrightarrow> store_fault e (store_ops w) = Some m \<Longrightarrow>
     incrementAPICount e u opn dets w =
       w\<lparr>store_ops := Suc (store_ops w),
         trace := trace w @ [StoreRead u, ConsoleError (''Failed to increment API count: '' @ m)]\<rparr>"
  by (simp add: incrementAPICount_def user_get_def store_step_def console_error_def)

lemma recorder_malformed:
  "u \<noteq> [] \<Longrightarrow> store_fault e (store_ops w) = None \<Longrightarrow> users w u = Some d \<Longrightarrow>
   apiLogs d = LogsMalformed \<Longrightarrow>
     incrementAPICount e u opn dets w =
       w\<lparr>store_ops := Suc (store_ops w),
         trace := trace w @ [StoreRead u,
           ConsoleError (''Failed to increment API count: '' @ ''currentLogs.slice is not a function'')]\<rparr>"
  by (simp add: incrementAPICount_def user_get_def store_step_def console_error_def)

lemma recorder_write_rejected:
  "u \<noteq> [] \<Longrightarrow> store_fault e (store_ops w) = None \<Longrightarrow>
   (\<forall>d. users w u = Some d \<longrightarrow> apiLogs d \<noteq> LogsMalformed) \<Longrightarrow>
   store_fault e (Suc (store_ops w)) = Some m \<Longrightarrow>
     incrementAPICount e u opn dets w =
       w\<lparr>store_ops := Suc (Suc (store_ops w)),
         trace := trace w @ [StoreRead u, StoreWrite u,
           ConsoleError (''Failed to increment API count: '' @ m)]\<rparr>"
  by (auto simp add: incrementAPICount_def user_get_def user_merge_def store_step_def
      console_error_def empty_user_def split: option.splits logs_field.splits)

text \<open>
  Claim C8. The recorder has no way to fail: a rejected read, a malformed log field
  and a rejected write each end in one line on the error console, with the user's
  document untouched. A client call that is given a user reads the user's document
  before it sends its request, it sends the request whatever the recorder met, and its
  result is the one the same call gives without a user.
\<close>

theorem C8_recorder_failures_absorbed:
  "u \<noteq> [] \<longrightarrow>
     (\<exists>before after. trace (snd (callGemini e p (Some u) opn dets w))
         = trace w @ StoreRead u # before @ GeminiRequest p # after)
     \<and> fst (callGemini e p (Some u) opn dets w) = fst (callGemini e p None opn dets w)
     \<and> gemini_calls (snd (callGemini e p (Some u) opn dets w)) = Suc (gemini_calls w)
     \<and> (store_fault e (store_ops w) = Some m \<longrightarrow>
          incrementAPICount e u opn dets w =
            w\<lparr>store_ops := Suc (store_ops w),
              trace := trace w @ [StoreRead u,
                ConsoleError (''Failed to increment API count: '' @ m)]\<rparr>)
     \<and> (store_fault e (store_ops w) = None \<longrightarrow> users w u = Some d
          \<longrightarrow> apiLogs d = LogsMalformed \<longrightarrow>
          incrementAPICount e u opn dets w =
            w\<lparr>store_ops := Suc (store_ops w),
              trace := trace w @ [StoreRead u,
                ConsoleError (''Failed to increment API count: ''
                  @ ''currentLogs.slice is not a function'')]\<rparr>)
     \<and> (store_fault e (store_ops w) = None
          \<longrightarrow> (\<forall>d. users w u = Some d \<longrightarrow> apiLogs d \<noteq> LogsMalformed)
          \<longrightarrow> store_fault e (Suc (store_ops w)) = Some m \<longrightarrow>
          incrementAPICount e u opn dets w =
            w\<lparr>store_ops := Suc (Suc (store_ops w)),
              trace := trace w @ [StoreRead u, StoreWrite u,
                ConsoleError (''Failed to increment API count: '' @ m)]\<rparr>)"
proof
  assume u: "u \<noteq> []"
  from recorder_trace[OF u, of e opn dets w] obtain before where
    b: "trace (incrementAPICount e u opn dets w) = trace w @ StoreRead u # before" by blast
  from callGemini_trace[of e p "Some u" opn dets w] u obtain after where
    "trace (snd (callGemini e p (Some u) opn dets w))
       = trace (incrementAPICount e u opn dets w) @ GeminiRequest p # after" by auto
  with b have "trace (snd (callGemini e p (Some u) opn dets w))
         = trace w @ StoreRead u # before @ GeminiRequest p # after" by simp
  then have 1: "\<exists>before after. trace (snd (callGemini e p (Some u) opn dets w))
         = trace w @ StoreRead u # before @ GeminiRequest p # after" by blast
  have 2: "fst (callGemini e p (Some u) opn dets w) = fst (callGemini e p None opn dets w)"
    by (simp only: callGemini_result)
  have 3: "gemini_calls (snd (callGemini e p (Some u) opn dets w)) = Suc (gemini_calls w)"
    by (rule callGemini_calls)
  have 4: "store_fault e (store_ops w) = Some m \<longrightarrow>
          incrementAPICount e u opn dets w =
            w\<lparr>store_ops := Suc (store_ops w),
              trace := trace w @ [StoreRead u,
                ConsoleError (''Failed to increment API count: '' @ m)]\<rparr>"
    using recorder_read_rejected[OF u] by blast
  have 5: "store_fault e (store_ops w) = None \<longrightarrow> users w u = Some d
          \<longrightarrow> apiLogs d = LogsMalformed \<longrightarrow>
          incrementAPICount e u opn dets w =
            w\<lparr>store_ops := Suc (store_ops w),
              trace := trace w @ [StoreRead u,
                ConsoleError (''Failed to increment API count: ''
                  @ ''currentLogs.slice is not a function'')]\<rparr>"
    using recorder_malformed[OF u] by blast
  have 6: "store_fault e (store_ops w) = None
          \<longrightarrow> (\<forall>d. users w u = Some d \<longrightarrow> apiLogs d \<noteq> LogsMalformed)
          \<longrightarrow> store_fault e (Suc (store_ops w)) = Some m \<longrightarrow>
          incrementAPICount e u opn dets w =
            w\<lparr>store_ops := Suc (Suc (store_ops w)),
              trace := trace w @ [StoreRead u, StoreWrite u,
                ConsoleError (''Failed to increment API count: '' @ m)]\<rparr>"
    using recorder_write_rejected[OF u] by blast
  show "(\<exists>before after. trace (snd (callGemini e p (Some u) opn dets w))
         = trace w @ StoreRead u # before @ GeminiRequest p # after)
     \<and> fst (callGemini e p (Some u) opn dets w) = fst (callGemini e p None opn dets w)
     \<and> gemini_calls (snd (callGemini e p (Some u) opn dets w)) = Suc (gemini_calls w)
     \<and> (store_fault e (store_ops w) = Some m \<longrightarrow>
          incrementAPICount e u opn dets w =
            w\<lparr>store_ops := Suc (store_ops w),
              trace := trace w @ [StoreRead u,
                ConsoleError (''Failed to increment API count: '' @ m)]\<rparr>)
     \<and> (store_fault e (store_ops w) = None \<longrightarrow> users w u = Some d
          \<longrightarrow> apiLogs d = LogsMalformed \<longrightarrow>
          incrementAPICount e u opn dets w =
            w\<lparr>store_ops := Suc (store_ops w),
              trace := trace w @ [StoreRead u,
                ConsoleError (''Failed to increment API count: ''
                  @ ''currentLogs.slice is not a function'')]\<rparr>)
     \<and> (store_fault e (store_ops w) = None
          \<longrightarrow> (\<forall>d. users w u = Some d \<longrightarrow> apiLogs d \<noteq> LogsMalformed)
          \<longrightarrow> store_fault e (Suc (store_ops w)) = Some m \<longrightarrow>
          incrementAPICount e u opn dets w =
            w\<lparr>store_ops := Suc (Suc (store_ops w)),
              trace := trace w @ [StoreRead u, StoreWrite u,
                ConsoleError (''Failed to increment API count: '' @ m)]\<rparr>)"
    using 1 2 3 4 5 6 by (intro conjI)
qed

theorem C8_recorder_failures_absorbed_witness:
  "fst (callGemini (env0\<lparr>gemini_reply := \<lambda>n. Responds fenced_example,
                         store_fault := \<lambda>n. Some ''unavailable''\<rparr>)
          (TextPrompt ''hello'') (Some ''u1'') ''text-analysis'' [] world0)
     = Inr (JObj [(''a'', JNum 1)])
   \<and> trace (incrementAPICount (env0\<lparr>store_fault := \<lambda>n. Some ''unavailable''\<rparr>)
              ''u1'' ''text-analysis'' [] world0)
     = [StoreRead ''u1'', ConsoleError ''Failed to increment API count: unavailable'']
   \<and> trace (incrementAPICount env0 ''u1'' ''text-analysis'' []
              (world0\<lparr>users := [''u1'' \<mapsto> malformed_user]\<rparr>))
     = [StoreRead ''u1'',
        ConsoleError ''Failed to increment API count: currentLogs.slice is not a function'']
   \<and> trace (incrementAPICount
              (env0\<lparr>store_fault := \<lambda>n. if n = 1 then Some ''unavailable'' else None\<rparr>)
              ''u1'' ''text-analysis'' [] world0)
     = [StoreRead ''u1'', StoreWrite ''u1'',
        ConsoleError ''Failed to increment API count: unavailable'']"
proof -
  let ?e1 = "env0\<lparr>gemini_reply := \<lambda>n. Responds fenced_example,
                         store_fault := \<lambda>n. Some ''unavailable''\<rparr>"
  let ?e2 = "env0\<lparr>store_fault := \<lambda>n. Some ''unavailable''\<rparr>"
  let ?e3 = "env0\<lparr>store_fault := \<lambda>n. if n = 1 then Some ''unavailable'' else None\<rparr>"
  let ?w = "world0\<lparr>users := [''u1'' \<mapsto> malformed_user]\<rparr>"
  have n: "''u1'' \<noteq> []" by simp
  have r: "fst (callGemini ?e1 (TextPrompt ''hello'') None ''text-analysis'' [] world0)
             = Inr (JObj [(''a'', JNum 1)])"
    by (simp add: callGemini_def fenced_example_extract env0_def sample_parse_def world0_def)
  have f2: "store_fault ?e2 (store_ops world0) = Some ''unavailable''" by simp
  have f3: "store_fault env0 (store_ops ?w) = None" by (simp add: env0_def)
  have u3: "users ?w ''u1'' = Some malformed_user" by simp
  have m3: "apiLogs malformed_user = LogsMalformed" by (simp add: malformed_user_def)
  have f4: "store_fault ?e3 (store_ops world0) = None" by (simp add: world0_def)
  have u4: "\<forall>d. users world0 ''u1'' = Some d \<longrightarrow> apiLogs d \<noteq> LogsMalformed"
    by (simp add: world0_def)
  have g4: "store_fault ?e3 (Suc (store_ops world0)) = Some ''unavailable''"
    by (simp add: world0_def)
  from C8_recorder_failures_absorbed[of "''u1''" ?e1 "TextPrompt ''hello''" "''text-analysis''" "[]"
         world0 "''unavailable''"] n r
  have a: "fst (callGemini ?e1 (TextPrompt ''hello'') (Some ''u1'') ''text-analysis'' [] world0)
     = Inr (JObj [(''a'', JNum 1)])" by simp
  from C8_recorder_failures_absorbed[of "''u1''" ?e2 "TextPrompt ''hello''" "''text-analysis''" "[]"
         world0 "''unavailable''"] n f2
  have b: "trace (incrementAPICount ?e2 ''u1'' ''text-analysis'' [] world0)
     = [StoreRead ''u1'', ConsoleError ''Failed to increment API count: unavailable'']"
    by (simp add: world0_def)
  from C8_recorder_failures_absorbed[of "''u1''" env0 "TextPrompt ''hello''" "''text-analysis''" "[]"
         ?w "''unavailable''" malformed_user] n f3 u3 m3
  have c: "trace (incrementAPICount env0 ''u1'' ''text-analysis'' [] ?w)
     = [StoreRead ''u1'',
        ConsoleError ''Failed to increment API count: currentLogs.slice is not a function'']"
    by (simp add: world0_def)
  from C8_recorder_failures_absorbed[of "''u1''" ?e3 "TextPrompt ''hello''" "''text-analysis''" "[]"
         world0 "''unavailable''"] n f4 u4 g4
  have d: "trace (incrementAPICount ?e3 ''u1'' ''text-analysis'' [] world0)
     = [StoreRead ''u1'', StoreWrite ''u1'',
        ConsoleError ''Failed to increment API count: unavailable'']"
    by (simp add: world0_def)
  from a b c d show ?thesis by (intro conjI)
qed

lemma map_of_update_same: "map_of (AList.update k v al) k = Some v"
  by (simp add: update_conv')

lemma save_transcript_rejects:
  "b_userId b = None \<or> b_userId b = Some [] \<or> b_transcript b = None \<or> b_transcript b = Some []
   \<Longrightarrow> save_transcript e b w = (((400, Failure ''userId and transcript are required''), None), w)"
  by (auto simp: save_transcript_def split: option.splits)

lemma save_transcript_accepts:
  assumes "b_userId b = Some u" "b_transcript b = Some t" "u \<noteq> []" "t \<noteq> []"
    and "store_fault e (store_ops w) = None" "store_fault e (Suc (store_ops w)) = None"
  shows "\<exists>docId r w'.
       save_transcript e b w = (((200, Reflection docId u r), Some (u, docId, trim t)), w')
     \<and> analysisStatus r = Some ''pending'' \<and> inputType r = ''voice''
     \<and> transcript r = JStr (trim t)
     \<and> gemini_calls w' = gemini_calls w
     \<and> map_of (reflections w' u) docId = Some r"
  using assms
  by (simp add: save_transcript_def Let_def user_merge_def reflection_set_def store_step_def
      map_of_update_same)

lemma reflection_by_id_found:
  "store_fault e (store_ops w) = None \<Longrightarrow> map_of (reflections w u) docId = Some r \<Longrightarrow>
   fst (reflection_by_id e u docId w) = (200, Found docId r)"
  by (simp add: reflection_by_id_def reflection_get_def store_step_def)

text \<open>
  Claim C7. A submit whose user id or transcript is missing or empty is answered with
  status 400 and leaves the world as it was. Every other submit, when the store takes
  its two writes, answers with a reflection whose status is \<open>pending\<close> and whose input
  type is \<open>voice\<close>; it sends no request to the analysis service before it answers, and
  a read of that reflection by its id, right after, finds it.
\<close>

theorem C7_submit:
  "((b_userId b = None \<or> b_userId b = Some [] \<or> b_transcript b = None \<or> b_transcript b = Some [])
      \<longrightarrow> save_transcript e b w
            = (((400, Failure ''userId and transcript are required''), None), w))
   \<and> (b_userId b = Some u \<longrightarrow> b_transcript b = Some t \<longrightarrow> u \<noteq> [] \<longrightarrow> t \<noteq> []
      \<longrightarrow> store_fault e (store_ops w) = None \<longrightarrow> store_fault e (Suc (store_ops w)) = None
      \<longrightarrow> (\<exists>docId r w'.
             save_transcript e b w = (((200, Reflection docId u r), Some (u, docId, trim t)), w')
           \<and> analysisStatus r = Some ''pending'' \<and> inputType r = ''voice''
           \<and> transcript r = JStr (trim t)
           \<and> gemini_calls w' = gemini_calls w
           \<and> (\<forall>e'. store_fault e' (store_ops w') = None
                 \<longrightarrow> fst (reflection_by_id e' u docId w') = (200, Found docId r))))"
proof (intro conjI impI)
  assume "b_userId b = None \<or> b_userId b = Some [] \<or> b_transcript b = None \<or> b_transcript b = Some []"
  then show "save_transcript e b w = (((400, Failure ''userId and transcript are required''), None), w)"
    by (rule save_transcript_rejects)
next
  assume a: "b_userId b = Some u" "b_transcript b = Some t" "u \<noteq> []" "t \<noteq> []"
    "store_fault e (store_ops w) = None" "store_fault e (Suc (store_ops w)) = None"
  from save_transcript_accepts[OF a] obtain docId r w' where
    s: "save_transcript e b w = (((200, Reflection docId u r), Some (u, docId, trim t)), w')"
       "analysisStatus r = Some ''pending''" "inputType r = ''voice''"
       "transcript r = JStr (trim t)" "gemini_calls w' = gemini_calls w"
       "map_of (reflections w' u) docId = Some r"
    by blast
  have "\<forall>e'. store_fault e' (store_ops w') = None
                 \<longrightarrow> fst (reflection_by_id e' u docId w') = (200, Found docId r)"
    using s(6) reflection_by_id_found by blast
  with s show "\<exists>docId r w'.
             save_transcript e b w = (((200, Reflection docId u r), Some (u, docId, trim t)), w')
           \<and> analysisStatus r = Some ''pending'' \<and> inputType r = ''voice''
           \<and> transcript r = JStr (trim t)
           \<and> gemini_calls w' = gemini_calls w
           \<and> (\<forall>e'. store_fault e' (store_ops w') = None
                 \<longrightarrow> fst (reflection_by_id e' u docId w') = (200, Found docId r))"
    by blast
qed

theorem C7_submit_witness:
  "b_userId hard_day = Some ''u1'' \<and> b_transcript hard_day = Some ''had a hard day''
   \<and> store_fault env0 (store_ops world0) = None \<and> store_fault env0 (Suc (store_ops world0)) = None
   \<and> (\<exists>docId r w'.
         save_transcript env0 hard_day world0
           = (((200, Reflection docId ''u1'' r), Some (''u1'', docId, ''had a hard day'')), w')
       \<and> analysisStatus r = Some ''pending'' \<and> inputType r = ''voice''
       \<and> transcript r = JStr ''had a hard day''
       \<and> gemini_calls w' = gemini_calls world0
       \<and> (\<forall>e'. store_fault e' (store_ops w') = None
             \<longrightarrow> fst (reflection_by_id e' ''u1'' docId w') = (200, Found docId r)))
   \<and> save_transcript env0 (hard_day\<lparr>b_transcript := Some []\<rparr>) world0
       = (((400, Failure ''userId and transcript are required''), None), world0)"
proof -
  have h: "b_userId hard_day = Some ''u1''" "b_transcript hard_day = Some ''had a hard day''"
    "store_fault env0 (store_ops world0) = None" "store_fault env0 (Suc (store_ops world0)) = None"
    by (simp_all add: hard_day_def env0_def)
  have t: "trim ''had a hard day'' = ''had a hard day''"
    by (simp add: trim_def js_whitespace_def)
  have n: "b_transcript (hard_day\<lparr>b_transcript := Some []\<rparr>) = Some []" by simp
  from C7_submit[of hard_day env0 world0 "''u1''" "''had a hard day''"] h t
    C7_submit[of "hard_day\<lparr>b_transcript := Some []\<rparr>" env0 world0] n
  show ?thesis by simp
qed

lemma callGemini_keeps_reflections:
  "reflections (snd (callGemini e p uid opn dets w)) = reflections w"
  by (simp add: callGemini_def Let_def console_error_def recorder_keeps_reflections
      split: gemini_outcome.splits sum.splits option.splits)

lemma reflection_update_ok:
  "reflection_update e u docId f w = (Inr x, w') \<Longrightarrow>
     \<exists>r. map_of (reflections w u) docId = Some r \<and> map_of (reflections w' u) docId = Some (f r)
        \<and> users w' = users w \<and> store_ops w' = Suc (store_ops w)"
  by (auto simp: reflection_update_def store_step_def map_of_update_same
      split: option.splits)

lemma background_success:
  assumes "analyzeTranscriptBackground e u docId t w = (Inr data, w')"
  shows "\<exists>r. map_of (reflections w' u) docId = Some r \<and> analysisStatus r = Some ''completed''
             \<and> primaryEmotion r = js_prop data ''primaryEmotion''"
proof -
  obtain res w1 where c: "callGemini e (VoicePrompt t) (Some u) ''voice-analysis''
      ''Voice transcript analysis'' w = (res, w1)" by (cases "callGemini e (VoicePrompt t) (Some u) ''voice-analysis''
      ''Voice transcript analysis'' w")
  let ?f = "\<lambda>r. r\<lparr>dailyInsight := js_prop data ''dailyInsight'',
                          primaryEmotion := js_prop data ''primaryEmotion'',
                          secondaryEmotion := js_prop data ''secondaryEmotion'',
                          emotionalIntensity := js_prop data ''emotionalIntensity'',
                          theme := js_prop data ''theme'',
                          analysisStatus := Some ''completed''\<rparr>"
  from assms c have "\<exists>x. reflection_update e u docId ?f w1 = (Inr x, w')"
    by (auto simp: analyzeTranscriptBackground_def Let_def split: sum.splits if_splits prod.splits)
  then obtain x where "reflection_update e u docId ?f w1 = (Inr x, w')" by blast
  from reflection_update_ok[OF this] show ?thesis by auto
qed

lemma user_merge_ok:
  "store_fault e (store_ops w) = None \<Longrightarrow>
   snd (user_merge e u f w) =
     w\<lparr>store_ops := Suc (store_ops w), trace := trace w @ [StoreWrite u],
       users := (users w)(u \<mapsto> f (case users w u of None \<Rightarrow> empty_user | Some d \<Rightarrow> d))\<rparr>"
  by (simp add: user_merge_def store_step_def)

lemma fresh_cache_cleared: "fresh_cache e (Some (clear_cache d)) = None"
  by (simp add: fresh_cache_def clear_cache_def)

lemma analyze_weekly_miss:
  assumes "u \<noteq> []" "store_fault e (store_ops w) = None" "fresh_cache e (users w u) = None"
  shows "analyze_weekly e (Some u) w
           = recompute e u (w\<lparr>store_ops := Suc (store_ops w), trace := trace w @ [StoreRead u]\<rparr>)"
  using assms
  by (simp add: analyze_weekly_def user_get_def store_step_def)

text \<open>
  Claim C2. When the background analysis of a reflection succeeds, and the store takes
  the write that follows, the reflection is \<open>completed\<close> and the user's document has no
  cache entry. Whatever the clock of the next weekly request, it has no fresh entry to
  answer from, and it goes on to read the reflections and compute. The world before may
  hold an entry of any age.
\<close>

theorem C2_completion_clears_cache:
  "fst (analyzeTranscriptBackground e u docId t w) = Inr data
   \<longrightarrow> store_fault e (store_ops (snd (analyzeTranscriptBackground e u docId t w))) = None
   \<longrightarrow> u \<noteq> []
   \<longrightarrow> (\<exists>r. map_of (reflections (background_task e (u, docId, t) w) u) docId = Some r
            \<and> analysisStatus r = Some ''completed'')
     \<and> (\<exists>d. users (background_task e (u, docId, t) w) u = Some d
            \<and> weeklyAnalysisCache d = None)
     \<and> (\<forall>e'. fresh_cache e' (users (background_task e (u, docId, t) w) u) = None)
     \<and> (\<forall>e'. store_fault e' (store_ops (background_task e (u, docId, t) w)) = None
           \<longrightarrow> analyze_weekly e' (Some u) (background_task e (u, docId, t) w)
               = recompute e' u
                   ((background_task e (u, docId, t) w)
                      \<lparr>store_ops := Suc (store_ops (background_task e (u, docId, t) w)),
                       trace := trace (background_task e (u, docId, t) w) @ [StoreRead u]\<rparr>))"
proof (intro impI)
  let ?w1 = "snd (analyzeTranscriptBackground e u docId t w)"
  let ?w' = "background_task e (u, docId, t) w"
  assume a: "fst (analyzeTranscriptBackground e u docId t w) = Inr data"
    and f: "store_fault e (store_ops ?w1) = None" and u: "u \<noteq> []"
  from a obtain w1 where eq: "analyzeTranscriptBackground e u docId t w = (Inr data, w1)"
    by (cases "analyzeTranscriptBackground e u docId t w") auto
  from f eq have f1: "store_fault e (store_ops w1) = None" by simp
  from background_success[OF eq] obtain r where
    r: "map_of (reflections w1 u) docId = Some r" "analysisStatus r = Some ''completed''"
    by blast
  have w': "?w' = w1\<lparr>store_ops := Suc (store_ops w1), trace := trace w1 @ [StoreWrite u],
       users := (users w1)(u \<mapsto> clear_cache (case users w1 u of None \<Rightarrow> empty_user | Some d \<Rightarrow> d))\<rparr>"
    using user_merge_ok[OF f1, of u clear_cache] by (simp add: background_task_def eq)
  have 1: "\<exists>r. map_of (reflections ?w' u) docId = Some r \<and> analysisStatus r = Some ''completed''"
    using r by (simp add: w')
  have 2: "\<exists>d. users ?w' u = Some d \<and> weeklyAnalysisCache d = None"
    by (simp add: w' clear_cache_def)
  have 3: "\<forall>e'. fresh_cache e' (users ?w' u) = None"
    by (simp add: w' fresh_cache_cleared)
  have 4: "\<forall>e'. store_fault e' (store_ops ?w') = None
           \<longrightarrow> analyze_weekly e' (Some u) ?w'
               = recompute e' u (?w'\<lparr>store_ops := Suc (store_ops ?w'),
                       trace := trace ?w' @ [StoreRead u]\<rparr>)"
    using analyze_weekly_miss[OF u] 3 by blast
  from 1 2 3 4 show "(\<exists>r. map_of (reflections ?w' u) docId = Some r
            \<and> analysisStatus r = Some ''completed'')
     \<and> (\<exists>d. users ?w' u = Some d \<and> weeklyAnalysisCache d = None)
     \<and> (\<forall>e'. fresh_cache e' (users ?w' u) = None)
     \<and> (\<forall>e'. store_fault e' (store_ops ?w') = None
           \<longrightarrow> analyze_weekly e' (Some u) ?w'
               = recompute e' u (?w'\<lparr>store_ops := Suc (store_ops ?w'),
                       trace := trace ?w' @ [StoreRead u]\<rparr>))"
    by (intro conjI)
qed

lemma sample_reply_extract: "extract_json_text analysis_text = analysis_text"
  by (simp add: analysis_text_def extract_json_text_def strip_fences_def trim_def
      js_whitespace_def index_of_def last_index_of_def substring_def)

lemma sample_reply_parse: "sample_parse analysis_text = Inr sample_analysis"
  by (simp add: sample_parse_def analysis_text_def)

lemma sample_background:
  "fst (analyzeTranscriptBackground env1 ''u1'' ''2026-01-18_11-30-45'' ''had a hard day''
          cached_world) = Inr sample_analysis"
  "store_ops (snd (analyzeTranscriptBackground env1 ''u1'' ''2026-01-18_11-30-45''
          ''had a hard day'' cached_world)) = 3"
  by (simp_all add: analyzeTranscriptBackground_def callGemini_def incrementAPICount_def
      user_get_def user_merge_def store_step_def reflection_update_def env1_def env0_def
      cached_world_def world0_def cached_user_def empty_user_def sample_reply_extract
      sample_reply_parse sample_analysis_def lacks_field_def Let_def)

theorem C2_completion_clears_cache_witness:
  "fresh_cache env1 (users cached_world ''u1'') \<noteq> None
   \<and> fst (analyzeTranscriptBackground env1 ''u1'' ''2026-01-18_11-30-45'' ''had a hard day''
          cached_world) = Inr sample_analysis
   \<and> fresh_cache env1 (users (background_task env1
        (''u1'', ''2026-01-18_11-30-45'', ''had a hard day'') cached_world) ''u1'') = None"
proof -
  have c: "fresh_cache env1 (users cached_world ''u1'') \<noteq> None"
    by (simp add: fresh_cache_def cached_world_def cached_user_def env1_def env0_def
        CACHE_DURATION_def)
  have f: "store_fault env1 (store_ops (snd (analyzeTranscriptBackground env1 ''u1''
      ''2026-01-18_11-30-45'' ''had a hard day'' cached_world))) = None"
    by (simp add: env1_def env0_def)
  have n: "''u1'' \<noteq> []" by simp
  from C2_completion_clears_cache[of env1 "''u1''" "''2026-01-18_11-30-45''" "''had a hard day''"
      cached_world sample_analysis] sample_background(1) f n c
  show ?thesis by blast
qed

lemma analyzeTextReflection_keeps_reflections:
  "reflections (snd (analyzeTextReflection e ti uid w)) = reflections w"
proof -
  obtain res w1 where c: "callGemini e (TextPrompt ti) uid ''text-analysis''
      ''Daily text reflection'' w = (res, w1)"
    by (cases "callGemini e (TextPrompt ti) uid ''text-analysis'' ''Daily text reflection'' w")
  with callGemini_keeps_reflections[of e "TextPrompt ti" uid "''text-analysis''"
      "''Daily text reflection''" w]
  have "reflections w1 = reflections w" by simp
  with c show ?thesis
    by (simp add: analyzeTextReflection_def console_error_def split: sum.splits)
qed

lemma user_merge_keeps_reflections:
  "reflections (snd (user_merge e u f w)) = reflections w"
  by (simp add: user_merge_def store_step_def split: option.splits)

lemma daily_reflection_document:
  "\<not> lacks_field data [''transcript'', ''primaryEmotion'', ''secondaryEmotion'',
                   ''theme'', ''emotionalIntensity'', ''dailyInsight'']
   \<Longrightarrow> daily_document (daily_reflection e dateStr data)
       \<and> analysis_of data (daily_reflection e dateStr data)
       \<and> date (daily_reflection e dateStr data) = dateStr
       \<and> createdAt (daily_reflection e dateStr data) = now_ms e"
  by (auto simp add: daily_document_def analysis_of_def daily_reflection_def lacks_field_def)

lemma persist_daily_writes:
  "reflections (snd (persist_daily e b u dateStr data w)) = reflections w
   \<or> (\<exists>r. reflections (snd (persist_daily e b u dateStr data w))
          = (reflections w)(u := AList.update (doc_id e dateStr) r (reflections w u))
        \<and> daily_document r \<and> analysis_of data r \<and> date r = dateStr \<and> createdAt r = now_ms e)"
  using daily_reflection_document[of data e dateStr]
  by (simp add: persist_daily_def daily_failed_def console_error_def user_merge_def
      reflection_set_def store_step_def split: option.splits; blast)

lemma text_analysis_reply:
  assumes "fst (analyzeTextReflection e ti uid w) = Inr data"
  shows "\<exists>text. gemini_reply e (gemini_calls w) = Responds text
           \<and> JSON_parse e (extract_json_text text) = Inr data"
proof -
  obtain res w1 where c: "callGemini e (TextPrompt ti) uid ''text-analysis''
      ''Daily text reflection'' w = (res, w1)"
    by (cases "callGemini e (TextPrompt ti) uid ''text-analysis'' ''Daily text reflection'' w")
  with assms have "res = Inr data"
    by (simp add: analyzeTextReflection_def split: sum.splits)
  with c have "fst (callGemini e (TextPrompt ti) uid ''text-analysis''
      ''Daily text reflection'' w) = Inr data" by simp
  then show ?thesis
    unfolding callGemini_result
    by (auto split: gemini_outcome.splits sum.splits if_splits)
qed

lemma analyze_daily_writes:
  "reflections (snd (analyze_daily e b w)) = reflections w
   \<or> (\<exists>u ti data r.
          d_userId b = Some u \<and> d_textInput b = Some ti
        \<and> fst (analyzeTextReflection e ti (Some u) w) = Inr data
        \<and> reflections (snd (analyze_daily e b w))
          = (reflections w)(u := AList.update (doc_id e (or_default (d_date b) (today e))) r
                                   (reflections w u))
        \<and> daily_document r \<and> analysis_of data r
        \<and> date r = or_default (d_date b) (today e) \<and> createdAt r = now_ms e)"
proof (cases "\<exists>u ti. d_userId b = Some u \<and> d_textInput b = Some ti \<and> u \<noteq> [] \<and> ti \<noteq> []")
  case False
  then have "snd (analyze_daily e b w) = w"
    by (simp add: analyze_daily_def split: option.splits)
  then show ?thesis by simp
next
  case True
  then obtain u ti where b: "d_userId b = Some u" "d_textInput b = Some ti" "u \<noteq> []" "ti \<noteq> []"
    by blast
  obtain res w1 where a: "analyzeTextReflection e ti (Some u) w = (res, w1)"
    by (cases "analyzeTextReflection e ti (Some u) w")
  with analyzeTextReflection_keeps_reflections[of e ti "Some u" w]
  have r1: "reflections w1 = reflections w" by simp
  show ?thesis
  proof (cases res)
    case (Inl err)
    with a b r1 show ?thesis by (simp add: analyze_daily_def)
  next
    case (Inr data)
    let ?ds = "or_default (d_date b) (today e)"
    from Inr a have f: "fst (analyzeTextReflection e ti (Some u) w) = Inr data" by simp
    from Inr a b have eq: "analyze_daily e b w = persist_daily e b u ?ds data w1"
      by (simp add: analyze_daily_def)
    from persist_daily_writes[of e b u ?ds data w1]
    show ?thesis
    proof
      assume "reflections (snd (persist_daily e b u ?ds data w1)) = reflections w1"
      with eq r1 show ?thesis by simp
    next
      assume "\<exists>r. reflections (snd (persist_daily e b u ?ds data w1))
          = (reflections w1)(u := AList.update (doc_id e ?ds) r (reflections w1 u))
        \<and> daily_document r \<and> analysis_of data r \<and> date r = ?ds \<and> createdAt r = now_ms e"
      then obtain r where "reflections (snd (persist_daily e b u ?ds data w1))
          = (reflections w1)(u := AList.update (doc_id e ?ds) r (reflections w1 u))"
        and p: "daily_document r" "analysis_of data r" "date r = ?ds" "createdAt r = now_ms e"
        by blast
      with eq r1 have "reflections (snd (analyze_daily e b w))
          = (reflections w)(u := AList.update (doc_id e ?ds) r (reflections w u))" by simp
      with b f p show ?thesis by blast
    qed
  qed
qed


lemma persist_daily_answer:
  "fst (persist_daily e b u dateStr data w) = (200, Analysis docId u' r)
   \<Longrightarrow> map_of (reflections (snd (persist_daily e b u dateStr data w)) u') docId = Some r"
  by (simp add: persist_daily_def daily_failed_def user_merge_def
        reflection_set_def store_step_def map_of_update_same
        split: option.splits if_splits)

lemma analyze_daily_answer:
  assumes "fst (analyze_daily e b w) = (200, Analysis docId u' r)"
  shows "map_of (reflections (snd (analyze_daily e b w)) u') docId = Some r"
proof (cases "\<exists>u ti. d_userId b = Some u \<and> d_textInput b = Some ti \<and> u \<noteq> [] \<and> ti \<noteq> []")
  case False
  then have "fst (analyze_daily e b w) = (400, Failure ''userId and textInput are required'')"
    by (simp add: analyze_daily_def split: option.splits)
  with assms show ?thesis by simp
next
  case True
  then obtain u ti where b: "d_userId b = Some u" "d_textInput b = Some ti" "u \<noteq> []" "ti \<noteq> []"
    by blast
  obtain res w1 where a: "analyzeTextReflection e ti (Some u) w = (res, w1)"
    by (cases "analyzeTextReflection e ti (Some u) w")
  show ?thesis
  proof (cases res)
    case (Inl err)
    with a b assms show ?thesis by (simp add: analyze_daily_def)
  next
    case (Inr data)
    with a b have "analyze_daily e b w = persist_daily e b u (or_default (d_date b) (today e)) data w1"
      by (simp add: analyze_daily_def)
    with persist_daily_answer[of e b u "or_default (d_date b) (today e)" data w1 docId u' r] assms
    show ?thesis by simp
  qed
qed

text \<open>
  Claim C10 as amended. Every reflection document that a request to \<open>analyze-daily\<close>
  writes or changes has no \<open>analysisStatus\<close> field, so it is neither \<open>pending\<close> nor
  \<open>completed\<close> nor \<open>failed\<close>, and its input type is \<open>text\<close>. It belongs to the user of
  the request, and the service answered the request's analysis call with a text that
  the parser read as a value \<open>data\<close>: each of the five analysis fields of the document
  is there and holds what \<open>data\<close> has under that name, and so does the transcript. When
  the request answers 200, the document it answers with is the one in the store.
\<close>

theorem C10_daily_documents_carry_no_status:
  "(\<forall>u docId r. map_of (reflections (snd (analyze_daily e b w)) u) docId = Some r
        \<longrightarrow> map_of (reflections w u) docId \<noteq> Some r
        \<longrightarrow> analysisStatus r = None \<and> analysisStatus r \<noteq> Some ''completed''
            \<and> inputType r = ''text'' \<and> primaryEmotion r \<noteq> None
            \<and> secondaryEmotion r \<noteq> None \<and> theme r \<noteq> None
            \<and> emotionalIntensity r \<noteq> None \<and> dailyInsight r \<noteq> None
            \<and> (\<exists>textInput text data.
                  d_userId b = Some u \<and> d_textInput b = Some textInput
                \<and> gemini_reply e (gemini_calls w) = Responds text
                \<and> JSON_parse e (extract_json_text text) = Inr data
                \<and> fst (analyzeTextReflection e textInput (Some u) w) = Inr data
                \<and> primaryEmotion r = js_prop data ''primaryEmotion''
                \<and> secondaryEmotion r = js_prop data ''secondaryEmotion''
                \<and> theme r = js_prop data ''theme''
                \<and> emotionalIntensity r = js_prop data ''emotionalIntensity''
                \<and> dailyInsight r = js_prop data ''dailyInsight''
                \<and> Some (transcript r) = js_prop data ''transcript''
                \<and> docId = doc_id e (or_default (d_date b) (today e))
                \<and> date r = or_default (d_date b) (today e) \<and> createdAt r = now_ms e))
   \<and> (\<forall>u docId r. fst (analyze_daily e b w) = (200, Analysis docId u r)
        \<longrightarrow> map_of (reflections (snd (analyze_daily e b w)) u) docId = Some r)"
proof (intro conjI allI impI)
  fix u docId r
  assume "fst (analyze_daily e b w) = (200, Analysis docId u r)"
  then show "map_of (reflections (snd (analyze_daily e b w)) u) docId = Some r"
    by (rule analyze_daily_answer)
next
  fix u docId r
  assume 1: "map_of (reflections (snd (analyze_daily e b w)) u) docId = Some r"
    and 2: "map_of (reflections w u) docId \<noteq> Some r"
  let ?id = "doc_id e (or_default (d_date b) (today e))"
  from analyze_daily_writes[of e b w] 1 2 obtain u' ti data r' where
    b: "d_userId b = Some u'" "d_textInput b = Some ti"
    and f: "fst (analyzeTextReflection e ti (Some u') w) = Inr data"
    and w: "reflections (snd (analyze_daily e b w))
          = (reflections w)(u' := AList.update ?id r' (reflections w u'))"
    and d: "daily_document r'" and a: "analysis_of data r'"
    and t: "date r' = or_default (d_date b) (today e)" "createdAt r' = now_ms e"
    by metis
  from 1 w have m: "map_of (((reflections w)(u' := AList.update ?id r' (reflections w u'))) u) docId
        = Some r" by simp
  have u: "u = u'"
  proof (rule ccontr)
    assume "u \<noteq> u'"
    with m 2 show False by simp
  qed
  have i: "docId = ?id"
  proof (rule ccontr)
    assume "docId \<noteq> ?id"
    with m 2 u show False by (simp add: update_conv')
  qed
  from m u i have r: "r = r'" by (simp add: update_conv')
  from text_analysis_reply[OF f] obtain reply where
    g: "gemini_reply e (gemini_calls w) = Responds reply"
       "JSON_parse e (extract_json_text reply) = Inr data" by blast
  from d r show "analysisStatus r = None" "analysisStatus r \<noteq> Some ''completed''"
     "inputType r = ''text''" "primaryEmotion r \<noteq> None" "secondaryEmotion r \<noteq> None"
     "theme r \<noteq> None" "emotionalIntensity r \<noteq> None" "dailyInsight r \<noteq> None"
    by (simp_all add: daily_document_def)
  from a r have fields: "primaryEmotion r = js_prop data ''primaryEmotion''"
    "secondaryEmotion r = js_prop data ''secondaryEmotion''"
    "theme r = js_prop data ''theme''"
    "emotionalIntensity r = js_prop data ''emotionalIntensity''"
    "dailyInsight r = js_prop data ''dailyInsight''"
    "Some (transcript r) = js_prop data ''transcript''"
    by (simp_all add: analysis_of_def)
  from t r have tr: "date r = or_default (d_date b) (today e)" "createdAt r = now_ms e"
    by simp_all
  from b u have bu: "d_userId b = Some u" by simp
  from f u have fu: "fst (analyzeTextReflection e ti (Some u) w) = Inr data" by simp
  have "d_userId b = Some u \<and> d_textInput b = Some ti
                \<and> gemini_reply e (gemini_calls w) = Responds reply
                \<and> JSON_parse e (extract_json_text reply) = Inr data
                \<and> fst (analyzeTextReflection e ti (Some u) w) = Inr data
                \<and> primaryEmotion r = js_prop data ''primaryEmotion''
                \<and> secondaryEmotion r = js_prop data ''secondaryEmotion''
                \<and> theme r = js_prop data ''theme''
                \<and> emotionalIntensity r = js_prop data ''emotionalIntensity''
                \<and> dailyInsight r = js_prop data ''dailyInsight''
                \<and> Some (transcript r) = js_prop data ''transcript''
                \<and> docId = ?id
                \<and> date r = or_default (d_date b) (today e) \<and> createdAt r = now_ms e"
    using bu b(2) g fu fields i tr by (intro conjI)
  then show "\<exists>textInput text data.
                  d_userId b = Some u \<and> d_textInput b = Some textInput
                \<and> gemini_reply e (gemini_calls w) = Responds text
                \<and> JSON_parse e (extract_json_text text) = Inr data
                \<and> fst (analyzeTextReflection e textInput (Some u) w) = Inr data
                \<and> primaryEmotion r = js_prop data ''primaryEmotion''
                \<and> secondaryEmotion r = js_prop data ''secondaryEmotion''
                \<and> theme r = js_prop data ''theme''
                \<and> emotionalIntensity r = js_prop data ''emotionalIntensity''
                \<and> dailyInsight r = js_prop data ''dailyInsight''
                \<and> Some (transcript r) = js_prop data ''transcript''
                \<and> docId = doc_id e (or_default (d_date b) (today e))
                \<and> date r = or_default (d_date b) (today e) \<and> createdAt r = now_ms e"
    by blast
qed


lemma blank_reply_extract: "extract_json_text blank_text = blank_text"
  by (simp add: blank_text_def extract_json_text_def strip_fences_def trim_def
      js_whitespace_def index_of_def last_index_of_def substring_def)

lemma blank_reply_parse: "sample_parse blank_text = Inr blank_analysis"
  by (simp add: sample_parse_def analysis_text_def blank_text_def)

lemma daily_request_answer:
  "fst (analyze_daily env1 daily_request world0)
     = (200, Analysis ''2026-01-18_11-30-45'' ''u1'' hard_day_document)"
  by (simp add: analyze_daily_def analyzeTextReflection_def callGemini_def
      incrementAPICount_def persist_daily_def daily_reflection_def user_get_def user_merge_def
      reflection_set_def store_step_def env1_def env0_def world0_def daily_request_def
      sample_reply_extract sample_reply_parse sample_analysis_def lacks_field_def
      or_default_def doc_id_def empty_user_def hard_day_document_def Let_def)

theorem C10_daily_documents_carry_no_status_witness:
  "fst (analyze_daily env1 daily_request world0)
     = (200, Analysis ''2026-01-18_11-30-45'' ''u1'' hard_day_document)
   \<and> map_of (reflections (snd (analyze_daily env1 daily_request world0)) ''u1'')
        ''2026-01-18_11-30-45'' = Some hard_day_document
   \<and> map_of (reflections world0 ''u1'') ''2026-01-18_11-30-45'' \<noteq> Some hard_day_document
   \<and> analysisStatus hard_day_document = None
   \<and> primaryEmotion hard_day_document = js_prop sample_analysis ''primaryEmotion''
   \<and> primaryEmotion hard_day_document = Some (JStr ''sad'')
   \<and> dailyInsight hard_day_document = js_prop sample_analysis ''dailyInsight''"
proof -
  let ?r = hard_day_document
  note c = C10_daily_documents_carry_no_status[of env1 daily_request world0]
  have n: "map_of (reflections world0 ''u1'') ''2026-01-18_11-30-45'' \<noteq> Some ?r"
    by (simp add: world0_def)
  from c daily_request_answer
  have s: "map_of (reflections (snd (analyze_daily env1 daily_request world0)) ''u1'')
        ''2026-01-18_11-30-45'' = Some ?r" by blast
  note k = c[THEN conjunct1, THEN spec, THEN spec, THEN spec, THEN mp, OF s, THEN mp, OF n]
  from k have st: "analysisStatus ?r = None" by (rule conjunct1)
  note ex = k[THEN conjunct2, THEN conjunct2, THEN conjunct2, THEN conjunct2, THEN conjunct2,
      THEN conjunct2, THEN conjunct2, THEN conjunct2]
  from ex obtain ti reply data where
    all: "d_userId daily_request = Some ''u1'' \<and> d_textInput daily_request = Some ti
        \<and> gemini_reply env1 (gemini_calls world0) = Responds reply
        \<and> JSON_parse env1 (extract_json_text reply) = Inr data
        \<and> fst (analyzeTextReflection env1 ti (Some ''u1'') world0) = Inr data
        \<and> primaryEmotion ?r = js_prop data ''primaryEmotion''
        \<and> secondaryEmotion ?r = js_prop data ''secondaryEmotion''
        \<and> theme ?r = js_prop data ''theme''
        \<and> emotionalIntensity ?r = js_prop data ''emotionalIntensity''
        \<and> dailyInsight ?r = js_prop data ''dailyInsight''
        \<and> Some (transcript ?r) = js_prop data ''transcript''
        \<and> ''2026-01-18_11-30-45'' = doc_id env1 (or_default (d_date daily_request) (today env1))
        \<and> date ?r = or_default (d_date daily_request) (today env1)
        \<and> createdAt ?r = now_ms env1"
    by (elim exE)
  from all have g: "gemini_reply env1 (gemini_calls world0) = Responds reply"
    and j: "JSON_parse env1 (extract_json_text reply) = Inr data"
    and p: "primaryEmotion ?r = js_prop data ''primaryEmotion''"
    and i: "dailyInsight ?r = js_prop data ''dailyInsight''" by simp_all
  from g have "reply = analysis_text" by (simp add: env1_def)
  with j have "data = sample_analysis"
    by (simp add: env1_def env0_def sample_reply_extract sample_reply_parse)
  with p i have pe: "primaryEmotion ?r = js_prop sample_analysis ''primaryEmotion''"
    and di: "dailyInsight ?r = js_prop sample_analysis ''dailyInsight''" by simp_all
  have ps: "primaryEmotion ?r = Some (JStr ''sad'')" by (simp add: hard_day_document_def)
  from daily_request_answer s n st pe ps di show ?thesis by (intro conjI)
qed

theorem C10_null_fields_counterexample:
  "gemini_reply blank_reply 0 = Responds blank_text
   \<and> JSON_parse blank_reply blank_text = Inr blank_analysis
   \<and> fst (analyze_daily blank_reply daily_request world0)
     = (200, Analysis ''2026-01-18_11-30-45'' ''u1'' blank_document)
   \<and> map_of (reflections (snd (analyze_daily blank_reply daily_request world0)) ''u1'')
        ''2026-01-18_11-30-45'' = Some blank_document
   \<and> primaryEmotion blank_document = Some JNull
   \<and> secondaryEmotion blank_document = Some JNull
   \<and> theme blank_document = Some JNull
   \<and> emotionalIntensity blank_document = Some JNull
   \<and> dailyInsight blank_document = Some JNull"
proof -
  have g: "gemini_reply blank_reply 0 = Responds blank_text" by (simp add: blank_reply_def)
  have j: "JSON_parse blank_reply blank_text = Inr blank_analysis"
    by (simp add: blank_reply_def env0_def blank_reply_parse)
  have r: "fst (analyze_daily blank_reply daily_request world0)
     = (200, Analysis ''2026-01-18_11-30-45'' ''u1'' blank_document)"
    by (simp add: analyze_daily_def analyzeTextReflection_def callGemini_def
      incrementAPICount_def persist_daily_def daily_reflection_def user_get_def user_merge_def
      reflection_set_def store_step_def blank_reply_def env0_def world0_def daily_request_def
      blank_reply_extract blank_reply_parse blank_analysis_def lacks_field_def
      or_default_def doc_id_def empty_user_def blank_document_def Let_def)
  then have a: "map_of (reflections (snd (analyze_daily blank_reply daily_request world0)) ''u1'')
        ''2026-01-18_11-30-45'' = Some blank_document"
    by (rule analyze_daily_answer)
  have f: "primaryEmotion blank_document = Some JNull"
    "secondaryEmotion blank_document = Some JNull" "theme blank_document = Some JNull"
    "emotionalIntensity blank_document = Some JNull" "dailyInsight blank_document = Some JNull"
    by (simp_all add: blank_document_def)
  from g j r a f show ?thesis by (intro conjI)
qed

lemma newest_first_length: "length (newest_first docs) = length docs"
  by (simp add: newest_first_def)

lemma newest_first_set: "set (newest_first docs) = set docs"
  by (simp add: newest_first_def)

lemma newest_first_sorted:
  "sorted_wrt (\<lambda>a b. createdAt (snd b) \<le> createdAt (snd a)) (newest_first docs)"
proof -
  let ?k = "\<lambda>(docId, r). (createdAt r, docId :: string)"
  have "sorted (map ?k (sort_key ?k docs))" by (rule sorted_sort_key)
  then have "sorted_wrt (\<lambda>a b. ?k a \<le> ?k b) (sort_key ?k docs)"
    by (simp add: sorted_map)
  then have "sorted_wrt (\<lambda>a b. ?k b \<le> ?k a) (rev (sort_key ?k docs))"
    by (simp add: sorted_wrt_rev)
  moreover have "\<And>a b. ?k b \<le> ?k a \<Longrightarrow> createdAt (snd b) \<le> createdAt (snd a)"
    by (auto simp: less_eq_prod_def split: prod.splits)
  ultimately show ?thesis
    unfolding newest_first_def by (rule sorted_wrt_mono_rel[rotated]) blast
qed

lemma sample_sorted:
  "sorted_wrt (\<lambda>a b. createdAt (snd b) \<le> createdAt (snd a)) (take n (newest_first docs))"
  using newest_first_sorted by (rule sorted_wrt_take)

lemma sample_most_recent:
  assumes "x \<in> set (take n (newest_first docs))"
    and "y \<in> set docs - set (take n (newest_first docs))"
  shows "createdAt (snd y) \<le> createdAt (snd x)"
proof -
  let ?xs = "newest_first docs"
  have "set ?xs = set (take n ?xs) \<union> set (drop n ?xs)"
    by (metis append_take_drop_id set_append)
  with assms(2) have y: "y \<in> set (drop n ?xs)" by (auto simp: newest_first_set)
  have "sorted_wrt (\<lambda>a b. createdAt (snd b) \<le> createdAt (snd a)) (take n ?xs @ drop n ?xs)"
    using newest_first_sorted by simp
  with assms(1) y show ?thesis unfolding sorted_wrt_append by blast
qed

lemma recompute_query:
  "store_fault e (store_ops w) = None \<Longrightarrow>
   recompute e u w =
     (let sample = take 7 (newest_first (reflections w u));
          w1 = w\<lparr>store_ops := Suc (store_ops w),
                 trace := trace w @ [StoreRead (u @ ''/reflections'')]\<rparr>
      in if sample = [] then ((200, NotEnough (Some ''Not enough reflections'') None), w1)
         else if length sample < 3 then ((200, NotEnough None (Some (length sample))), w1)
         else aggregate e u sample w1)"
  by (simp add: recompute_def reflections_query_def store_step_def Let_def)

lemma console_error_trace: "trace (console_error m w) = trace w @ [ConsoleError m]"
  by (simp add: console_error_def)

lemma user_merge_trace: "\<exists>rest. trace (snd (user_merge e u f w)) = trace w @ rest"
  by (simp add: user_merge_def store_step_def split: option.splits)

lemma weekly_patterns_request:
  assumes "3 \<le> length sample"
  shows "\<exists>pre post. trace (snd (analyzeWeeklyPatterns e sample uid w))
           = trace w @ pre @ GeminiRequest (WeeklyPrompt (map summarise sample)) # post"
proof -
  let ?p = "WeeklyPrompt (map summarise sample)"
  obtain res w1 where c: "callGemini e ?p uid ''weekly-analysis'' ''Weekly pattern analysis'' w
      = (res, w1)"
    by (cases "callGemini e ?p uid ''weekly-analysis'' ''Weekly pattern analysis'' w")
  from callGemini_trace[of e ?p uid "''weekly-analysis''" "''Weekly pattern analysis''" w] c
  obtain after where t: "trace w1 = trace (case uid of None \<Rightarrow> w
          | Some u \<Rightarrow> if u = [] then w
                      else incrementAPICount e u ''weekly-analysis'' ''Weekly pattern analysis'' w)
        @ GeminiRequest ?p # after" by auto
  have "\<exists>pre. trace (case uid of None \<Rightarrow> w
          | Some u \<Rightarrow> if u = [] then w
                      else incrementAPICount e u ''weekly-analysis'' ''Weekly pattern analysis'' w)
        = trace w @ pre"
    using recorder_trace[of _ e "''weekly-analysis''" "''Weekly pattern analysis''" w]
    by (cases uid) auto
  then obtain pre where "trace (case uid of None \<Rightarrow> w
          | Some u \<Rightarrow> if u = [] then w
                      else incrementAPICount e u ''weekly-analysis'' ''Weekly pattern analysis'' w)
        = trace w @ pre" by blast
  with t have t1: "trace w1 = trace w @ pre @ GeminiRequest ?p # after" by simp
  show ?thesis
  proof (cases res)
    case (Inl err)
    with c assms t1 have "trace (snd (analyzeWeeklyPatterns e sample uid w))
      = trace w @ pre @ GeminiRequest ?p # (after @ [ConsoleError (''WEEKLY ANALYSIS ERROR: '' @ message err)])"
      by (simp add: analyzeWeeklyPatterns_def console_error_def)
    then show ?thesis by blast
  next
    case (Inr data)
    with c assms t1 have "trace (snd (analyzeWeeklyPatterns e sample uid w))
      = trace w @ pre @ GeminiRequest ?p # after"
      by (simp add: analyzeWeeklyPatterns_def)
    then show ?thesis by blast
  qed
qed

lemma aggregate_request:
  assumes "3 \<le> length sample"
  shows "GeminiRequest (WeeklyPrompt (map summarise sample))
           \<in> set (trace (snd (aggregate e u sample w)))"
proof -
  let ?p = "WeeklyPrompt (map summarise sample)"
  obtain res w1 where a: "analyzeWeeklyPatterns e sample (Some u) w = (res, w1)"
    by (cases "analyzeWeeklyPatterns e sample (Some u) w")
  from weekly_patterns_request[OF assms, of e "Some u" w] a
  have m: "GeminiRequest ?p \<in> set (trace w1)" by auto
  have "\<exists>res2. race_analysis e sample u w = (res2, w1)"
    using a by (simp add: race_analysis_def split: sum.splits)
  then obtain res2 where r: "race_analysis e sample u w = (res2, w1)" by blast
  show ?thesis
  proof (cases res2)
    case (Inl thrown)
    with r m show ?thesis by (simp add: aggregate_def console_error_def)
  next
    case (Inr outcome)
    show ?thesis
    proof (cases outcome)
      case (Inl err)
      with Inr r m show ?thesis by (simp add: aggregate_def)
    next
      case (Inr data)
      from user_merge_trace[of e u "write_cache e (length sample) data" w1] obtain rest where
        "trace (snd (user_merge e u (write_cache e (length sample) data) w1)) = trace w1 @ rest"
        by blast
      with m have "GeminiRequest ?p
         \<in> set (trace (snd (user_merge e u (write_cache e (length sample) data) w1)))" by simp
      with Inr \<open>res2 = Inr outcome\<close> r show ?thesis
        by (auto simp: aggregate_def console_error_def split: prod.splits sum.splits)
    qed
  qed
qed

text \<open>
  Claim C4. A weekly request that has no fresh cache entry, when the store answers its
  two reads: with no reflection it reports that there is not enough data, with one or
  two it reports that together with their number, and with three or more it goes on to
  the aggregate step. The sample it analyses holds at most seven reflections of the
  user, ordered by creation time with the most recent first, none of the others being
  more recent than any of them, and the request sent to the analysis service carries
  the summaries of exactly that sample.
\<close>

theorem C4_minimum_sample:
  "u \<noteq> [] \<longrightarrow> store_fault e (store_ops w) = None
   \<longrightarrow> store_fault e (Suc (store_ops w)) = None
   \<longrightarrow> fresh_cache e (users w u) = None
   \<longrightarrow> (reflections w u = []
          \<longrightarrow> fst (analyze_weekly e (Some u) w)
               = (200, NotEnough (Some ''Not enough reflections'') None))
     \<and> (0 < length (reflections w u) \<and> length (reflections w u) < 3
          \<longrightarrow> fst (analyze_weekly e (Some u) w)
               = (200, NotEnough None (Some (length (reflections w u)))))
     \<and> (3 \<le> length (reflections w u)
          \<longrightarrow> analyze_weekly e (Some u) w
               = aggregate e u (take 7 (newest_first (reflections w u)))
                   (w\<lparr>store_ops := Suc (Suc (store_ops w)),
                      trace := trace w @ [StoreRead u, StoreRead (u @ ''/reflections'')]\<rparr>)
            \<and> GeminiRequest (WeeklyPrompt
                  (map summarise (take 7 (newest_first (reflections w u)))))
                \<in> set (trace (snd (analyze_weekly e (Some u) w)))
            \<and> length (take 7 (newest_first (reflections w u)))
                = min (length (reflections w u)) 7
            \<and> set (take 7 (newest_first (reflections w u))) \<subseteq> set (reflections w u)
            \<and> sorted_wrt (\<lambda>a b. createdAt (snd b) \<le> createdAt (snd a))
                 (take 7 (newest_first (reflections w u)))
            \<and> (\<forall>x \<in> set (take 7 (newest_first (reflections w u))).
                \<forall>y \<in> set (reflections w u) - set (take 7 (newest_first (reflections w u))).
                  createdAt (snd y) \<le> createdAt (snd x)))"
proof -
  let ?docs = "reflections w u"
  let ?sample = "take 7 (newest_first ?docs)"
  let ?w1 = "w\<lparr>store_ops := Suc (store_ops w), trace := trace w @ [StoreRead u]\<rparr>"
  let ?w2 = "w\<lparr>store_ops := Suc (Suc (store_ops w)),
                trace := trace w @ [StoreRead u, StoreRead (u @ ''/reflections'')]\<rparr>"
  {
  assume u: "u \<noteq> []" and f1: "store_fault e (store_ops w) = None"
    and f2: "store_fault e (Suc (store_ops w)) = None"
    and c: "fresh_cache e (users w u) = None"
  have f2': "store_fault e (store_ops ?w1) = None" using f2 by simp
  have a: "analyze_weekly e (Some u) w = recompute e u ?w1"
    using analyze_weekly_miss[OF u f1 c] .
  define sample where "sample = take 7 (newest_first ?docs)"
  have len: "length sample = min (length ?docs) 7"
    by (simp add: sample_def newest_first_length)
  have rq: "recompute e u ?w1 =
      (if sample = [] then ((200, NotEnough (Some ''Not enough reflections'') None), ?w2)
       else if length sample < 3 then ((200, NotEnough None (Some (length sample))), ?w2)
       else aggregate e u sample ?w2)"
    unfolding sample_def by (simp add: recompute_query[OF f2'] Let_def)
  have 1: "fst (analyze_weekly e (Some u) w)
               = (200, NotEnough (Some ''Not enough reflections'') None)" if "?docs = []"
  proof -
    from that len have "sample = []" by simp
    then show ?thesis unfolding a rq by simp
  qed
  have 2: "fst (analyze_weekly e (Some u) w) = (200, NotEnough None (Some (length ?docs)))"
    if "0 < length ?docs \<and> length ?docs < 3"
  proof -
    from that len have l: "length sample = length ?docs" by simp
    with that have "sample \<noteq> []" "length sample < 3" by auto
    with l show ?thesis unfolding a rq by simp
  qed
  have 3: "analyze_weekly e (Some u) w = aggregate e u sample ?w2" if "3 \<le> length ?docs"
  proof -
    from that len have "sample \<noteq> []" "\<not> length sample < 3" by auto
    then show ?thesis unfolding a rq by simp
  qed
  have 4: "GeminiRequest (WeeklyPrompt (map summarise sample))
                \<in> set (trace (snd (analyze_weekly e (Some u) w)))" if "3 \<le> length ?docs"
  proof -
    from that len have "3 \<le> length sample" by simp
    from aggregate_request[OF this, of e u ?w2] show ?thesis
      by (simp only: 3[OF that])
  qed
  have 5: "set sample \<subseteq> set ?docs"
    unfolding sample_def using set_take_subset[of 7 "newest_first ?docs"]
    by (simp only: newest_first_set)
  have 6: "sorted_wrt (\<lambda>a b. createdAt (snd b) \<le> createdAt (snd a)) sample"
    unfolding sample_def by (rule sample_sorted)
  have 7: "\<forall>x \<in> set sample. \<forall>y \<in> set ?docs - set sample.
                  createdAt (snd y) \<le> createdAt (snd x)"
    unfolding sample_def using sample_most_recent by blast
  have all: "(?docs = []
          \<longrightarrow> fst (analyze_weekly e (Some u) w)
               = (200, NotEnough (Some ''Not enough reflections'') None))
     \<and> (0 < length ?docs \<and> length ?docs < 3
          \<longrightarrow> fst (analyze_weekly e (Some u) w)
               = (200, NotEnough None (Some (length ?docs))))
     \<and> (3 \<le> length ?docs
          \<longrightarrow> analyze_weekly e (Some u) w = aggregate e u sample ?w2
            \<and> GeminiRequest (WeeklyPrompt (map summarise sample))
                \<in> set (trace (snd (analyze_weekly e (Some u) w)))
            \<and> length sample = min (length ?docs) 7
            \<and> set sample \<subseteq> set ?docs
            \<and> sorted_wrt (\<lambda>a b. createdAt (snd b) \<le> createdAt (snd a)) sample
            \<and> (\<forall>x \<in> set sample. \<forall>y \<in> set ?docs - set sample.
                  createdAt (snd y) \<le> createdAt (snd x)))"
  proof (intro conjI impI)
    assume "?docs = []" then show "fst (analyze_weekly e (Some u) w)
               = (200, NotEnough (Some ''Not enough reflections'') None)" by (rule 1)
  next
    assume "0 < length ?docs \<and> length ?docs < 3"
    then show "fst (analyze_weekly e (Some u) w)
               = (200, NotEnough None (Some (length ?docs)))" by (rule 2)
  next
    assume "3 \<le> length ?docs"
    then show "analyze_weekly e (Some u) w = aggregate e u sample ?w2" by (rule 3)
  next
    assume "3 \<le> length ?docs"
    then show "GeminiRequest (WeeklyPrompt (map summarise sample))
                \<in> set (trace (snd (analyze_weekly e (Some u) w)))" by (rule 4)
  next
    show "length sample = min (length ?docs) 7" by (rule len)
  next
    show "set sample \<subseteq> set ?docs" by (rule 5)
  next
    show "sorted_wrt (\<lambda>a b. createdAt (snd b) \<le> createdAt (snd a)) sample" by (rule 6)
  next
    show "\<forall>x \<in> set sample. \<forall>y \<in> set ?docs - set sample.
                  createdAt (snd y) \<le> createdAt (snd x)" by (rule 7)
  qed
  note all[unfolded sample_def]
  }
  note main = this
  show ?thesis by (intro impI, rule main)
qed

lemma three_newest_first:
  "take 7 (newest_first three_reflections) =
     [(''b'', reflection_at 30 ''glad'' ''work''), (''c'', reflection_at 20 ''sad'' ''self''),
      (''a'', reflection_at 10 ''sad'' ''work'')]"
  by (simp add: newest_first_def three_reflections_def reflection_at_def less_eq_prod_def)

theorem C4_minimum_sample_witness:
  "fst (analyze_weekly env0 (Some ''u1'') world0)
     = (200, NotEnough (Some ''Not enough reflections'') None)
   \<and> fst (analyze_weekly env0 (Some ''u1'')
            (world0\<lparr>reflections := (\<lambda>u. [])(''u1'' := two_reflections)\<rparr>))
     = (200, NotEnough None (Some 2))
   \<and> GeminiRequest (WeeklyPrompt (map summarise
         [(''b'', reflection_at 30 ''glad'' ''work''), (''c'', reflection_at 20 ''sad'' ''self''),
          (''a'', reflection_at 10 ''sad'' ''work'')]))
       \<in> set (trace (snd (analyze_weekly env0 (Some ''u1'') week_world)))"
proof -
  let ?w2 = "world0\<lparr>reflections := (\<lambda>u. [])(''u1'' := two_reflections)\<rparr>"
  have n: "''u1'' \<noteq> []" by simp
  have f0: "store_fault env0 (store_ops world0) = None"
    "store_fault env0 (Suc (store_ops world0)) = None"
    and f2: "store_fault env0 (store_ops ?w2) = None"
    "store_fault env0 (Suc (store_ops ?w2)) = None"
    and f3: "store_fault env0 (store_ops week_world) = None"
    "store_fault env0 (Suc (store_ops week_world)) = None"
    by (simp_all add: env0_def)
  have c0: "fresh_cache env0 (users world0 ''u1'') = None"
    and c2: "fresh_cache env0 (users ?w2 ''u1'') = None"
    and c3: "fresh_cache env0 (users week_world ''u1'') = None"
    by (simp_all add: fresh_cache_def world0_def week_world_def)
  have r0: "reflections world0 ''u1'' = []" by (simp add: world0_def)
  have r2: "0 < length (reflections ?w2 ''u1'') \<and> length (reflections ?w2 ''u1'') < 3"
    and l2: "length (reflections ?w2 ''u1'') = 2"
    by (simp_all add: two_reflections_def)
  have r3: "3 \<le> length (reflections week_world ''u1'')"
    and e3: "reflections week_world ''u1'' = three_reflections"
    by (simp_all add: week_world_def three_reflections_def)
  note t0 = C4_minimum_sample[of "''u1''" env0 world0, THEN mp, OF n, THEN mp, OF f0(1),
      THEN mp, OF f0(2), THEN mp, OF c0]
  note t2 = C4_minimum_sample[of "''u1''" env0 ?w2, THEN mp, OF n, THEN mp, OF f2(1),
      THEN mp, OF f2(2), THEN mp, OF c2]
  note t3 = C4_minimum_sample[of "''u1''" env0 week_world, THEN mp, OF n, THEN mp, OF f3(1),
      THEN mp, OF f3(2), THEN mp, OF c3]
  have a: "fst (analyze_weekly env0 (Some ''u1'') world0)
     = (200, NotEnough (Some ''Not enough reflections'') None)"
    using t0[THEN conjunct1, THEN mp, OF r0] .
  have "fst (analyze_weekly env0 (Some ''u1'') ?w2)
     = (200, NotEnough None (Some (length (reflections ?w2 ''u1''))))"
    using t2[THEN conjunct2, THEN conjunct1, THEN mp, OF r2] .
  then have b: "fst (analyze_weekly env0 (Some ''u1'') ?w2) = (200, NotEnough None (Some 2))"
    by (simp only: l2)
  have "GeminiRequest (WeeklyPrompt
                  (map summarise (take 7 (newest_first (reflections week_world ''u1'')))))
                \<in> set (trace (snd (analyze_weekly env0 (Some ''u1'') week_world)))"
    using t3[THEN conjunct2, THEN conjunct2, THEN mp, OF r3, THEN conjunct2, THEN conjunct1] .
  then have d: "GeminiRequest (WeeklyPrompt (map summarise
         [(''b'', reflection_at 30 ''glad'' ''work''), (''c'', reflection_at 20 ''sad'' ''self''),
          (''a'', reflection_at 10 ''sad'' ''work'')]))
       \<in> set (trace (snd (analyze_weekly env0 (Some ''u1'') week_world)))"
    by (simp only: e3 three_newest_first)
  from a b d show ?thesis by (intro conjI)
qed

lemma weekly_cache_hit:
  assumes "u \<noteq> []" "store_fault e (store_ops w) = None" "users w u = Some d"
    "weeklyAnalysisCache d = Some c" "now_ms e - timestamp c < 24 * 60 * 60 * 1000"
  shows "analyze_weekly e (Some u) w =
           ((200, WeeklyResult (reflectionCount c) (analysis c) None),
            w\<lparr>store_ops := Suc (store_ops w), trace := trace w @ [StoreRead u]\<rparr>)"
    and "analyze_weekly_cached e (Some u) w =
           ((200, WeeklyResult (reflectionCount c) (analysis c) (Some True)),
            w\<lparr>store_ops := Suc (store_ops w), trace := trace w @ [StoreRead u]\<rparr>)"
  using assms
  by (simp_all add: analyze_weekly_def analyze_weekly_cached_def user_get_def store_step_def
      fresh_cache_def CACHE_DURATION_def)

lemma weekly_cache_stale:
  assumes "u \<noteq> []" "store_fault e (store_ops w) = None" "users w u = Some d"
    "weeklyAnalysisCache d = Some c" "24 * 60 * 60 * 1000 \<le> now_ms e - timestamp c"
  shows "analyze_weekly e (Some u) w =
           recompute e u (w\<lparr>store_ops := Suc (store_ops w), trace := trace w @ [StoreRead u]\<rparr>)"
  using assms
  by (simp add: analyze_weekly_def user_get_def store_step_def fresh_cache_def
      CACHE_DURATION_def)

lemma aggregate_analysis_failure:
  assumes "analysis_latency e (gemini_calls w) < GEMINI_TIMEOUT"
    and "fst (analyzeWeeklyPatterns e sample (Some u) w) = Inl err"
  shows "fst (aggregate e u sample w) = (500, Failure err)"
  using assms
  by (cases "analyzeWeeklyPatterns e sample (Some u) w")
     (simp add: aggregate_def race_analysis_def)

lemma aggregate_timeout:
  assumes "GEMINI_TIMEOUT \<le> analysis_latency e (gemini_calls w)"
    and "store_fault e (store_ops (snd (analyzeWeeklyPatterns e sample (Some u) w))) = None"
    and "synthetic_fallback sample = Inr data"
  shows "fst (aggregate e u sample w) = (200, WeeklyResult (length sample) data None)"
  using assms
  by (cases "analyzeWeeklyPatterns e sample (Some u) w")
     (simp add: aggregate_def race_analysis_def user_merge_def store_step_def)

lemma aggregate_thrown:
  assumes "GEMINI_TIMEOUT \<le> analysis_latency e (gemini_calls w)"
    and "synthetic_fallback sample = Inl err"
  shows "fst (aggregate e u sample w) = (500, Failure ''Weekly analysis failed'')"
  using assms
  by (cases "analyzeWeeklyPatterns e sample (Some u) w")
     (simp add: aggregate_def race_analysis_def)

text \<open>
  Claim C3, on the route that the server mounts. On the sample world, whose cache entry
  is one second old, the answer carries the cached count and analysis, no request goes
  to the analysis service, and the body has no \<open>cached\<close> flag; the same request to the
  route of \<open>analysis_cached.js\<close> is answered with the flag set.
\<close>

theorem C3_cache_hit_carries_no_flag:
  "analyze_weekly env0 (Some ''u1'') cached_world
     = ((200, WeeklyResult 3 sample_aggregate None),
        cached_world\<lparr>store_ops := 1, trace := [StoreRead ''u1'']\<rparr>)
   \<and> fst (analyze_weekly_cached env0 (Some ''u1'') cached_world)
     = (200, WeeklyResult 3 sample_aggregate (Some True))"
  by (simp add: analyze_weekly_def analyze_weekly_cached_def user_get_def store_step_def
      fresh_cache_def CACHE_DURATION_def env0_def cached_world_def cached_user_def
      world0_def)

lemma not_json_extract: "extract_json_text ''not json'' = ''not json''"
  by (simp add: extract_json_text_def strip_fences_def trim_def js_whitespace_def
      index_of_def last_index_of_def)

lemma week_sample_failure:
  "fst (analyzeWeeklyPatterns (env0\<lparr>gemini_reply := \<lambda>n. Responds ''not json''\<rparr>)
          (take 7 (newest_first three_reflections)) (Some ''u1'') w)
     = Inl ''Invalid AI response format - could not parse JSON''"
proof -
  let ?e = "env0\<lparr>gemini_reply := \<lambda>n. Responds ''not json''\<rparr>"
  let ?s = "take 7 (newest_first three_reflections)"
  have "fst (callGemini ?e (WeeklyPrompt (map summarise ?s)) (Some ''u1'')
               ''weekly-analysis'' ''Weekly pattern analysis'' w) = Inl MalformedResponse"
    by (simp add: callGemini_result not_json_extract env0_def sample_parse_prose
        indicates_truncation_def)
  then show ?thesis
    by (cases "callGemini ?e (WeeklyPrompt (map summarise ?s)) (Some ''u1'')
               ''weekly-analysis'' ''Weekly pattern analysis'' w")
       (simp add: analyzeWeeklyPatterns_def three_newest_first)
qed

lemma analyze_weekly_enough:
  assumes "u \<noteq> []" "store_fault e (store_ops w) = None"
    "store_fault e (Suc (store_ops w)) = None" "fresh_cache e (users w u) = None"
    "3 \<le> length (reflections w u)"
  shows "analyze_weekly e (Some u) w
           = aggregate e u (take 7 (newest_first (reflections w u)))
               (w\<lparr>store_ops := Suc (Suc (store_ops w)),
                  trace := trace w @ [StoreRead u, StoreRead (u @ ''/reflections'')]\<rparr>)"
proof -
  let ?w1 = "w\<lparr>store_ops := Suc (store_ops w), trace := trace w @ [StoreRead u]\<rparr>"
  define sample where "sample = take 7 (newest_first (reflections w u))"
  have "length sample = min (length (reflections w u)) 7"
    by (simp add: sample_def newest_first_length)
  with assms(5) have l: "sample \<noteq> []" "\<not> length sample < 3" by auto
  have f: "store_fault e (store_ops ?w1) = None" using assms(3) by simp
  have "recompute e u ?w1 =
      (if sample = [] then ((200, NotEnough (Some ''Not enough reflections'') None),
            w\<lparr>store_ops := Suc (Suc (store_ops w)),
                  trace := trace w @ [StoreRead u, StoreRead (u @ ''/reflections'')]\<rparr>)
       else if length sample < 3 then ((200, NotEnough None (Some (length sample))),
            w\<lparr>store_ops := Suc (Suc (store_ops w)),
                  trace := trace w @ [StoreRead u, StoreRead (u @ ''/reflections'')]\<rparr>)
       else aggregate e u sample (w\<lparr>store_ops := Suc (Suc (store_ops w)),
                  trace := trace w @ [StoreRead u, StoreRead (u @ ''/reflections'')]\<rparr>))"
    unfolding sample_def by (simp add: recompute_query[OF f] Let_def)
  with l have "recompute e u ?w1 = aggregate e u sample (w\<lparr>store_ops := Suc (Suc (store_ops w)),
                  trace := trace w @ [StoreRead u, StoreRead (u @ ''/reflections'')]\<rparr>)"
    by simp
  then show ?thesis
    unfolding sample_def analyze_weekly_miss[OF assms(1) assms(2) assms(4)] .
qed

lemmas fallback_eval =
  synthetic_fallback_def property_keys_def collect_def or_value_def fallback_data_def
  top_two_def count_key_def object_prototype_keys_def own_entries_def is_array_index_def
  is_digit_def digits_value_def js_sort_def reflection_at_def reflection_of_def Let_def

lemma three_synthetic:
  "synthetic_fallback (take 7 (newest_first three_reflections)) = Inr three_fallback"
  unfolding three_newest_first
  by (simp add: fallback_eval three_fallback_def show_nat_def digit_char_def)

text \<open>
  Claim C1, at a request that reaches the aggregate step with three reflections. The
  analysis service answers in time with a text that the parser rejects: the request is
  answered with status 500 and the client's message, and no synthetic result is built.
  The same answer arriving after the timer gives status 200 with the synthetic result
  of the sample.
\<close>

theorem C1_analysis_failure_is_not_replaced:
  "fst (analyze_weekly malformed_reply (Some ''u1'') week_world)
     = (500, Failure ''Invalid AI response format - could not parse JSON'')
   \<and> synthetic_fallback (take 7 (newest_first three_reflections)) = Inr three_fallback
   \<and> fst (analyze_weekly (malformed_reply\<lparr>analysis_latency := \<lambda>n. 20000\<rparr>)
            (Some ''u1'') week_world)
     = (200, WeeklyResult 3 three_fallback None)"
proof -
  let ?w2 = "week_world\<lparr>store_ops := Suc (Suc (store_ops week_world)),
                  trace := trace week_world @ [StoreRead ''u1'', StoreRead (''u1'' @ ''/reflections'')]\<rparr>"
  let ?s = "take 7 (newest_first three_reflections)"
  let ?late = "malformed_reply\<lparr>analysis_latency := \<lambda>n. 20000\<rparr>"
  have n: "''u1'' \<noteq> []" by simp
  have r: "reflections week_world ''u1'' = three_reflections" by (simp add: week_world_def)
  have l: "3 \<le> length (reflections week_world ''u1'')"
    by (simp add: r three_reflections_def)
  have ls: "length ?s = 3" by (simp add: three_newest_first)
  have a1: "analyze_weekly malformed_reply (Some ''u1'') week_world
              = aggregate malformed_reply ''u1'' ?s ?w2"
    using analyze_weekly_enough[OF n _ _ _ l, of malformed_reply]
    by (simp add: r malformed_reply_def env0_def fresh_cache_def week_world_def world0_def)
  have a2: "analyze_weekly ?late (Some ''u1'') week_world = aggregate ?late ''u1'' ?s ?w2"
    using analyze_weekly_enough[OF n _ _ _ l, of ?late]
    by (simp add: r malformed_reply_def env0_def fresh_cache_def week_world_def world0_def)
  have t1: "analysis_latency malformed_reply (gemini_calls ?w2) < GEMINI_TIMEOUT"
    by (simp add: malformed_reply_def env0_def GEMINI_TIMEOUT_def)
  have f1: "fst (analyzeWeeklyPatterns malformed_reply ?s (Some ''u1'') ?w2)
              = Inl ''Invalid AI response format - could not parse JSON''"
    unfolding malformed_reply_def by (rule week_sample_failure)
  have t2: "GEMINI_TIMEOUT \<le> analysis_latency ?late (gemini_calls ?w2)"
    by (simp add: GEMINI_TIMEOUT_def)
  have f2: "store_fault ?late (store_ops (snd (analyzeWeeklyPatterns ?late ?s (Some ''u1'') ?w2)))
              = None"
    by (simp add: malformed_reply_def env0_def)
  from aggregate_analysis_failure[OF t1 f1] a1
  have 1: "fst (analyze_weekly malformed_reply (Some ''u1'') week_world)
     = (500, Failure ''Invalid AI response format - could not parse JSON'')" by simp
  from aggregate_timeout[OF t2 f2 three_synthetic] a2 ls
  have 2: "fst (analyze_weekly ?late (Some ''u1'') week_world)
     = (200, WeeklyResult 3 three_fallback None)" by simp
  from 1 three_synthetic 2 show ?thesis by (intro conjI)
qed

lemma first_seen_snoc:
  "first_seen (ns @ [k]) = (if k \<in> set ns then first_seen ns else first_seen ns @ [k])"
  by (simp add: first_seen_def)

lemma first_seen_set: "set (first_seen ns) = set ns"
  by (simp add: first_seen_def)

lemma map_of_tally:
  "map_of (map (tally_of ns) ks) k = (if k \<in> set ks then Some (Count (count_list ns k)) else None)"
  by (induction ks) (auto simp: tally_of_def)

lemma first_seen_distinct: "distinct (first_seen ns)"
  by (simp add: first_seen_def)

lemma count_list_snoc: "count_list (ns @ [k]) x = count_list ns x + (if x = k then 1 else 0)"
  by (induction ns) auto

lemma tally_snoc_other: "x \<noteq> k \<Longrightarrow> tally_of (ns @ [k]) x = tally_of ns x"
  by (simp add: tally_of_def count_list_snoc)

lemma tally_snoc_same: "tally_of (ns @ [k]) k = (k, Count (count_list ns k + 1))"
  by (simp add: tally_of_def count_list_snoc)

lemma update_present:
  "distinct ks \<Longrightarrow> k \<in> set ks \<Longrightarrow>
   AList.update k v (map (tally_of ns) ks) = map (\<lambda>x. if x = k then (k, v) else tally_of ns x) ks"
proof (induction ks)
  case Nil
  then show ?case by simp
next
  case (Cons a ks)
  show ?case
  proof (cases "a = k")
    case True
    with Cons.prems have "k \<notin> set ks" by simp
    then have "map (\<lambda>x. if x = k then (k, v) else tally_of ns x) ks = map (tally_of ns) ks"
      by (intro map_cong) auto
    with True show ?thesis by (simp add: tally_of_def)
  next
    case False
    with Cons show ?thesis by (simp add: tally_of_def)
  qed
qed

lemma update_new:
  "k \<notin> set ks \<Longrightarrow> AList.update k v (map (tally_of ns) ks) = map (tally_of ns) ks @ [(k, v)]"
  by (induction ks) (auto simp: tally_of_def)

lemma count_key_plain:
  assumes "k \<notin> set object_prototype_keys"
  shows "count_key (map (tally_of ns) (first_seen ns)) k
           = map (tally_of (ns @ [k])) (first_seen (ns @ [k]))"
proof (cases "k \<in> set ns")
  case True
  then have m: "map_of (map (tally_of ns) (first_seen ns)) k = Some (Count (count_list ns k))"
    by (simp add: map_of_tally first_seen_set)
  then have "count_key (map (tally_of ns) (first_seen ns)) k
      = AList.update k (Count (count_list ns k + 1)) (map (tally_of ns) (first_seen ns))"
    by (simp add: count_key_def)
  also have "\<dots> = map (\<lambda>x. if x = k then (k, Count (count_list ns k + 1)) else tally_of ns x)
                     (first_seen ns)"
    using True by (intro update_present) (simp_all add: first_seen_distinct first_seen_set)
  also have "\<dots> = map (tally_of (ns @ [k])) (first_seen ns)"
    by (intro map_cong) (auto simp: tally_snoc_same tally_snoc_other)
  also have "\<dots> = map (tally_of (ns @ [k])) (first_seen (ns @ [k]))"
    using True by (simp add: first_seen_snoc)
  finally show ?thesis .
next
  case False
  then have m: "map_of (map (tally_of ns) (first_seen ns)) k = None"
    by (simp add: map_of_tally first_seen_set)
  have p: "k \<noteq> ''__proto__''" using assms by (auto simp: object_prototype_keys_def)
  from m p assms have 1: "count_key (map (tally_of ns) (first_seen ns)) k
      = AList.update k (Count 1) (map (tally_of ns) (first_seen ns))"
    by (simp add: count_key_def)
  have 2: "AList.update k (Count 1) (map (tally_of ns) (first_seen ns))
      = map (tally_of ns) (first_seen ns) @ [(k, Count 1)]"
    using False by (intro update_new) (simp add: first_seen_set)
  have 3: "map (tally_of ns) (first_seen ns) = map (tally_of (ns @ [k])) (first_seen ns)"
    using False by (intro map_cong) (auto simp: tally_of_def count_list_snoc first_seen_set)
  have 4: "(k, Count 1) = tally_of (ns @ [k]) k"
    using False by (simp add: tally_snoc_same)
  have "count_key (map (tally_of ns) (first_seen ns)) k
      = map (tally_of (ns @ [k])) (first_seen ns) @ [tally_of (ns @ [k]) k]"
    unfolding 1 2 unfolding 4 using 3 by simp
  then show ?thesis using False by (simp add: first_seen_snoc)
qed

lemma counts_plain:
  "\<forall>k \<in> set names. k \<notin> set object_prototype_keys \<Longrightarrow>
   foldl count_key [] names = map (tally_of names) (first_seen names)"
proof (induction names rule: rev_induct)
  case Nil
  then show ?case by (simp add: first_seen_def)
next
  case (snoc k ns)
  then have "foldl count_key [] ns = map (tally_of ns) (first_seen ns)" by simp
  moreover have "k \<notin> set object_prototype_keys" using snoc.prems by simp
  ultimately show ?case by (simp add: count_key_plain)
qed

lemma own_entries_plain:
  "\<forall>kv \<in> set obj. \<not> is_array_index (fst kv) \<Longrightarrow> own_entries obj = obj"
proof -
  assume a: "\<forall>kv \<in> set obj. \<not> is_array_index (fst kv)"
  then have "filter (\<lambda>kv. is_array_index (fst kv)) obj = []"
    by (simp add: filter_empty_conv)
  moreover from a have "filter (\<lambda>kv. \<not> is_array_index (fst kv)) obj = obj"
    by (simp add: filter_id_conv)
  ultimately show ?thesis by (simp add: own_entries_def)
qed

lemma by_count_desc_rank:
  "by_count_desc (ka, Count a) (kb, Count b) \<le> 0 \<longleftrightarrow> rank (ka, Count a) \<le> rank (kb, Count b)"
  by (simp add: rank_def)

lemma js_insert_counts:
  "\<forall>kv \<in> set ys. \<exists>n. snd kv = Count n \<Longrightarrow>
   js_insert by_count_desc (k, Count a) ys = insort_key rank (k, Count a) ys"
proof (induction ys)
  case Nil
  then show ?case by simp
next
  case (Cons y ys)
  obtain kb b where y: "y = (kb, Count b)" using Cons.prems by (cases y) auto
  from Cons have "js_insert by_count_desc (k, Count a) ys = insort_key rank (k, Count a) ys"
    by simp
  then show ?case unfolding y by (simp add: by_count_desc_rank del: by_count_desc.simps)
qed

lemma js_sort_counts:
  "\<forall>kv \<in> set xs. \<exists>n. snd kv = Count n \<Longrightarrow> js_sort by_count_desc xs = sort_key rank xs"
proof (induction xs)
  case Nil
  then show ?case by (simp add: js_sort_def)
next
  case (Cons x xs)
  obtain k a where x: "x = (k, Count a)" using Cons.prems by (cases x) auto
  from Cons have ih: "js_sort by_count_desc xs = sort_key rank xs" by simp
  have "\<forall>kv \<in> set (sort_key rank xs). \<exists>n. snd kv = Count n" using Cons.prems by simp
  from js_insert_counts[OF this, of k a] ih show ?case
    by (simp add: js_sort_def x)
qed

lemma insort_key_map:
  "insort_key f (g x) (map g xs) = map g (insort_key (\<lambda>y. f (g y)) x xs)"
  by (induction xs) auto

lemma sort_key_map: "sort_key f (map g xs) = map g (sort_key (\<lambda>y. f (g y)) xs)"
  by (induction xs) (simp_all add: insort_key_map)

lemma top_two_plain:
  assumes "\<forall>k \<in> set names. plain_name k"
  shows "top_two names = spec_top_two names"
proof -
  let ?ks = "first_seen names"
  have c: "foldl count_key [] names = map (tally_of names) ?ks"
    using assms by (intro counts_plain) (simp add: plain_name_def)
  have "\<forall>kv \<in> set (map (tally_of names) ?ks). \<not> is_array_index (fst kv)"
    using assms by (auto simp: tally_of_def first_seen_set plain_name_def)
  then have o: "own_entries (map (tally_of names) ?ks) = map (tally_of names) ?ks"
    by (rule own_entries_plain)
  have "\<forall>kv \<in> set (map (tally_of names) ?ks). \<exists>n. snd kv = Count n"
    by (auto simp: tally_of_def)
  then have s: "js_sort by_count_desc (map (tally_of names) ?ks)
                  = sort_key rank (map (tally_of names) ?ks)"
    by (rule js_sort_counts)
  have r: "(\<lambda>k. rank (tally_of names k)) = (\<lambda>k. - int (count_list names k))"
    by (simp add: rank_def tally_of_def)
  have "top_two names = map fst (take 2 (sort_key rank (map (tally_of names) ?ks)))"
    by (simp only: top_two_def c o s)
  also have "\<dots> = map fst (take 2 (map (tally_of names)
                       (sort_key (\<lambda>k. rank (tally_of names k)) ?ks)))"
    by (simp only: sort_key_map)
  also have "\<dots> = take 2 (sort_key (\<lambda>k. - int (count_list names k)) ?ks)"
    unfolding r by (simp add: take_map tally_of_def comp_def)
  finally show ?thesis by (simp only: spec_top_two_def)
qed

lemma or_value_truthy: "d \<noteq> [] \<Longrightarrow> truthy (or_value x d)"
  by (simp add: or_value_def split: option.splits)

lemma collect_each:
  "d \<noteq> [] \<Longrightarrow> collect f d sample = map (\<lambda>r. or_value (f (snd r)) d) sample"
  by (simp add: collect_def filter_id_conv or_value_truthy)

lemma those_eq_Some: "those xs = Some ys \<longleftrightarrow> xs = map Some ys"
  by (induction xs arbitrary: ys) (auto split: option.splits)

lemma those_eq_None: "those xs = None \<longleftrightarrow> None \<in> set xs"
  by (induction xs) (auto split: option.splits)

lemma property_keys_Some: "property_keys vs = Some ks \<longleftrightarrow> map to_string vs = map Some ks"
  by (simp add: property_keys_def those_eq_Some)

lemma property_keys_None: "property_keys vs = None \<longleftrightarrow> (\<exists>v \<in> set vs. to_string v = None)"
  unfolding property_keys_def those_eq_None by (metis (no_types) image_iff set_map)

lemma fallback_throws:
  "synthetic_fallback sample = Inl cannot_convert
     \<longleftrightarrow> (\<exists>v \<in> set (collect primaryEmotion ''neutral'' sample)
                 \<union> set (collect theme ''self'' sample). to_string v = None)"
proof -
  have "synthetic_fallback sample = Inl cannot_convert
     \<longleftrightarrow> property_keys (collect primaryEmotion ''neutral'' sample) = None
         \<or> property_keys (collect theme ''self'' sample) = None"
    by (simp add: synthetic_fallback_def split: option.splits)
  then show ?thesis unfolding property_keys_None by blast
qed

lemma fallback_total:
  "synthetic_fallback sample = Inl cannot_convert \<or> (\<exists>data. synthetic_fallback sample = Inr data)"
  by (simp add: synthetic_fallback_def split: option.splits)

lemma fallback_keys:
  assumes "map to_string (collect primaryEmotion ''neutral'' sample) = map Some emotions"
    and "map to_string (collect theme ''self'' sample) = map Some themes"
  shows "synthetic_fallback sample
           = Inr (fallback_data (length sample) (top_two emotions) (top_two themes))"
  using assms by (simp add: synthetic_fallback_def property_keys_Some[symmetric])

lemma fallback_of_keys:
  assumes "map to_string (collect primaryEmotion ''neutral'' sample) = map Some emotions"
    and "map to_string (collect theme ''self'' sample) = map Some themes"
    and "length sample = n" and "top_two emotions = te" and "top_two themes = tt"
  shows "synthetic_fallback sample = Inr (fallback_data n te tt)"
  using fallback_keys[OF assms(1) assms(2)] assms(3-5) by simp

lemma join_nonempty: "xs \<noteq> [] \<Longrightarrow> \<forall>x \<in> set xs. x \<noteq> [] \<Longrightarrow> join sep xs \<noteq> []"
  by (induction sep xs rule: join.induct) auto

lemma spec_top_two_subset: "set (spec_top_two names) \<subseteq> set names"
proof -
  have "set (spec_top_two names) \<subseteq> set (sort_key (\<lambda>k. - int (count_list names k)) (first_seen names))"
    unfolding spec_top_two_def by (rule set_take_subset)
  then show ?thesis by (simp add: first_seen_set)
qed

lemma fallback_data_spec:
  assumes "\<forall>k \<in> set themes. k \<noteq> []"
  shows "fallback_data n (spec_top_two emotions) (spec_top_two themes)
           = spec_fallback n emotions themes"
proof -
  have "\<forall>x \<in> set (spec_top_two themes). x \<noteq> []"
    using assms spec_top_two_subset[of themes] by blast
  then have j: "spec_top_two themes \<noteq> [] \<Longrightarrow> join '' and '' (spec_top_two themes) \<noteq> []"
    by (intro join_nonempty)
  have j0: "spec_top_two themes = [] \<Longrightarrow> join '' and '' (spec_top_two themes) = []"
    by simp
  show ?thesis
    unfolding fallback_data_def spec_fallback_def Let_def
    using j j0 by (cases "spec_top_two themes = []") simp_all
qed

lemma textual_key:
  "textual x \<Longrightarrow> d \<noteq> [] \<Longrightarrow>
   to_string (or_value x d)
     = Some (case x of Some (JStr s) \<Rightarrow> if s = [] then d else s | _ \<Rightarrow> d)"
  by (auto simp: textual_def or_value_def split: option.splits json.splits)

lemma textual_keys:
  assumes "\<forall>r \<in> set sample. textual (f (snd r))" and "d \<noteq> []"
  shows "map to_string (collect f d sample)
           = map (\<lambda>r. Some (case f (snd r) of Some (JStr s) \<Rightarrow> if s = [] then d else s
                                | _ \<Rightarrow> d)) sample"
  using assms by (simp add: collect_each textual_key)


text \<open>
  Claim C9 as amended. The generator is a function of the sample alone. Each reflection
  gives one emotion and one theme, the default standing in for a field that is absent
  or falsy. The generator uses these values as property names: it throws a TypeError
  exactly when one of them has no property key, which no sample does whose emotions and
  themes are strings or absent; there the keys are the stored strings, and the default
  for an absent field or an empty string. When no key is empty, an array index or a
  property name of \<open>Object.prototype\<close>, the result is the one the specification
  describes: the two names of highest count, ties in the order of first occurrence, in
  a fixed shape whose insight holds the size of the sample and the top themes joined.
\<close>

theorem C9_fallback_refines_spec:
  "collect primaryEmotion ''neutral'' sample =
     map (\<lambda>r. case primaryEmotion (snd r) of None \<Rightarrow> JStr ''neutral''
               | Some v \<Rightarrow> if truthy v then v else JStr ''neutral'') sample
   \<and> collect theme ''self'' sample =
     map (\<lambda>r. case theme (snd r) of None \<Rightarrow> JStr ''self''
               | Some v \<Rightarrow> if truthy v then v else JStr ''self'') sample
   \<and> (synthetic_fallback sample = Inl cannot_convert
        \<longleftrightarrow> (\<exists>v \<in> set (collect primaryEmotion ''neutral'' sample)
                    \<union> set (collect theme ''self'' sample). to_string v = None))
   \<and> (synthetic_fallback sample = Inl cannot_convert
        \<or> (\<exists>data. synthetic_fallback sample = Inr data))
   \<and> ((\<forall>r \<in> set sample. textual (primaryEmotion (snd r)) \<and> textual (theme (snd r)))
        \<longrightarrow> (\<exists>data. synthetic_fallback sample = Inr data)
          \<and> map to_string (collect primaryEmotion ''neutral'' sample)
              = map (\<lambda>r. Some (case primaryEmotion (snd r) of
                                   Some (JStr s) \<Rightarrow> if s = [] then ''neutral'' else s
                                 | _ \<Rightarrow> ''neutral'')) sample
          \<and> map to_string (collect theme ''self'' sample)
              = map (\<lambda>r. Some (case theme (snd r) of
                                   Some (JStr s) \<Rightarrow> if s = [] then ''self'' else s
                                 | _ \<Rightarrow> ''self'')) sample)
   \<and> (map to_string (collect primaryEmotion ''neutral'' sample) = map Some emotions
        \<longrightarrow> map to_string (collect theme ''self'' sample) = map Some themes
        \<longrightarrow> (\<forall>k \<in> set emotions \<union> set themes.
               k \<noteq> [] \<and> \<not> is_array_index k \<and> k \<notin> set object_prototype_keys)
        \<longrightarrow> synthetic_fallback sample = Inr (spec_fallback (length sample) emotions themes))"
proof -
  have 1: "collect primaryEmotion ''neutral'' sample =
     map (\<lambda>r. case primaryEmotion (snd r) of None \<Rightarrow> JStr ''neutral''
               | Some v \<Rightarrow> if truthy v then v else JStr ''neutral'') sample"
    by (simp add: collect_each or_value_def)
  have 2: "collect theme ''self'' sample =
     map (\<lambda>r. case theme (snd r) of None \<Rightarrow> JStr ''self''
               | Some v \<Rightarrow> if truthy v then v else JStr ''self'') sample"
    by (simp add: collect_each or_value_def)
  have 3: "synthetic_fallback sample = Inl cannot_convert
        \<longleftrightarrow> (\<exists>v \<in> set (collect primaryEmotion ''neutral'' sample)
                    \<union> set (collect theme ''self'' sample). to_string v = None)"
    by (rule fallback_throws)
  have 4: "synthetic_fallback sample = Inl cannot_convert
        \<or> (\<exists>data. synthetic_fallback sample = Inr data)"
    by (rule fallback_total)
  have 5: "(\<forall>r \<in> set sample. textual (primaryEmotion (snd r)) \<and> textual (theme (snd r)))
        \<longrightarrow> (\<exists>data. synthetic_fallback sample = Inr data)
          \<and> map to_string (collect primaryEmotion ''neutral'' sample)
              = map (\<lambda>r. Some (case primaryEmotion (snd r) of
                                   Some (JStr s) \<Rightarrow> if s = [] then ''neutral'' else s
                                 | _ \<Rightarrow> ''neutral'')) sample
          \<and> map to_string (collect theme ''self'' sample)
              = map (\<lambda>r. Some (case theme (snd r) of
                                   Some (JStr s) \<Rightarrow> if s = [] then ''self'' else s
                                 | _ \<Rightarrow> ''self'')) sample"
  proof (intro impI)
    assume t: "\<forall>r \<in> set sample. textual (primaryEmotion (snd r)) \<and> textual (theme (snd r))"
    then have te: "\<forall>r \<in> set sample. textual (primaryEmotion (snd r))"
      and tt: "\<forall>r \<in> set sample. textual (theme (snd r))" by simp_all
    have e: "map to_string (collect primaryEmotion ''neutral'' sample)
              = map (\<lambda>r. Some (case primaryEmotion (snd r) of
                                   Some (JStr s) \<Rightarrow> if s = [] then ''neutral'' else s
                                 | _ \<Rightarrow> ''neutral'')) sample"
      using te by (rule textual_keys) simp
    have h: "map to_string (collect theme ''self'' sample)
              = map (\<lambda>r. Some (case theme (snd r) of
                                   Some (JStr s) \<Rightarrow> if s = [] then ''self'' else s
                                 | _ \<Rightarrow> ''self'')) sample"
      using tt by (rule textual_keys) simp
    have "\<forall>v \<in> set (collect primaryEmotion ''neutral'' sample). to_string v \<noteq> None"
    proof
      fix v assume "v \<in> set (collect primaryEmotion ''neutral'' sample)"
      then have "to_string v \<in> set (map to_string (collect primaryEmotion ''neutral'' sample))"
        by simp
      then show "to_string v \<noteq> None" unfolding e by auto
    qed
    moreover have "\<forall>v \<in> set (collect theme ''self'' sample). to_string v \<noteq> None"
    proof
      fix v assume "v \<in> set (collect theme ''self'' sample)"
      then have "to_string v \<in> set (map to_string (collect theme ''self'' sample))"
        by simp
      then show "to_string v \<noteq> None" unfolding h by auto
    qed
    ultimately have "synthetic_fallback sample \<noteq> Inl cannot_convert"
      unfolding 3 by blast
    with 4 have "\<exists>data. synthetic_fallback sample = Inr data" by blast
    with e h show "(\<exists>data. synthetic_fallback sample = Inr data)
          \<and> map to_string (collect primaryEmotion ''neutral'' sample)
              = map (\<lambda>r. Some (case primaryEmotion (snd r) of
                                   Some (JStr s) \<Rightarrow> if s = [] then ''neutral'' else s
                                 | _ \<Rightarrow> ''neutral'')) sample
          \<and> map to_string (collect theme ''self'' sample)
              = map (\<lambda>r. Some (case theme (snd r) of
                                   Some (JStr s) \<Rightarrow> if s = [] then ''self'' else s
                                 | _ \<Rightarrow> ''self'')) sample"
      by (intro conjI)
  qed
  have 6: "map to_string (collect primaryEmotion ''neutral'' sample) = map Some emotions
        \<longrightarrow> map to_string (collect theme ''self'' sample) = map Some themes
        \<longrightarrow> (\<forall>k \<in> set emotions \<union> set themes.
               k \<noteq> [] \<and> \<not> is_array_index k \<and> k \<notin> set object_prototype_keys)
        \<longrightarrow> synthetic_fallback sample = Inr (spec_fallback (length sample) emotions themes)"
  proof (intro impI)
    assume e: "map to_string (collect primaryEmotion ''neutral'' sample) = map Some emotions"
      and t: "map to_string (collect theme ''self'' sample) = map Some themes"
      and a: "\<forall>k \<in> set emotions \<union> set themes.
               k \<noteq> [] \<and> \<not> is_array_index k \<and> k \<notin> set object_prototype_keys"
    from a have "\<forall>k \<in> set emotions. plain_name k" and "\<forall>k \<in> set themes. plain_name k"
      by (simp_all add: plain_name_def)
    then have "top_two emotions = spec_top_two emotions" and "top_two themes = spec_top_two themes"
      by (simp_all only: top_two_plain)
    with fallback_keys[OF e t]
    have "synthetic_fallback sample
            = Inr (fallback_data (length sample) (spec_top_two emotions) (spec_top_two themes))"
      by simp
    moreover from a have "\<forall>k \<in> set themes. k \<noteq> []" by simp
    ultimately show "synthetic_fallback sample = Inr (spec_fallback (length sample) emotions themes)"
      by (simp only: fallback_data_spec)
  qed
  from 1 2 3 4 5 6 show ?thesis by (intro conjI)
qed


lemma object_newest_first: "take 7 (newest_first object_sample) = object_sample"
  by (simp add: newest_first_def object_sample_def reflection_of_def less_eq_prod_def)

theorem C9_fallback_counterexample:
  "synthetic_fallback object_sample = Inl cannot_convert
   \<and> fst (analyze_weekly (malformed_reply\<lparr>analysis_latency := \<lambda>n. 20000\<rparr>)
            (Some ''u1'') object_world) = (500, Failure ''Weekly analysis failed'')
   \<and> map to_string (collect primaryEmotion ''neutral'' index_sample)
       = [Some ''2'', Some ''1'', Some ''neutral'']
   \<and> spec_top_two [''2'', ''1'', ''neutral''] = [''2'', ''1'']
   \<and> synthetic_fallback index_sample = Inr (fallback_data 3 [''1'', ''2''] [''work''])
   \<and> synthetic_fallback index_sample
       \<noteq> Inr (spec_fallback 3 [''2'', ''1'', ''neutral''] [''work'', ''work'', ''work''])
   \<and> map to_string (collect primaryEmotion ''neutral'' proto_sample)
       = [Some ''__proto__'', Some ''__proto__'', Some ''__proto__'']
   \<and> spec_top_two [''__proto__'', ''__proto__'', ''__proto__''] = [''__proto__'']
   \<and> synthetic_fallback proto_sample = Inr (fallback_data 3 [] [''work''])
   \<and> synthetic_fallback proto_sample
       \<noteq> Inr (spec_fallback 3 [''__proto__'', ''__proto__'', ''__proto__'']
                [''work'', ''work'', ''work''])
   \<and> map to_string (collect primaryEmotion ''neutral'' inherited_sample)
       = [Some ''sad'', Some ''constructor'', Some ''constructor'']
   \<and> spec_top_two [''sad'', ''constructor'', ''constructor''] = [''constructor'', ''sad'']
   \<and> synthetic_fallback inherited_sample
       = Inr (fallback_data 3 [''sad'', ''constructor''] [''work''])
   \<and> synthetic_fallback inherited_sample
       \<noteq> Inr (spec_fallback 3 [''sad'', ''constructor'', ''constructor'']
                [''work'', ''work'', ''work''])
   \<and> map to_string (collect theme ''self'' empty_sample) = [Some [], Some [], Some []]
   \<and> synthetic_fallback empty_sample = Inr (fallback_data 3 [''sad''] [[]])
   \<and> js_prop (fallback_data 3 [''sad''] [[]]) ''weeklyInsight''
       = Some (JStr ''This week you've reflected 3 times, exploring themes of personal growth.'')
   \<and> js_prop (spec_fallback 3 [''sad'', ''sad'', ''sad''] [[], [], []]) ''weeklyInsight''
       = Some (JStr ''This week you've reflected 3 times, exploring themes of .'')
   \<and> primaryEmotion (snd (hd falsy_sample)) = Some (JStr [])
   \<and> collect primaryEmotion ''neutral'' falsy_sample
       = [JStr ''neutral'', JStr ''sad'', JStr ''sad'']"
proof -
  let ?late = "malformed_reply\<lparr>analysis_latency := \<lambda>n. 20000\<rparr>"
  let ?w2 = "object_world\<lparr>store_ops := Suc (Suc (store_ops object_world)),
      trace := trace object_world @ [StoreRead ''u1'', StoreRead (''u1'' @ ''/reflections'')]\<rparr>"
  have three: "show_nat 3 = ''3''"
    using show_digits.simps(2)[of 3 3] by (simp add: show_nat_def digit_char_def)
  have len_index_sample: "length index_sample = 3"
    and len_proto_sample: "length proto_sample = 3"
    and len_inherited_sample: "length inherited_sample = 3"
    and len_empty_sample: "length empty_sample = 3"
    by (simp_all add: index_sample_def proto_sample_def inherited_sample_def empty_sample_def)
  have a: "synthetic_fallback object_sample = Inl cannot_convert"
    by (simp add: synthetic_fallback_def property_keys_def collect_def or_value_def
        object_sample_def reflection_of_def)
  have n: "''u1'' \<noteq> []" by simp
  have r: "reflections object_world ''u1'' = object_sample" by (simp add: object_world_def)
  have l: "3 \<le> length (reflections object_world ''u1'')"
    by (simp add: r object_sample_def)
  have "analyze_weekly ?late (Some ''u1'') object_world
          = aggregate ?late ''u1'' (take 7 (newest_first object_sample)) ?w2"
    using analyze_weekly_enough[OF n _ _ _ l, of ?late]
    by (simp add: r malformed_reply_def env0_def fresh_cache_def object_world_def world0_def)
  moreover have "GEMINI_TIMEOUT \<le> analysis_latency ?late (gemini_calls ?w2)"
    by (simp add: GEMINI_TIMEOUT_def)
  ultimately have b: "fst (analyze_weekly ?late (Some ''u1'') object_world)
      = (500, Failure ''Weekly analysis failed'')"
    using aggregate_thrown[of ?late ?w2 object_sample cannot_convert "''u1''"] a
    by (simp add: object_newest_first)
  have ie: "map to_string (collect primaryEmotion ''neutral'' index_sample)
       = [Some ''2'', Some ''1'', Some ''neutral'']"
    by (simp add: index_sample_def collect_def or_value_def reflection_at_def)
  have it: "map to_string (collect theme ''self'' index_sample)
       = [Some ''work'', Some ''work'', Some ''work'']"
    by (simp add: index_sample_def collect_def or_value_def reflection_at_def)
  have work: "top_two [''work'', ''work'', ''work''] = [''work'']"
    by (simp add: top_two_def count_key_def object_prototype_keys_def own_entries_def
        is_array_index_def is_digit_def js_sort_def)
  have swork: "spec_top_two [''work'', ''work'', ''work''] = [''work'']"
    by (simp add: spec_top_two_def first_seen_def)
  have isp: "spec_top_two [''2'', ''1'', ''neutral''] = [''2'', ''1'']"
    by (simp add: spec_top_two_def first_seen_def)
  have "top_two [''2'', ''1'', ''neutral''] = [''1'', ''2'']"
    by (simp add: top_two_def count_key_def object_prototype_keys_def own_entries_def
        is_array_index_def is_digit_def digits_value_def js_sort_def)
  then have ir: "synthetic_fallback index_sample = Inr (fallback_data 3 [''1'', ''2''] [''work''])"
    by (intro fallback_of_keys[where emotions = "[''2'', ''1'', ''neutral'']"
          and themes = "[''work'', ''work'', ''work'']"])
       (simp_all add: ie it work len_index_sample)
  have "js_prop (fallback_data 3 [''1'', ''2''] [''work'']) ''dominantEmotions''
          \<noteq> js_prop (spec_fallback 3 [''2'', ''1'', ''neutral''] [''work'', ''work'', ''work''])
               ''dominantEmotions''"
    by (simp add: fallback_data_def spec_fallback_def Let_def isp)
  then have "fallback_data 3 [''1'', ''2''] [''work'']
          \<noteq> spec_fallback 3 [''2'', ''1'', ''neutral''] [''work'', ''work'', ''work'']" by auto
  with ir have id: "synthetic_fallback index_sample
       \<noteq> Inr (spec_fallback 3 [''2'', ''1'', ''neutral''] [''work'', ''work'', ''work''])"
    by simp
  have pe: "map to_string (collect primaryEmotion ''neutral'' proto_sample)
       = [Some ''__proto__'', Some ''__proto__'', Some ''__proto__'']"
    by (simp add: proto_sample_def collect_def or_value_def reflection_of_def)
  have pt: "map to_string (collect theme ''self'' proto_sample)
       = [Some ''work'', Some ''work'', Some ''work'']"
    by (simp add: proto_sample_def collect_def or_value_def reflection_of_def)
  have ps: "spec_top_two [''__proto__'', ''__proto__'', ''__proto__''] = [''__proto__'']"
    by (simp add: spec_top_two_def first_seen_def)
  have "top_two [''__proto__'', ''__proto__'', ''__proto__''] = []"
    by (simp add: top_two_def count_key_def object_prototype_keys_def own_entries_def
        js_sort_def)
  then have pr: "synthetic_fallback proto_sample = Inr (fallback_data 3 [] [''work''])"
    by (intro fallback_of_keys[where emotions = "[''__proto__'', ''__proto__'', ''__proto__'']"
          and themes = "[''work'', ''work'', ''work'']"])
       (simp_all add: pe pt work len_proto_sample)
  have "js_prop (fallback_data 3 [] [''work'']) ''dominantEmotions''
          \<noteq> js_prop (spec_fallback 3 [''__proto__'', ''__proto__'', ''__proto__'']
                [''work'', ''work'', ''work'']) ''dominantEmotions''"
    by (simp add: fallback_data_def spec_fallback_def Let_def ps)
  then have "fallback_data 3 [] [''work'']
          \<noteq> spec_fallback 3 [''__proto__'', ''__proto__'', ''__proto__'']
                [''work'', ''work'', ''work'']" by auto
  with pr have pd: "synthetic_fallback proto_sample
       \<noteq> Inr (spec_fallback 3 [''__proto__'', ''__proto__'', ''__proto__'']
                [''work'', ''work'', ''work''])" by simp
  have ce: "map to_string (collect primaryEmotion ''neutral'' inherited_sample)
       = [Some ''sad'', Some ''constructor'', Some ''constructor'']"
    by (simp add: inherited_sample_def collect_def or_value_def reflection_of_def)
  have ct: "map to_string (collect theme ''self'' inherited_sample)
       = [Some ''work'', Some ''work'', Some ''work'']"
    by (simp add: inherited_sample_def collect_def or_value_def reflection_of_def)
  have cs: "spec_top_two [''sad'', ''constructor'', ''constructor''] = [''constructor'', ''sad'']"
    by (simp add: spec_top_two_def first_seen_def)
  have "top_two [''sad'', ''constructor'', ''constructor''] = [''sad'', ''constructor'']"
    by (simp add: top_two_def count_key_def object_prototype_keys_def own_entries_def
        is_array_index_def is_digit_def js_sort_def)
  then have cr: "synthetic_fallback inherited_sample
       = Inr (fallback_data 3 [''sad'', ''constructor''] [''work''])"
    by (intro fallback_of_keys[where emotions = "[''sad'', ''constructor'', ''constructor'']"
          and themes = "[''work'', ''work'', ''work'']"])
       (simp_all add: ce ct work len_inherited_sample)
  have "js_prop (fallback_data 3 [''sad'', ''constructor''] [''work'']) ''dominantEmotions''
          \<noteq> js_prop (spec_fallback 3 [''sad'', ''constructor'', ''constructor'']
                [''work'', ''work'', ''work'']) ''dominantEmotions''"
    by (simp add: fallback_data_def spec_fallback_def Let_def cs)
  then have "fallback_data 3 [''sad'', ''constructor''] [''work'']
          \<noteq> spec_fallback 3 [''sad'', ''constructor'', ''constructor'']
                [''work'', ''work'', ''work'']" by auto
  with cr have cd: "synthetic_fallback inherited_sample
       \<noteq> Inr (spec_fallback 3 [''sad'', ''constructor'', ''constructor'']
                [''work'', ''work'', ''work''])" by simp
  have ee: "map to_string (collect primaryEmotion ''neutral'' empty_sample)
       = [Some ''sad'', Some ''sad'', Some ''sad'']"
    by (simp add: empty_sample_def collect_def or_value_def reflection_of_def)
  have et: "map to_string (collect theme ''self'' empty_sample) = [Some [], Some [], Some []]"
    by (simp add: empty_sample_def collect_def or_value_def reflection_of_def)
  have "top_two [''sad'', ''sad'', ''sad''] = [''sad'']"
    by (simp add: top_two_def count_key_def object_prototype_keys_def own_entries_def
        is_array_index_def is_digit_def js_sort_def)
  moreover have "top_two [[], [], []] = [[]]"
    by (simp add: top_two_def count_key_def object_prototype_keys_def own_entries_def
        is_array_index_def js_sort_def)
  ultimately have er: "synthetic_fallback empty_sample = Inr (fallback_data 3 [''sad''] [[]])"
    by (intro fallback_of_keys[where emotions = "[''sad'', ''sad'', ''sad'']"
          and themes = "[[], [], []]"])
       (simp_all add: ee et len_empty_sample)
  have e1: "js_prop (fallback_data 3 [''sad''] [[]]) ''weeklyInsight''
       = Some (JStr ''This week you've reflected 3 times, exploring themes of personal growth.'')"
    by (simp add: fallback_data_def three)
  have "spec_top_two [[], [], []] = [[]]"
    by (simp add: spec_top_two_def first_seen_def)
  then have e2: "js_prop (spec_fallback 3 [''sad'', ''sad'', ''sad''] [[], [], []]) ''weeklyInsight''
       = Some (JStr ''This week you've reflected 3 times, exploring themes of .'')"
    by (simp add: spec_fallback_def Let_def three)
  have f1: "primaryEmotion (snd (hd falsy_sample)) = Some (JStr [])"
    by (simp add: falsy_sample_def reflection_of_def)
  have f2: "collect primaryEmotion ''neutral'' falsy_sample
       = [JStr ''neutral'', JStr ''sad'', JStr ''sad'']"
    by (simp add: falsy_sample_def collect_def or_value_def reflection_of_def)
  from a b ie isp ir id pe ps pr pd ce cs cr cd et er e1 e2 f1 f2
  show ?thesis by (intro conjI)
qed

theorem C9_fallback_refines_spec_witness:
  "map to_string (collect primaryEmotion ''neutral'' tie_sample)
     = [Some ''glad'', Some ''sad'', Some ''calm'']
   \<and> map to_string (collect theme ''self'' tie_sample)
     = [Some ''work'', Some ''self'', Some ''growth'']
   \<and> synthetic_fallback tie_sample
     = Inr (spec_fallback 3 [''glad'', ''sad'', ''calm''] [''work'', ''self'', ''growth''])
   \<and> js_prop (spec_fallback 3 [''glad'', ''sad'', ''calm''] [''work'', ''self'', ''growth''])
        ''dominantEmotions'' = Some (JArr [JStr ''glad'', JStr ''sad''])
   \<and> js_prop (spec_fallback 3 [''glad'', ''sad'', ''calm''] [''work'', ''self'', ''growth''])
        ''weeklyInsight''
       = Some (JStr ''This week you've reflected 3 times, exploring themes of work and self.'')
   \<and> synthetic_fallback object_sample = Inl cannot_convert"
proof -
  have e: "map to_string (collect primaryEmotion ''neutral'' tie_sample)
       = map Some [''glad'', ''sad'', ''calm'']"
    and t: "map to_string (collect theme ''self'' tie_sample)
       = map Some [''work'', ''self'', ''growth'']"
    by (simp_all add: tie_sample_def collect_def or_value_def reflection_at_def)
  have h: "\<forall>k \<in> set [''glad'', ''sad'', ''calm''] \<union> set [''work'', ''self'', ''growth''].
       k \<noteq> [] \<and> \<not> is_array_index k \<and> k \<notin> set object_prototype_keys"
    by (simp add: is_array_index_def is_digit_def object_prototype_keys_def)
  have len: "length tie_sample = 3" by (simp add: tie_sample_def)
  note c = C9_fallback_refines_spec[of tie_sample "[''glad'', ''sad'', ''calm'']"
      "[''work'', ''self'', ''growth'']"]
  from c[THEN conjunct2, THEN conjunct2, THEN conjunct2, THEN conjunct2, THEN conjunct2,
      THEN mp, OF e, THEN mp, OF t, THEN mp, OF h]
  have r: "synthetic_fallback tie_sample
     = Inr (spec_fallback 3 [''glad'', ''sad'', ''calm''] [''work'', ''self'', ''growth''])"
    unfolding len .
  have "\<exists>v \<in> set (collect primaryEmotion ''neutral'' object_sample)
                    \<union> set (collect theme ''self'' object_sample). to_string v = None"
    by (simp add: object_sample_def collect_def or_value_def reflection_of_def)
  with C9_fallback_refines_spec[of object_sample, THEN conjunct2, THEN conjunct2, THEN conjunct1]
  have o: "synthetic_fallback object_sample = Inl cannot_convert" by blast
  have se: "spec_top_two [''glad'', ''sad'', ''calm''] = [''glad'', ''sad'']"
    and st: "spec_top_two [''work'', ''self'', ''growth''] = [''work'', ''self'']"
    by (simp_all add: spec_top_two_def first_seen_def)
  have three: "show_nat 3 = ''3''"
    using show_digits.simps(2)[of 3 3] by (simp add: show_nat_def digit_char_def)
  have d: "js_prop (spec_fallback 3 [''glad'', ''sad'', ''calm''] [''work'', ''self'', ''growth''])
        ''dominantEmotions'' = Some (JArr [JStr ''glad'', JStr ''sad''])"
    by (simp add: spec_fallback_def Let_def se)
  have i: "js_prop (spec_fallback 3 [''glad'', ''sad'', ''calm''] [''work'', ''self'', ''growth''])
        ''weeklyInsight''
       = Some (JStr ''This week you've reflected 3 times, exploring themes of work and self.'')"
    by (simp add: spec_fallback_def Let_def st three)
  from e t r d i o show ?thesis by (simp only: list.map)
qed

end
